(* ===== verification/Prelude.thy ===== *)
theory Prelude
  imports Main "HOL-Library.AList" "HOL-Library.Char_ord" "HOL-Library.List_Lexorder"
    "HOL-Library.Product_Lexorder" "HOL-Library.Multiset"
begin

text \<open>
  Shared vocabulary of the development: the exceptions of the code as values, the
  state-and-exception actions in which the services and repositories are written, Python
  dictionaries as association lists, and the generic lemmas about sorted lists, dictionaries
  and actions that the component theories use.

  Types of the model. A Python \<open>str\<close> is a \<open>string\<close> whose characters are its code points: the
  256 characters of HOL are the code points U+0000 to U+00FF, and comparing two strings compares
  code points, as Python does. A \<open>UUID\<close> is its 128-bit number, an aware \<open>datetime\<close> its distance
  from the epoch in microseconds (an \<open>int\<close>), a Python integer an \<open>int\<close>.
\<close>

type_synonym uuid = nat
type_synonym time = int

named_theorems action_simps "equations and inversion rules for state-and-exception actions"
named_theorems dict_simps "facts about dictionaries built from key-value pairs"

section \<open>Exceptions\<close>

text \<open>
  One constructor per exception class that the modelled code raises or catches. The payloads are
  the values the code puts into the exception object and its handlers read.
\<close>

datatype http_detail = DetailText string | DetailVersions int int | DetailRetryAt time

datatype py_error =
    ValueError string
  | TypeError string
  | KeyError string
  | AttributeError string
  | LookupError string
  | OSError string
  | PsycopgError string
  | IndexError
  | IntegrityError
  | DataError
  | PendingRollbackError
  | CatalogValidationError string
  | SourceNotFound string
  | ScanAlreadyRunning string
  | EmptySchemaSnapshot string
  | ChangeNotFound uuid
  | BaselineVersionConflict int int
  | DeliveryFailure string
  | DeliveryNotFound uuid
  | MaxAttemptsExceeded uuid
  | RetryNotDue time
  | HTTPException nat http_detail
  | AirflowException string
  | AirflowFailException string
  | YAMLError string
  | ValidationError string
  | HttpxError string
  | SMTPException string
  | SQLAlchemyError string

text \<open>\<open>type(exc).__name__\<close>; an error of a library is named by its base class.\<close>

fun error_name :: "py_error \<Rightarrow> string" where
  "error_name (ValueError _) = ''ValueError''"
| "error_name (TypeError _) = ''TypeError''"
| "error_name (KeyError _) = ''KeyError''"
| "error_name (AttributeError _) = ''AttributeError''"
| "error_name (LookupError _) = ''LookupError''"
| "error_name (OSError _) = ''OSError''"
| "error_name (PsycopgError _) = ''OperationalError''"
| "error_name IndexError = ''IndexError''"
| "error_name IntegrityError = ''IntegrityError''"
| "error_name DataError = ''DataError''"
| "error_name PendingRollbackError = ''PendingRollbackError''"
| "error_name (CatalogValidationError _) = ''CatalogValidationError''"
| "error_name (SourceNotFound _) = ''SourceNotFound''"
| "error_name (ScanAlreadyRunning _) = ''ScanAlreadyRunning''"
| "error_name (EmptySchemaSnapshot _) = ''EmptySchemaSnapshot''"
| "error_name (ChangeNotFound _) = ''ChangeNotFound''"
| "error_name (BaselineVersionConflict _ _) = ''BaselineVersionConflict''"
| "error_name (DeliveryFailure _) = ''DeliveryFailure''"
| "error_name (DeliveryNotFound _) = ''DeliveryNotFound''"
| "error_name (MaxAttemptsExceeded _) = ''MaxAttemptsExceeded''"
| "error_name (RetryNotDue _) = ''RetryNotDue''"
| "error_name (HTTPException _ _) = ''HTTPException''"
| "error_name (AirflowException _) = ''AirflowException''"
| "error_name (AirflowFailException _) = ''AirflowFailException''"
| "error_name (YAMLError _) = ''YAMLError''"
| "error_name (ValidationError _) = ''ValidationError''"
| "error_name (HttpxError _) = ''HTTPError''"
| "error_name (SMTPException _) = ''SMTPException''"
| "error_name (SQLAlchemyError _) = ''SQLAlchemyError''"

text \<open>\<open>except LookupError\<close> also catches the subclasses of \<open>LookupError\<close>.\<close>

fun is_lookup_error :: "py_error \<Rightarrow> bool" where
  "is_lookup_error (LookupError _) = True"
| "is_lookup_error (KeyError _) = True"
| "is_lookup_error IndexError = True"
| "is_lookup_error (SourceNotFound _) = True"
| "is_lookup_error (ChangeNotFound _) = True"
| "is_lookup_error (DeliveryNotFound _) = True"
| "is_lookup_error _ = False"

section \<open>Results without state\<close>

definition bindR :: "py_error + 'a \<Rightarrow> ('a \<Rightarrow> py_error + 'b) \<Rightarrow> py_error + 'b" where
  "bindR m f = (case m of Inl e \<Rightarrow> Inl e | Inr x \<Rightarrow> f x)"

lemma bindR_Inl [simp]: "bindR (Inl e) f = Inl e"
  and bindR_Inr [simp]: "bindR (Inr x) f = f x"
  by (simp_all add: bindR_def)

lemma bindR_eq_Inr: "bindR m f = Inr y \<longleftrightarrow> (\<exists>x. m = Inr x \<and> f x = Inr y)"
  by (cases m) auto

lemma bindR_eq_Inl: "bindR m f = Inl e \<longleftrightarrow> m = Inl e \<or> (\<exists>x. m = Inr x \<and> f x = Inl e)"
  by (cases m) auto

text \<open>\<open>tuple(f(x) for x in xs)\<close>: the first element that raises ends the generator.\<close>

fun mapR :: "('a \<Rightarrow> py_error + 'b) \<Rightarrow> 'a list \<Rightarrow> py_error + 'b list" where
  "mapR f [] = Inr []"
| "mapR f (x # xs) = bindR (f x) (\<lambda>y. bindR (mapR f xs) (\<lambda>ys. Inr (y # ys)))"

lemma mapR_Inr: "(\<And>x. x \<in> set xs \<Longrightarrow> f x = Inr (g x)) \<Longrightarrow> mapR f xs = Inr (map g xs)"
  by (induction xs) auto

lemma mapR_eq_Inr:
  "mapR f xs = Inr ys \<longleftrightarrow> length ys = length xs \<and> (\<forall>i<length xs. f (xs ! i) = Inr (ys ! i))"
proof (induction xs arbitrary: ys)
  case Nil
  then show ?case by auto
next
  case (Cons x xs)
  then show ?case
    by (cases ys) (auto simp: bindR_eq_Inr nth_Cons split: nat.splits)
qed

section \<open>Dictionaries\<close>

text \<open>
  A \<open>dict\<close> is an association list with distinct keys in insertion order; \<open>AList.update\<close> replaces
  a value in place and appends a new key, as Python does.
\<close>

lemma update_new [dict_simps]: "k \<notin> fst ` set d \<Longrightarrow> AList.update k v d = d @ [(k, v)]"
  by (induction d) auto

lemma map_of_update [dict_simps]: "map_of (AList.update k v d) = (map_of d)(k \<mapsto> v)"
  by (rule update_conv')

lemma fold_update_distinct:
  assumes "distinct (map f xs)"
  shows "fold (\<lambda>x m. AList.update (f x) x m) xs [] = map (\<lambda>x. (f x, x)) xs"
proof -
  have "fold (\<lambda>x m. AList.update (f x) x m) xs d = d @ map (\<lambda>x. (f x, x)) xs"
    if "distinct (map f xs)" "fst ` set d \<inter> f ` set xs = {}" for xs d
    using that
  proof (induction xs arbitrary: d)
    case (Cons x xs)
    have "AList.update (f x) x d = d @ [(f x, x)]"
      using Cons.prems(2) by (intro update_new) auto
    then show ?case using Cons by auto
  qed simp
  then show ?thesis using assms by simp
qed

lemma map_of_pairs_SomeD: "map_of (map (\<lambda>x. (f x, x)) xs) k = Some y \<Longrightarrow> y \<in> set xs \<and> f y = k"
  by (auto dest!: map_of_SomeD)

section \<open>Actions: a state and exceptions\<close>

text \<open>
  A statement block is a function from the state to a result and the state it leaves. As in
  Python, the state changed before a raise stays changed: only a handler or the end of the
  transaction decides what becomes of it.
\<close>

type_synonym ('s, 'a) action = "'s \<Rightarrow> (py_error + 'a) \<times> 's"

definition returnA :: "'a \<Rightarrow> ('s, 'a) action" where
  "returnA x = (\<lambda>s. (Inr x, s))"

definition raiseA :: "py_error \<Rightarrow> ('s, 'a) action" where
  "raiseA e = (\<lambda>s. (Inl e, s))"

definition bindA :: "('s, 'a) action \<Rightarrow> ('a \<Rightarrow> ('s, 'b) action) \<Rightarrow> ('s, 'b) action" where
  "bindA m f = (\<lambda>s. case m s of (Inl e, s') \<Rightarrow> (Inl e, s') | (Inr x, s') \<Rightarrow> f x s')"

definition thenA :: "('s, 'a) action \<Rightarrow> ('s, 'b) action \<Rightarrow> ('s, 'b) action" where
  "thenA m k = bindA m (\<lambda>_. k)"

definition liftA :: "py_error + 'a \<Rightarrow> ('s, 'a) action" where
  "liftA r = (\<lambda>s. (r, s))"

text \<open>\<open>try: m except Exception as e: h(e)\<close>\<close>

definition exceptA :: "('s, 'a) action \<Rightarrow> (py_error \<Rightarrow> ('s, 'a) action) \<Rightarrow> ('s, 'a) action" where
  "exceptA m h = (\<lambda>s. case m s of (Inl e, s') \<Rightarrow> h e s' | (Inr x, s') \<Rightarrow> (Inr x, s'))"

text \<open>\<open>for x in xs: body\<close> with a variable that the body updates.\<close>

fun forA :: "'x list \<Rightarrow> 'a \<Rightarrow> ('x \<Rightarrow> 'a \<Rightarrow> ('s, 'a) action) \<Rightarrow> ('s, 'a) action" where
  "forA [] a f = returnA a"
| "forA (x # xs) a f = bindA (f x a) (\<lambda>a'. forA xs a' f)"

lemma returnA_apply [simp]: "returnA x s = (Inr x, s)"
  by (simp add: returnA_def)

lemma raiseA_apply [simp]: "raiseA e s = (Inl e, s)"
  by (simp add: raiseA_def)

lemma liftA_apply [simp]: "liftA r s = (r, s)"
  by (simp add: liftA_def)

lemma bindA_step:
  "m s = (Inr x, s') \<Longrightarrow> bindA m f s = f x s'"
  "m s = (Inl e, s') \<Longrightarrow> bindA m f s = (Inl e, s')"
  by (simp_all add: bindA_def)

lemma bindA_eq_Inr [action_simps]:
  "bindA m f s = (Inr y, t) \<longleftrightarrow> (\<exists>x s'. m s = (Inr x, s') \<and> f x s' = (Inr y, t))"
  by (auto simp: bindA_def split: prod.splits sum.splits)

lemma bindA_eq_Inl [action_simps]:
  "bindA m f s = (Inl e, t) \<longleftrightarrow>
     m s = (Inl e, t) \<or> (\<exists>x s'. m s = (Inr x, s') \<and> f x s' = (Inl e, t))"
  by (auto simp: bindA_def split: prod.splits sum.splits)

lemma bindA_returnA [simp]: "bindA (returnA x) f = f x"
  by (simp add: bindA_def fun_eq_iff)

lemma bindA_raiseA [simp]: "bindA (raiseA e) f = raiseA e"
  by (simp add: bindA_def fun_eq_iff)

lemma bindA_assoc: "bindA (bindA m f) g = bindA m (\<lambda>x. bindA (f x) g)"
  by (auto simp: bindA_def fun_eq_iff split: prod.splits sum.splits)

lemma thenA_eq_Inr [action_simps]:
  "thenA m k s = (Inr y, t) \<longleftrightarrow> (\<exists>x s'. m s = (Inr x, s') \<and> k s' = (Inr y, t))"
  by (simp add: thenA_def bindA_eq_Inr)

lemma thenA_eq_Inl [action_simps]:
  "thenA m k s = (Inl e, t) \<longleftrightarrow>
     m s = (Inl e, t) \<or> (\<exists>x s'. m s = (Inr x, s') \<and> k s' = (Inl e, t))"
  by (simp add: thenA_def bindA_eq_Inl)

lemma thenA_step:
  "m s = (Inr x, s') \<Longrightarrow> thenA m k s = k s'"
  "m s = (Inl e, s') \<Longrightarrow> thenA m k s = (Inl e, s')"
  by (simp_all add: thenA_def bindA_def)

text \<open>An invariant that the body keeps, whether it returns or raises, is kept by the loop.\<close>

lemma forA_invariant:
  assumes "\<And>x a s. x \<in> set xs \<Longrightarrow> P s \<Longrightarrow> P (snd (f x a s))" and "P s"
  shows "P (snd (forA xs a f s))"
  using assms
proof (induction xs arbitrary: a s)
  case Nil
  then show ?case by simp
next
  case (Cons x xs)
  have "P (snd (f x a s))" using Cons.prems by simp
  then show ?case
    using Cons.IH Cons.prems(1) by (auto simp: bindA_def split: prod.splits sum.splits)
qed

lemma forA_step:
  "f x a s = (Inr a', s') \<Longrightarrow> forA (x # xs) a f s = forA xs a' f s'"
  "f x a s = (Inl e, s') \<Longrightarrow> forA (x # xs) a f s = (Inl e, s')"
  by (simp_all add: bindA_def)

text \<open>A loop whose body always returns is a left fold.\<close>

lemma forA_pure:
  assumes "\<And>x a s. x \<in> set xs \<Longrightarrow> f x a s = (Inr (fst (g x (a, s))), snd (g x (a, s)))"
  shows "forA xs a f s = (case fold g xs (a, s) of (a', s') \<Rightarrow> (Inr a', s'))"
  using assms
proof (induction xs arbitrary: a s)
  case Nil
  then show ?case by simp
next
  case (Cons x xs)
  obtain a' s' where g: "g x (a, s) = (a', s')" by fastforce
  then have "forA (x # xs) a f s = forA xs a' f s'"
    using Cons.prems by (simp add: bindA_def)
  also have "\<dots> = (case fold g xs (a', s') of (a', s') \<Rightarrow> (Inr a', s'))"
    using Cons by simp
  finally show ?case using g by simp
qed

end
