(* ===== verification/PyString.thy ===== *)
theory PyString
  imports Prelude
begin

text \<open>
  The string methods of Python that the code uses, on strings of code points below 256:
  \<open>strip\<close>, \<open>lower\<close>, \<open>split\<close> with and without a separator, \<open>join\<close>, \<open>int\<close> of a string and
  \<open>str\<close> of an integer. White space and letter case follow the Unicode data of that range, so
  U+0085 and U+00A0 are white space and the accented capitals have a lower case.
\<close>

section \<open>Characters\<close>

definition code :: "char \<Rightarrow> nat" where
  "code c = of_char c"

definition is_space :: "char \<Rightarrow> bool" where
  "is_space c \<longleftrightarrow> (let n = code c in 9 \<le> n \<and> n \<le> 13 \<or> 28 \<le> n \<and> n \<le> 32 \<or> n = 133 \<or> n = 160)"

definition is_digit :: "char \<Rightarrow> bool" where
  "is_digit c \<longleftrightarrow> 48 \<le> code c \<and> code c \<le> 57"

definition lower_char :: "char \<Rightarrow> char" where
  "lower_char c = (let n = code c in
     if 65 \<le> n \<and> n \<le> 90 \<or> 192 \<le> n \<and> n \<le> 222 \<and> n \<noteq> 215 then char_of (n + 32) else c)"

lemma code_less: "code c < 256"
  by (simp add: code_def)

lemma code_char_of: "n < 256 \<Longrightarrow> code (char_of n) = n"
  by (simp add: code_def)

lemma char_of_code [simp]: "char_of (code c) = c"
  by (simp add: code_def)

lemma code_inj: "code c = code d \<longleftrightarrow> c = d"
  by (simp add: code_def)

lemma code_lower_char:
  "code (lower_char c) =
     (if 65 \<le> code c \<and> code c \<le> 90 \<or> 192 \<le> code c \<and> code c \<le> 222 \<and> code c \<noteq> 215
      then code c + 32 else code c)"
  by (auto simp: lower_char_def Let_def code_char_of)

lemma lower_char_idem [simp]: "lower_char (lower_char c) = lower_char c"
  unfolding code_inj [symmetric] by (auto simp: code_lower_char)

lemma is_space_lower_char [simp]: "is_space (lower_char c) = is_space c"
  by (auto simp: is_space_def Let_def code_lower_char)

lemma space_is_space [simp]: "is_space (CHR '' '')"
  by (simp add: is_space_def code_def)

section \<open>Strip, lower, split, join\<close>

definition strip :: "string \<Rightarrow> string" where
  "strip s = rev (dropWhile is_space (rev (dropWhile is_space s)))"

definition lower :: "string \<Rightarrow> string" where
  "lower s = map lower_char s"

function split_ws :: "string \<Rightarrow> string list" where
  "split_ws s = (case dropWhile is_space s of
       [] \<Rightarrow> []
     | c # cs \<Rightarrow> (c # takeWhile (\<lambda>d. \<not> is_space d) cs)
                  # split_ws (dropWhile (\<lambda>d. \<not> is_space d) cs))"
  by pat_completeness auto
termination
proof (relation "measure length")
  fix s c and cs :: string
  assume "dropWhile is_space s = c # cs"
  then have "length (c # cs) \<le> length s" by (metis length_dropWhile_le)
  then show "(dropWhile (\<lambda>d. \<not> is_space d) cs, s) \<in> measure length"
    using length_dropWhile_le [of "\<lambda>d. \<not> is_space d" cs] by simp
qed simp

fun split_on :: "char \<Rightarrow> string \<Rightarrow> string list" where
  "split_on sep [] = [[]]"
| "split_on sep (c # cs) =
     (if c = sep then [] # split_on sep cs
      else (case split_on sep cs of [] \<Rightarrow> [[c]] | w # ws \<Rightarrow> (c # w) # ws))"

fun join :: "string \<Rightarrow> string list \<Rightarrow> string" where
  "join sep [] = []"
| "join sep [w] = w"
| "join sep (w # ws) = w @ sep @ join sep ws"

declare split_ws.simps [simp del]

text \<open>\<open>trimmed s\<close>: no white space at either end.\<close>

definition trimmed :: "string \<Rightarrow> bool" where
  "trimmed s \<longleftrightarrow> s = [] \<or> \<not> is_space (hd s) \<and> \<not> is_space (last s)"

lemma strip_trimmed: "trimmed s \<Longrightarrow> strip s = s"
proof (cases s)
  case (Cons c cs)
  moreover assume "trimmed s"
  ultimately have "\<not> is_space c" and l: "\<not> is_space (last s)" by (auto simp: trimmed_def)
  then have "dropWhile is_space s = s" using Cons by simp
  moreover obtain ds d where "s = ds @ [d]" using Cons by (metis append_butlast_last_id list.distinct(1))
  ultimately show ?thesis using l by (simp add: strip_def)
qed (simp add: strip_def)

lemma trimmed_strip: "trimmed (strip s)"
proof -
  have last_keep: "t \<noteq> [] \<Longrightarrow> last (dropWhile P t') = last t'"
    if "dropWhile P t' = t" for P and t t' :: string
    using that by (induction t') (auto split: if_splits)
  define u where "u = dropWhile is_space (rev (dropWhile is_space s))"
  show ?thesis
  proof (cases "u = []")
    case True
    then show ?thesis by (simp add: strip_def trimmed_def u_def)
  next
    case False
    then have "\<not> is_space (hd u)" unfolding u_def by (metis hd_dropWhile)
    moreover have "dropWhile is_space s \<noteq> []" using False by (metis u_def dropWhile.simps(1) rev.simps(1))
    then have "\<not> is_space (hd (dropWhile is_space s))" by (metis hd_dropWhile)
    then have "\<not> is_space (last u)"
      using False last_keep [OF u_def [symmetric]] \<open>dropWhile is_space s \<noteq> []\<close>
      by (simp add: u_def last_rev)
    ultimately show ?thesis
      using False by (simp add: strip_def trimmed_def u_def [symmetric] hd_rev last_rev)
  qed
qed

lemma set_strip: "set (strip s) \<subseteq> set s"
  unfolding strip_def by (metis set_dropWhileD set_rev subsetI)

lemma lower_idem [simp]: "lower (lower s) = lower s"
  by (simp add: lower_def)

lemma lower_Nil [simp]: "lower s = [] \<longleftrightarrow> s = []"
  by (simp add: lower_def)

lemma lower_append [simp]: "lower (s @ t) = lower s @ lower t"
  by (simp add: lower_def)

lemma trimmed_lower: "trimmed (lower s) = trimmed s"
  by (cases s) (auto simp: trimmed_def lower_def last_map)

lemma split_on_not_Nil [simp]: "split_on sep s \<noteq> []"
  by (induction s) (auto split: list.splits)

lemma join_Cons: "ws \<noteq> [] \<Longrightarrow> join sep (w # ws) = w @ sep @ join sep ws"
  by (cases ws) auto

lemma join_split_on: "join [sep] (split_on sep s) = s"
proof (induction s)
  case (Cons c cs)
  then show ?case
    by (cases "split_on sep cs"; cases "tl (split_on sep cs)") (auto simp: join_Cons)
qed simp

lemma split_on_no_sep: "sep \<notin> set s \<Longrightarrow> split_on sep s = [s]"
  by (induction s) auto

lemma split_on_append: "sep \<notin> set s \<Longrightarrow> split_on sep (s @ sep # t) = s # split_on sep t"
  by (induction s) auto

lemma split_on_pieces: "w \<in> set (split_on sep s) \<Longrightarrow> sep \<notin> set w"
  by (induction s arbitrary: w) (auto split: if_splits list.splits)

lemma split_on_join:
  "ws \<noteq> [] \<Longrightarrow> (\<And>w. w \<in> set ws \<Longrightarrow> sep \<notin> set w) \<Longrightarrow> split_on sep (join [sep] ws) = ws"
proof (induction ws rule: induct_list012)
  case (2 w)
  then show ?case by (simp add: split_on_no_sep)
next
  case (3 v w ws)
  then show ?case by (simp add: split_on_append)
qed simp

lemma set_join: "set (join sep ws) \<subseteq> set sep \<union> \<Union> (set ` set ws)"
  by (induction ws rule: induct_list012) auto

section \<open>Words\<close>

text \<open>\<open>is_word w\<close>: what \<open>split()\<close> can return: non-empty and without white space.\<close>

definition is_word :: "string \<Rightarrow> bool" where
  "is_word w \<longleftrightarrow> w \<noteq> [] \<and> (\<forall>c \<in> set w. \<not> is_space c)"

lemma split_ws_words: "w \<in> set (split_ws s) \<Longrightarrow> is_word w"
proof (induction s arbitrary: w rule: split_ws.induct)
  case (1 s)
  show ?case
  proof (cases "dropWhile is_space s")
    case Nil
    then have "split_ws s = []" by (subst split_ws.simps) (simp only: list.case)
    then show ?thesis using "1.prems" by simp
  next
    case (Cons c cs)
    then have "\<not> is_space c" by (metis hd_dropWhile list.sel(1) list.distinct(1))
    moreover have "w = c # takeWhile (\<lambda>d. \<not> is_space d) cs \<or>
        w \<in> set (split_ws (dropWhile (\<lambda>d. \<not> is_space d) cs))"
      using "1.prems" Cons by (subst (asm) split_ws.simps) simp
    moreover have "is_word (c # takeWhile (\<lambda>d. \<not> is_space d) cs)"
      using \<open>\<not> is_space c\<close> by (auto simp: is_word_def dest: set_takeWhileD)
    ultimately show ?thesis using "1.IH" [OF Cons] by blast
  qed
qed

lemma split_ws_Nil [simp]: "split_ws [] = []"
  by (subst split_ws.simps) simp

lemma split_ws_word:
  assumes "is_word w"
  shows "split_ws w = [w]"
proof (cases w)
  case (Cons c cs)
  with assms have t: "takeWhile (\<lambda>d. \<not> is_space d) cs = cs"
      and d: "dropWhile (\<lambda>d. \<not> is_space d) cs = []" and "\<not> is_space c"
    by (auto simp: is_word_def)
  then have "split_ws (c # cs) = [c # cs]"
    by (subst split_ws.simps) (simp only: t d dropWhile.simps if_False list.case split_ws_Nil)
  then show ?thesis using Cons by simp
qed (use assms in \<open>simp add: is_word_def\<close>)

lemma split_ws_append:
  assumes "is_word w"
  shows "split_ws (w @ CHR '' '' # s) = w # split_ws s"
proof (cases w)
  case (Cons c cs)
  from assms have *: "\<forall>d \<in> set cs. \<not> is_space d" "\<not> is_space c"
    using Cons by (auto simp: is_word_def)
  then have "takeWhile (\<lambda>d. \<not> is_space d) (cs @ CHR '' '' # s) = cs"
      "dropWhile (\<lambda>d. \<not> is_space d) (cs @ CHR '' '' # s) = CHR '' '' # s"
    by (simp_all add: takeWhile_append dropWhile_append)
  moreover have "split_ws (CHR '' '' # s) = split_ws s"
    by (simp add: split_ws.simps [of "CHR '' '' # s"] split_ws.simps [of s])
  ultimately show ?thesis using Cons * by (subst split_ws.simps) simp
qed (use assms in \<open>simp add: is_word_def\<close>)

lemma split_ws_join: "(\<And>w. w \<in> set ws \<Longrightarrow> is_word w) \<Longrightarrow> split_ws (join '' '' ws) = ws"
proof (induction ws rule: induct_list012)
  case 1
  then show ?case by (simp add: split_ws.simps)
next
  case (2 w)
  then show ?case by (simp add: split_ws_word)
next
  case (3 v w ws)
  then show ?case by (simp add: split_ws_append)
qed

lemma trimmed_join:
  assumes "\<And>w. w \<in> set ws \<Longrightarrow> is_word w"
  shows "trimmed (join '' '' ws)"
proof (cases "ws = []")
  case False
  have ends: "\<not> is_space (hd w) \<and> \<not> is_space (last w) \<and> w \<noteq> []" if "is_word w" for w
    using that by (auto simp: is_word_def)
  have "join '' '' vs \<noteq> [] \<and> \<not> is_space (hd (join '' '' vs)) \<and> \<not> is_space (last (join '' '' vs))"
    if "vs \<noteq> []" "\<forall>w \<in> set vs. is_word w" for vs
    using that
  proof (induction vs rule: induct_list012)
    case (3 v w ws)
    then show ?case using ends [of v] by simp
  qed (use ends in auto)
  from this [OF False] assms show ?thesis by (simp add: trimmed_def)
qed (simp add: trimmed_def)

lemma is_word_lower [simp]: "is_word (lower w) = is_word w"
  by (auto simp: is_word_def lower_def)

section \<open>Decimal integers\<close>

definition digit_char :: "nat \<Rightarrow> char" where
  "digit_char d = char_of (48 + d)"

fun show_nat :: "nat \<Rightarrow> string" where
  "show_nat n = (if n < 10 then [digit_char n] else show_nat (n div 10) @ [digit_char (n mod 10)])"

declare show_nat.simps [simp del]

definition show_int :: "int \<Rightarrow> string" where
  "show_int i = (if i < 0 then CHR ''-'' # show_nat (nat (- i)) else show_nat (nat i))"

text \<open>
  The digits of \<open>int(s)\<close>: decimal digits, a single underscore allowed between two of them. The
  flag says whether the last character read was a digit.
\<close>

fun digits_value :: "nat \<Rightarrow> bool \<Rightarrow> string \<Rightarrow> nat option" where
  "digits_value acc prev [] = (if prev then Some acc else None)"
| "digits_value acc prev (c # cs) =
     (if is_digit c then digits_value (acc * 10 + (code c - 48)) True cs
      else if c = CHR ''_'' \<and> prev then digits_value acc False cs
      else None)"

text \<open>CPython refuses to convert more than 4300 digits.\<close>

definition unsigned_value :: "string \<Rightarrow> nat option" where
  "unsigned_value s = (if length (filter is_digit s) \<le> 4300 then digits_value 0 False s else None)"

definition py_int :: "string \<Rightarrow> int option" where
  "py_int s = (case strip s of
       [] \<Rightarrow> None
     | c # cs \<Rightarrow>
         if c = CHR ''-'' then map_option (\<lambda>n. - int n) (unsigned_value cs)
         else if c = CHR ''+'' then map_option int (unsigned_value cs)
         else map_option int (unsigned_value (c # cs)))"

lemma code_digit_char [simp]: "d < 10 \<Longrightarrow> code (digit_char d) = 48 + d"
  by (simp add: digit_char_def code_char_of)

lemma is_digit_digit_char [simp]: "d < 10 \<Longrightarrow> is_digit (digit_char d)"
  by (simp add: is_digit_def)

lemma show_nat_digits: "c \<in> set (show_nat n) \<Longrightarrow> is_digit c"
  by (induction n rule: show_nat.induct) (subst (asm) (2) show_nat.simps, auto split: if_splits)

lemma show_nat_not_Nil [simp]: "show_nat n \<noteq> []"
  by (subst show_nat.simps) simp

lemma digits_value_append:
  "(\<And>c. c \<in> set s \<Longrightarrow> is_digit c) \<Longrightarrow> s \<noteq> [] \<Longrightarrow>
   digits_value acc prev (s @ t) = digits_value (the (digits_value acc prev s)) True t"
  by (induction s arbitrary: acc prev) (auto, metis append_Nil digits_value.simps(1) option.sel)

lemma digits_value_show_nat: "digits_value 0 False (show_nat n) = Some n"
proof (induction n rule: show_nat.induct)
  case (1 n)
  show ?case
  proof (cases "n < 10")
    case True
    then show ?thesis by (subst show_nat.simps) simp
  next
    case False
    then have "digits_value 0 False (show_nat n) =
        digits_value (the (digits_value 0 False (show_nat (n div 10)))) True [digit_char (n mod 10)]"
      by (subst show_nat.simps) (simp add: digits_value_append show_nat_digits)
    also have "\<dots> = Some n" using 1 [OF False] by simp
    finally show ?thesis .
  qed
qed

lemma is_digit_not_space: "is_digit c \<Longrightarrow> \<not> is_space c"
  by (auto simp: is_digit_def is_space_def Let_def)

lemma trimmed_show_nat: "trimmed (show_nat n)"
  using is_digit_not_space show_nat_digits [of "hd (show_nat n)" n]
    show_nat_digits [of "last (show_nat n)" n] by (auto simp: trimmed_def)

lemma trimmed_show_int: "trimmed (show_int i)"
proof -
  have "\<not> is_space (CHR ''-'')" by (simp add: is_space_def code_def)
  then show ?thesis
    using trimmed_show_nat by (simp add: show_int_def trimmed_def)
qed

lemma show_nat_hd: "show_nat n = c # cs \<Longrightarrow> c \<noteq> CHR ''-'' \<and> c \<noteq> CHR ''+''"
  using show_nat_digits [of c n] by (auto simp: is_digit_def code_def)

lemma unsigned_value_show_nat: "length (show_nat n) \<le> 4300 \<Longrightarrow> unsigned_value (show_nat n) = Some n"
  by (simp add: unsigned_value_def digits_value_show_nat filter_id_conv show_nat_digits)

lemma py_int_show_int:
  assumes "length (show_nat (nat \<bar>i\<bar>)) \<le> 4300"
  shows "py_int (show_int i) = Some i"
proof (cases "i < 0")
  case True
  then have u: "unsigned_value (show_nat (nat (- i))) = Some (nat (- i))"
    using assms unsigned_value_show_nat by simp
  have "strip (show_int i) = CHR ''-'' # show_nat (nat (- i))"
    using strip_trimmed [OF trimmed_show_int, of i] True by (simp add: show_int_def)
  then show ?thesis using True u by (simp add: py_int_def)
next
  case False
  obtain c cs where s: "show_nat (nat i) = c # cs" by (cases "show_nat (nat i)") auto
  have u: "unsigned_value (c # cs) = Some (nat i)"
    using False assms unsigned_value_show_nat [of "nat i"] s by simp
  have "strip (show_int i) = c # cs"
    using strip_trimmed [OF trimmed_show_int, of i] False s by (simp add: show_int_def)
  then show ?thesis using False u show_nat_hd [OF s] by (simp add: py_int_def)
qed

lemma show_int_inj: "show_int i = show_int j \<Longrightarrow> i = j"
proof -
  have nat_inj: "m = n" if "show_nat m = show_nat n" for m n
    using that by (metis digits_value_show_nat option.inject)
  have neg: "show_nat m \<noteq> CHR ''-'' # cs" for m cs using show_nat_hd by blast
  assume eq: "show_int i = show_int j"
  show "i = j"
  proof (cases "i < 0 \<longleftrightarrow> j < 0")
    case True
    with eq have "show_nat (nat \<bar>i\<bar>) = show_nat (nat \<bar>j\<bar>)"
      by (auto simp: show_int_def split: if_splits)
    with True nat_inj [of "nat \<bar>i\<bar>" "nat \<bar>j\<bar>"] show ?thesis by linarith
  next
    case False
    with eq neg neg [symmetric] show ?thesis by (auto simp: show_int_def split: if_splits)
  qed
qed

end
