(* ===== verification/Json.thy ===== *)
theory Json
  imports PyString
begin

text \<open>
  JSON values as the code builds them, and \<open>json.dumps(value, sort_keys=True, separators=(",", ":"))\<close>
  with its ASCII escapes. The main fact is that the rendered text determines the value up to
  the order of the keys of its objects (\<open>dumps_inj\<close>).
\<close>

datatype json =
    JNull
  | JBool bool
  | JInt int
  | JStr string
  | JArr "json list"
  | JObj "(string \<times> json) list"

section \<open>Rendering\<close>

definition hex_digit :: "nat \<Rightarrow> char" where
  "hex_digit d = (if d < 10 then char_of (48 + d) else char_of (87 + d))"

definition quote_char :: char where "quote_char = char_of (34 :: nat)"
definition backslash :: char where "backslash = char_of (92 :: nat)"

definition short_escape :: "char \<Rightarrow> char option" where
  "short_escape c = (let n = code c in
     if n = 34 then Some quote_char
     else if n = 92 then Some backslash
     else if n = 10 then Some (CHR ''n'')
     else if n = 13 then Some (CHR ''r'')
     else if n = 9 then Some (CHR ''t'')
     else if n = 8 then Some (CHR ''b'')
     else if n = 12 then Some (CHR ''f'')
     else None)"

definition escape_json :: "char \<Rightarrow> string" where
  "escape_json c = (case short_escape c of
       Some d \<Rightarrow> [backslash, d]
     | None \<Rightarrow>
         if 32 \<le> code c \<and> code c \<le> 126 then [c]
         else [backslash, CHR ''u'', CHR ''0'', CHR ''0'',
               hex_digit (code c div 16), hex_digit (code c mod 16)])"

definition quote :: "string \<Rightarrow> string" where
  "quote s = quote_char # concat (map escape_json s) @ [quote_char]"

fun dumps :: "json \<Rightarrow> string" where
  "dumps JNull = ''null''"
| "dumps (JBool b) = (if b then ''true'' else ''false'')"
| "dumps (JInt i) = show_int i"
| "dumps (JStr s) = quote s"
| "dumps (JArr js) = ''['' @ join '','' (map dumps js) @ '']''"
| "dumps (JObj kvs) =
     ''{'' @ join '','' (map snd (sort_key fst
       (map (\<lambda>(k, v). (k, quote k @ '':'' @ dumps v)) kvs))) @ ''}''"

text \<open>The value whose objects list their keys in order.\<close>

fun sort_keys :: "json \<Rightarrow> json" where
  "sort_keys (JArr js) = JArr (map sort_keys js)"
| "sort_keys (JObj kvs) = JObj (sort_key fst (map (\<lambda>(k, v). (k, sort_keys v)) kvs))"
| "sort_keys j = j"

fun render_json :: "json \<Rightarrow> string" where
  "render_json JNull = ''null''"
| "render_json (JBool b) = (if b then ''true'' else ''false'')"
| "render_json (JInt i) = show_int i"
| "render_json (JStr s) = quote s"
| "render_json (JArr js) = ''['' @ join '','' (map render_json js) @ '']''"
| "render_json (JObj kvs) =
     ''{'' @ join '','' (map (\<lambda>(k, v). quote k @ '':'' @ render_json v) kvs) @ ''}''"

lemma insort_key_map: "(\<And>x. g (h x) = f x) \<Longrightarrow> insort_key g (h x) (map h xs) = map h (insort_key f x xs)"
  by (induction xs) simp_all

lemma sort_key_map: "(\<And>x. g (h x) = f x) \<Longrightarrow> sort_key g (map h xs) = map h (sort_key f xs)"
  by (induction xs) (simp_all add: insort_key_map)

lemma dumps_render: "dumps j = render_json (sort_keys j)"
proof (induction j rule: dumps.induct)
  case (6 kvs)
  let ?h = "\<lambda>(k, v). (k, sort_keys v)"
  have "map (\<lambda>(k, v). (k, quote k @ '':'' @ dumps v)) kvs =
      map (\<lambda>(k, v). (k, quote k @ '':'' @ render_json v)) (map ?h kvs)"
    using 6 by auto
  moreover have "map snd (sort_key fst (map (\<lambda>(k, v). (k, quote k @ '':'' @ render_json v)) ys)) =
      map (\<lambda>(k, v). quote k @ '':'' @ render_json v) (sort_key fst ys)" for ys
    by (subst sort_key_map [where f = fst]) auto
  ultimately show ?case by (simp only: dumps.simps sort_keys.simps render_json.simps)
next
  case (5 js)
  then show ?case by (simp cong: map_cong)
qed auto

section \<open>The text determines the value\<close>

lemma code_CHR [simp]:
  "code (CHR ''n'') = 110" "code (CHR ''r'') = 114" "code (CHR ''t'') = 116" "code (CHR ''b'') = 98"
  "code (CHR ''f'') = 102" "code (CHR ''u'') = 117" "code (CHR '','') = 44" "code (CHR '']'') = 93"
  "code (CHR ''}'') = 125" "code (CHR ''['') = 91" "code (CHR ''{'') = 123" "code (CHR ''-'') = 45"
  "code quote_char = 34" "code backslash = 92"
  by (simp_all add: code_def quote_char_def backslash_def)

lemma quote_char_neq [simp]: "quote_char \<noteq> backslash" "backslash \<noteq> quote_char"
  unfolding code_inj [symmetric] by simp_all

lemma hex_digit_inj: "d < 16 \<Longrightarrow> e < 16 \<Longrightarrow> hex_digit d = hex_digit e \<Longrightarrow> d = e"
  unfolding code_inj [symmetric] by (auto simp: hex_digit_def code_char_of split: if_splits)

lemma short_escape_inj: "short_escape c = Some d \<Longrightarrow> short_escape c' = Some d \<Longrightarrow> c = c'"
  unfolding code_inj [symmetric]
  by (auto simp: short_escape_def Let_def code_inj [symmetric] split: if_splits)

lemma short_escape_not_u: "short_escape c \<noteq> Some (CHR ''u'')"
  by (auto simp: short_escape_def Let_def code_inj [symmetric] split: if_splits)

lemma short_escape_None: "short_escape c = None \<Longrightarrow> c \<noteq> quote_char \<and> c \<noteq> backslash"
  by (auto simp: short_escape_def Let_def split: if_splits)

lemma escape_json_inj:
  assumes "escape_json c @ r = escape_json d @ r'"
  shows "c = d \<and> r = r'"
proof (cases "short_escape c"; cases "short_escape d")
  fix x y assume "short_escape c = Some x" "short_escape d = Some y"
  then show ?thesis using assms short_escape_inj by (auto simp: escape_json_def)
next
  fix x assume "short_escape c = None" "short_escape d = Some x"
  then show ?thesis
    using assms short_escape_None [of c] short_escape_not_u [of d]
    by (auto simp: escape_json_def split: if_splits)
next
  fix x assume "short_escape c = Some x" "short_escape d = None"
  then show ?thesis
    using assms short_escape_None [of d] short_escape_not_u [of c]
    by (auto simp: escape_json_def split: if_splits)
next
  assume n: "short_escape c = None" "short_escape d = None"
  have "code c = code d"
    if "hex_digit (code c div 16) = hex_digit (code d div 16)"
      "hex_digit (code c mod 16) = hex_digit (code d mod 16)"
  proof -
    have "code c div 16 < 16" "code d div 16 < 16" using code_less [of c] code_less [of d] by auto
    then have "code c div 16 = code d div 16" "code c mod 16 = code d mod 16"
      using that hex_digit_inj by auto
    then show ?thesis by (metis div_mult_mod_eq)
  qed
  then show ?thesis
    using assms n short_escape_None [OF n(1)] short_escape_None [OF n(2)]
    by (auto simp: escape_json_def code_inj split: if_splits)
qed

lemma escape_json_hd: "escape_json c \<noteq> [] \<and> hd (escape_json c) \<noteq> quote_char"
  using short_escape_None [of c] by (auto simp: escape_json_def split: option.splits)

lemma quote_inj:
  assumes "quote s @ r = quote t @ r'"
  shows "s = t \<and> r = r'"
proof -
  have aux: "s = t \<and> r = r'"
    if "concat (map escape_json s) @ quote_char # r = concat (map escape_json t) @ quote_char # r'" for s t
    using that
  proof (induction s arbitrary: t)
    case Nil
    then show ?case
    proof (cases t)
      case (Cons d ds)
      then show ?thesis using Nil escape_json_hd [of d] by (cases "escape_json d") auto
    qed simp
  next
    case (Cons c cs)
    show ?case
    proof (cases t)
      case Nil
      then show ?thesis using Cons.prems escape_json_hd [of c] by (cases "escape_json c") auto
    next
      case (Cons d ds)
      then have "escape_json c @ (concat (map escape_json cs) @ quote_char # r) =
          escape_json d @ (concat (map escape_json ds) @ quote_char # r')"
        using Cons.prems by simp
      from escape_json_inj [OF this] have "c = d" and
          "concat (map escape_json cs) @ quote_char # r = concat (map escape_json ds) @ quote_char # r'"
        by blast+
      moreover from Cons.IH [OF this(2)] have "cs = ds" "r = r'" by blast+
      ultimately show ?thesis using Cons by blast
    qed
  qed
  from assms have "concat (map escape_json s) @ quote_char # r = concat (map escape_json t) @ quote_char # r'"
    by (simp add: quote_def)
  then show ?thesis by (rule aux)
qed

text \<open>What may follow a value: nothing, a comma or a closing bracket.\<close>

definition delimited :: "string \<Rightarrow> bool" where
  "delimited r \<longleftrightarrow> (case r of [] \<Rightarrow> True | c # _ \<Rightarrow> code c = 44 \<or> code c = 93 \<or> code c = 125)"

lemma delimited_simps [simp]:
  "delimited []" "delimited (c # r) \<longleftrightarrow> code c = 44 \<or> code c = 93 \<or> code c = 125"
  by (simp_all add: delimited_def)

lemma join_inj:
  assumes "\<And>x y r r'. x \<in> set xs \<Longrightarrow> delimited r \<Longrightarrow> delimited r' \<Longrightarrow> f x @ r = f y @ r' \<Longrightarrow> x = y \<and> r = r'"
    and "\<And>x. f x \<noteq> [] \<and> hd (f x) \<noteq> close" and "code close = 93 \<or> code close = 125"
    and "join '','' (map f xs) @ close # r = join '','' (map f ys) @ close # r'"
  shows "xs = ys \<and> r = r'"
  using assms
proof (induction xs arbitrary: ys)
  case Nil
  show ?case
  proof (cases ys)
    case (Cons y zs)
    then show ?thesis
      using Nil.prems(2) [of y] Nil.prems(4) by (cases zs; cases "f y") auto
  qed (use Nil.prems in simp)
next
  case (Cons x xs)
  show ?case
  proof (cases ys)
    case Nil
    then show ?thesis
      using Cons.prems(2) [of x] Cons.prems(4) by (cases xs; cases "f x") auto
  next
    case ys: (Cons y zs)
    define tail where "tail vs q = (if vs = [] then close # q else CHR '','' # join '','' (map f vs) @ close # q)"
      for vs q
    have tail: "join '','' (map f (v # vs)) @ close # q = f v @ tail vs q" for v vs q
      by (cases vs) (auto simp: tail_def)
    have "delimited (tail vs q)" for vs q using Cons.prems(3) by (auto simp: tail_def)
    with Cons.prems(1,4) have xy: "x = y" and t: "tail xs r = tail zs r'"
      unfolding ys tail by (metis list.set_intros(1))+
    have "xs = zs \<and> r = r'"
    proof (cases "xs = [] \<or> zs = []")
      case True
      then show ?thesis using t Cons.prems(3) by (auto simp: tail_def split: if_splits)
    next
      case False
      then have "join '','' (map f xs) @ close # r = join '','' (map f zs) @ close # r'"
        using t by (simp add: tail_def)
      then show ?thesis using Cons.IH Cons.prems(1,2,3) by (meson list.set_intros(2))
    qed
    then show ?thesis using xy ys by simp
  qed
qed

lemma show_int_append_inj:
  assumes "show_int i @ r = show_int j @ r'" and "delimited r" and "delimited r'"
  shows "i = j \<and> r = r'"
proof -
  let ?P = "\<lambda>c. is_digit c \<or> c = CHR ''-''"
  have all: "\<forall>c \<in> set (show_int i). ?P c" for i
    by (auto simp: show_int_def show_nat_digits split: if_splits)
  have stop: "takeWhile ?P q = []" if "delimited q" for q
    using that by (cases q) (auto simp: is_digit_def code_inj [symmetric])
  have tw: "takeWhile ?P (show_int k @ q) = show_int k" if "delimited q" for k q
    using all [of k] stop [OF that] by (simp add: takeWhile_append)
  have "show_int i = show_int j" using tw [OF assms(2), of i] tw [OF assms(3), of j] assms(1) by simp
  then show ?thesis using show_int_inj assms(1) by simp
qed

fun leader :: "json \<Rightarrow> nat \<Rightarrow> bool" where
  "leader JNull n = (n = 110)"
| "leader (JBool b) n = (n = (if b then 116 else 102))"
| "leader (JInt i) n = (n = 45 \<or> 48 \<le> n \<and> n \<le> 57)"
| "leader (JStr s) n = (n = 34)"
| "leader (JArr js) n = (n = 91)"
| "leader (JObj kvs) n = (n = 123)"

lemma render_json_leader: "\<exists>c cs. render_json j = c # cs \<and> leader j (code c)"
proof (cases j)
  case (JInt i)
  obtain c cs where "show_nat (nat \<bar>i\<bar>) = c # cs" by (cases "show_nat (nat \<bar>i\<bar>)") auto
  moreover from this have "is_digit c" using show_nat_digits by (metis list.set_intros(1))
  ultimately show ?thesis using JInt by (auto simp: show_int_def is_digit_def)
qed (auto simp: quote_def)

lemma render_json_hd:
  "code close = 93 \<or> code close = 125 \<Longrightarrow> render_json j \<noteq> [] \<and> hd (render_json j) \<noteq> close"
  using render_json_leader [of j] by (cases j) (auto split: if_splits)

lemma render_json_inj:
  assumes "render_json j @ r = render_json k @ r'" and "delimited r" and "delimited r'"
  shows "j = k \<and> r = r'"
  using assms
proof (induction j arbitrary: k r r')
  case (JArr js)
  from JArr.prems(1) render_json_leader [of k] obtain ks where k: "k = JArr ks"
    by (cases k) (auto split: if_splits)
  have "js = ks \<and> r = r'"
  proof (rule join_inj [where f = render_json and close = "CHR '']''"])
    show "join '','' (map render_json js) @ CHR '']'' # r = join '','' (map render_json ks) @ CHR '']'' # r'"
      using JArr.prems(1) k by simp
  next
    show "render_json x \<noteq> [] \<and> hd (render_json x) \<noteq> CHR '']''" for x by (rule render_json_hd) simp
  qed (use JArr.IH in auto)
  then show ?case using k by simp
next
  case (JObj kvs)
  from JObj.prems(1) render_json_leader [of k] obtain lvs where k: "k = JObj lvs"
    by (cases k) (auto split: if_splits)
  let ?f = "\<lambda>(k, v). quote k @ '':'' @ render_json v"
  have "kvs = lvs \<and> r = r'"
  proof (rule join_inj [where f = ?f and close = "CHR ''}''"])
    show "join '','' (map ?f kvs) @ CHR ''}'' # r = join '','' (map ?f lvs) @ CHR ''}'' # r'"
      using JObj.prems(1) k by simp
  next
    fix x y q q' assume x: "x \<in> set kvs" "delimited q" "delimited q'" and eq: "?f x @ q = ?f y @ q'"
    obtain a b c d where xy: "x = (a, b)" "y = (c, d)" by (metis surj_pair)
    from eq xy quote_inj [of a "'':'' @ render_json b @ q" c "'':'' @ render_json d @ q'"]
    have "a = c" and "render_json b @ q = render_json d @ q'" by auto
    then show "x = y \<and> q = q'" using JObj.IH [of x b] x xy by (auto simp: snds.simps)
  qed (auto simp: quote_def code_inj [symmetric])
  then show ?case using k by simp
next
  case (JInt i)
  obtain c cs where c: "render_json (JInt i) = c # cs" "code c = 45 \<or> 48 \<le> code c \<and> code c \<le> 57"
    using render_json_leader [of "JInt i"] by auto
  obtain d ds where d: "render_json k = d # ds" "leader k (code d)" using render_json_leader by blast
  from JInt.prems(1) c(1) d(1) have "d = c" by simp
  with c(2) d(2) obtain l where k: "k = JInt l" by (cases k) (auto split: if_splits)
  from JInt.prems show ?case unfolding k by (auto dest: show_int_append_inj)
next
  case (JStr s)
  from JStr.prems(1) render_json_leader [of k] obtain t where k: "k = JStr t"
    by (cases k) (auto simp: quote_def split: if_splits)
  with JStr.prems(1) have "quote s @ r = quote t @ r'" by simp
  from quote_inj [OF this] show ?case by (simp add: k)
next
  case (JBool b)
  from JBool.prems(1) render_json_leader [of k] show ?case
    by (cases k) (auto split: if_splits)
next
  case JNull
  from JNull.prems(1) render_json_leader [of k] show ?case
    by (cases k) (auto split: if_splits)
qed

lemma dumps_inj: "dumps j = dumps k \<Longrightarrow> sort_keys j = sort_keys k"
  using render_json_inj [of "sort_keys j" "[]" "sort_keys k" "[]"] by (simp add: dumps_render)

end
