(* ===== verification/Models.thy ===== *)
theory Models
  imports Json
begin

text \<open>
  The data of the domain: the enumerations of \<open>domain/enums.py\<close> with the strings they are
  stored and compared as, and the frozen dataclasses of \<open>domain/models.py\<close>. \<open>DatasetRef\<close> and
  \<open>ColumnRef\<close> are declared with \<open>order=True\<close>: they compare field by field, which is the linear
  order instantiated here, so that the sorting functions of the library apply to them.
\<close>

section \<open>Enumerations\<close>

datatype scan_status = RUNNING | COMPLETED | FAILED

datatype scan_trigger = MANUAL | SCHEDULED

datatype change_type = ADD_COLUMN | DROP_COLUMN | TYPE_CHANGE | NULLABILITY_CHANGE

datatype severity = INFO | WARNING | BREAKING

datatype change_state = OPEN | ACCEPTED | RESOLVED

datatype criticality = LOW | MEDIUM | HIGH | CRITICAL

datatype alert_channel = SLACK | EMAIL

datatype alert_status = PENDING | SENT | FAILED

fun change_type_value :: "change_type \<Rightarrow> string" where
  "change_type_value ADD_COLUMN = ''ADD_COLUMN''"
| "change_type_value DROP_COLUMN = ''DROP_COLUMN''"
| "change_type_value TYPE_CHANGE = ''TYPE_CHANGE''"
| "change_type_value NULLABILITY_CHANGE = ''NULLABILITY_CHANGE''"

fun severity_value :: "severity \<Rightarrow> string" where
  "severity_value INFO = ''INFO''"
| "severity_value WARNING = ''WARNING''"
| "severity_value BREAKING = ''BREAKING''"

fun criticality_value :: "criticality \<Rightarrow> string" where
  "criticality_value LOW = ''LOW''"
| "criticality_value MEDIUM = ''MEDIUM''"
| "criticality_value HIGH = ''HIGH''"
| "criticality_value CRITICAL = ''CRITICAL''"

fun channel_value :: "alert_channel \<Rightarrow> string" where
  "channel_value SLACK = ''SLACK''"
| "channel_value EMAIL = ''EMAIL''"

lemma change_type_value_inj [simp]: "change_type_value a = change_type_value b \<longleftrightarrow> a = b"
  by (cases a; cases b) simp_all

lemma severity_value_inj [simp]: "severity_value a = severity_value b \<longleftrightarrow> a = b"
  by (cases a; cases b) simp_all

lemma criticality_value_inj [simp]: "criticality_value a = criticality_value b \<longleftrightarrow> a = b"
  by (cases a; cases b) simp_all

section \<open>References to datasets and columns\<close>

datatype dataset_ref = DatasetRef (ref_schema: string) (ref_table: string)

datatype column_ref = ColumnRef (ref_dataset: dataset_ref) (ref_name: string)

definition dataset_qualified_name :: "dataset_ref \<Rightarrow> string" where
  "dataset_qualified_name d = ref_schema d @ ''.'' @ ref_table d"

definition column_qualified_name :: "column_ref \<Rightarrow> string" where
  "column_qualified_name c = dataset_qualified_name (ref_dataset c) @ ''.'' @ ref_name c"

instantiation dataset_ref :: linorder
begin

definition less_eq_dataset_ref :: "dataset_ref \<Rightarrow> dataset_ref \<Rightarrow> bool" where
  "less_eq_dataset_ref a b \<longleftrightarrow> (ref_schema a, ref_table a) \<le> (ref_schema b, ref_table b)"

definition less_dataset_ref :: "dataset_ref \<Rightarrow> dataset_ref \<Rightarrow> bool" where
  "less_dataset_ref a b \<longleftrightarrow> (ref_schema a, ref_table a) < (ref_schema b, ref_table b)"

instance
  by standard
    (auto simp: less_eq_dataset_ref_def less_dataset_ref_def less_eq_prod_def less_prod_def
      intro: dataset_ref.expand)

end

instantiation column_ref :: linorder
begin

definition less_eq_column_ref :: "column_ref \<Rightarrow> column_ref \<Rightarrow> bool" where
  "less_eq_column_ref a b \<longleftrightarrow> (ref_dataset a, ref_name a) \<le> (ref_dataset b, ref_name b)"

definition less_column_ref :: "column_ref \<Rightarrow> column_ref \<Rightarrow> bool" where
  "less_column_ref a b \<longleftrightarrow> (ref_dataset a, ref_name a) < (ref_dataset b, ref_name b)"

instance
  by standard
    (auto simp: less_eq_column_ref_def less_column_ref_def less_eq_prod_def less_prod_def
      intro: column_ref.expand)

end

section \<open>Types, columns and changes\<close>

record canonical_type =
  type_name :: string
  type_length :: "int option"
  type_precision :: "int option"
  type_scale :: "int option"

record column_definition =
  col_dataset :: dataset_ref
  col_name :: string
  col_type :: canonical_type
  col_nullable :: bool
  col_default :: "string option"
  col_ordinal :: int

record schema_change =
  change_dataset :: dataset_ref
  change_column :: string
  change_kind :: change_type
  change_severity :: severity
  change_before :: "column_definition option"
  change_after :: "column_definition option"

definition col_ref :: "column_definition \<Rightarrow> column_ref" where
  "col_ref c = ColumnRef (col_dataset c) (col_name c)"

definition change_ref :: "schema_change \<Rightarrow> column_ref" where
  "change_ref c = ColumnRef (change_dataset c) (change_column c)"

definition render_type :: "canonical_type \<Rightarrow> string" where
  "render_type t =
     (case type_length t of
        Some n \<Rightarrow> type_name t @ ''('' @ show_int n @ '')''
      | None \<Rightarrow>
          (case (type_precision t, type_scale t) of
             (Some p, Some s) \<Rightarrow> type_name t @ ''('' @ show_int p @ '','' @ show_int s @ '')''
           | (Some p, None) \<Rightarrow> type_name t @ ''('' @ show_int p @ '')''
           | (None, _) \<Rightarrow> type_name t))"

section \<open>Canonical dictionaries\<close>

definition json_int_opt :: "int option \<Rightarrow> json" where
  "json_int_opt v = (case v of None \<Rightarrow> JNull | Some i \<Rightarrow> JInt i)"

definition json_str_opt :: "string option \<Rightarrow> json" where
  "json_str_opt v = (case v of None \<Rightarrow> JNull | Some s \<Rightarrow> JStr s)"

definition type_canonical_dict :: "canonical_type \<Rightarrow> json" where
  "type_canonical_dict t = JObj
     [(''name'', JStr (type_name t)),
      (''length'', json_int_opt (type_length t)),
      (''precision'', json_int_opt (type_precision t)),
      (''scale'', json_int_opt (type_scale t))]"

definition column_canonical_dict :: "column_definition \<Rightarrow> json" where
  "column_canonical_dict c = JObj
     [(''dataset'', JStr (dataset_qualified_name (col_dataset c))),
      (''name'', JStr (col_name c)),
      (''data_type'', type_canonical_dict (col_type c)),
      (''nullable'', JBool (col_nullable c)),
      (''default'', json_str_opt (col_default c)),
      (''ordinal'', JInt (col_ordinal c))]"

definition json_column_opt :: "column_definition option \<Rightarrow> json" where
  "json_column_opt v = (case v of None \<Rightarrow> JNull | Some c \<Rightarrow> column_canonical_dict c)"

definition change_canonical_dict :: "schema_change \<Rightarrow> json" where
  "change_canonical_dict c = JObj
     [(''dataset'', JStr (dataset_qualified_name (change_dataset c))),
      (''column_name'', JStr (change_column c)),
      (''change_type'', JStr (change_type_value (change_kind c))),
      (''severity'', JStr (severity_value (change_severity c))),
      (''before'', json_column_opt (change_before c)),
      (''after'', json_column_opt (change_after c))]"

text \<open>
  \<open>CanonicalType(**d)\<close>: the keyword arguments are the keys of the dictionary. An unknown or a
  missing keyword is a \<open>TypeError\<close>. The dataclass does not check the values; the model gives the
  same error for a value that is not of the field's declared type.
\<close>

definition json_to_int_opt :: "json option \<Rightarrow> py_error + int option" where
  "json_to_int_opt j = (case j of
       None \<Rightarrow> Inr None
     | Some JNull \<Rightarrow> Inr None
     | Some (JInt i) \<Rightarrow> Inr (Some i)
     | Some _ \<Rightarrow> Inl (TypeError ''CanonicalType''))"

definition canonical_type_of_json :: "json \<Rightarrow> py_error + canonical_type" where
  "canonical_type_of_json j = (case j of
       JObj kvs \<Rightarrow>
         if list_all (\<lambda>(k, _). k \<in> {''name'', ''length'', ''precision'', ''scale''}) kvs then
           (case map_of kvs ''name'' of
              Some (JStr n) \<Rightarrow>
                bindR (json_to_int_opt (map_of kvs ''length'')) (\<lambda>l.
                bindR (json_to_int_opt (map_of kvs ''precision'')) (\<lambda>p.
                bindR (json_to_int_opt (map_of kvs ''scale'')) (\<lambda>s.
                  Inr \<lparr>type_name = n, type_length = l, type_precision = p, type_scale = s\<rparr>)))
            | _ \<Rightarrow> Inl (TypeError ''CanonicalType''))
         else Inl (TypeError ''CanonicalType'')
     | _ \<Rightarrow> Inl (TypeError ''CanonicalType''))"

lemma json_to_int_opt_json_int_opt [simp]: "json_to_int_opt (Some (json_int_opt v)) = Inr v"
  by (simp add: json_to_int_opt_def json_int_opt_def split: option.splits)

lemma canonical_type_of_canonical_dict [simp]:
  "canonical_type_of_json (type_canonical_dict t) = Inr t"
  by (cases t) (simp add: canonical_type_of_json_def type_canonical_dict_def)

lemma json_int_opt_inj [simp]: "json_int_opt a = json_int_opt b \<longleftrightarrow> a = b"
  by (auto simp: json_int_opt_def split: option.splits)

lemma json_str_opt_inj [simp]: "json_str_opt a = json_str_opt b \<longleftrightarrow> a = b"
  by (auto simp: json_str_opt_def split: option.splits)

section \<open>Qualified names\<close>

text \<open>
  A qualified name determines its reference when no component contains a dot. Quoted PostgreSQL
  identifiers may contain one, and then it does not.
\<close>

definition dot_free :: "string \<Rightarrow> bool" where
  "dot_free s \<longleftrightarrow> CHR ''.'' \<notin> set s"

definition dataset_dot_free :: "dataset_ref \<Rightarrow> bool" where
  "dataset_dot_free d \<longleftrightarrow> dot_free (ref_schema d) \<and> dot_free (ref_table d)"

lemma dataset_qualified_name_split:
  "dataset_dot_free d \<Longrightarrow> split_on CHR ''.'' (dataset_qualified_name d) = [ref_schema d, ref_table d]"
  by (simp add: dataset_qualified_name_def dataset_dot_free_def dot_free_def split_on_append
      split_on_no_sep)

lemma dataset_qualified_name_inj:
  assumes "dataset_dot_free d" and "dataset_dot_free e"
    and "dataset_qualified_name d = dataset_qualified_name e"
  shows "d = e"
  using dataset_qualified_name_split [OF assms(1)] dataset_qualified_name_split [OF assms(2)] assms(3)
  by (auto intro: dataset_ref.expand)

lemma dataset_qualified_name_ambiguous:
  "dataset_qualified_name (DatasetRef ''a.b'' ''c'') = dataset_qualified_name (DatasetRef ''a'' ''b.c'')"
  by (simp add: dataset_qualified_name_def)

end
