(* ===== verification/Store.thy ===== *)
theory Store
  imports Models
begin

text \<open>
  The tables of \<open>infrastructure/db/models/*.py\<close> as records of rows, with the constraints those
  classes declare, and the session of \<open>infrastructure/db/session.py\<close>. The session keeps the tables
  as the current transaction sees them (\<open>work\<close>), the committed tables (\<open>durable\<close>), and whether a
  failed flush has made the transaction unusable (\<open>poisoned\<close>). Pending changes reach the database
  with the next query, flush or commit (autoflush); that is where a declared constraint can fail.
  Primary keys come from a supply of unused numbers, as \<open>uuid4\<close> is taken to give.
\<close>

section \<open>Rows\<close>

record source_row =
  src_id :: uuid
  src_key :: string
  src_display_name :: string
  src_connection_ref :: string
  src_enabled :: bool
  src_version :: int

record dataset_row =
  ds_id :: uuid
  ds_source :: uuid
  ds_schema :: string
  ds_table :: string
  ds_owner :: "string option"
  ds_description :: "string option"

record expected_row =
  ex_id :: uuid
  ex_dataset :: uuid
  ex_name :: string
  ex_type :: json
  ex_nullable :: bool
  ex_default :: "string option"
  ex_ordinal :: int

record scan_row =
  sc_id :: uuid
  sc_source :: uuid
  sc_trigger :: scan_trigger
  sc_status :: scan_status
  sc_started :: time
  sc_finished :: "time option"
  sc_duration :: "int option"
  sc_error_code :: "string option"
  sc_error_message :: "string option"

record observed_row =
  ob_id :: uuid
  ob_scan :: uuid
  ob_schema :: string
  ob_table :: string
  ob_name :: string
  ob_type :: json
  ob_nullable :: bool
  ob_default :: "string option"
  ob_ordinal :: int

record change_row =
  ch_id :: uuid
  ch_scan :: uuid
  ch_source :: uuid
  ch_dataset :: uuid
  ch_column :: string
  ch_kind :: change_type
  ch_severity :: severity
  ch_state :: change_state
  ch_fingerprint :: string
  ch_before :: "json option"
  ch_after :: "json option"
  ch_version :: int
  ch_accepted :: "time option"
  ch_resolved :: "time option"
  ch_created :: time

record delivery_row =
  dl_id :: uuid
  dl_scan :: uuid
  dl_channel :: alert_channel
  dl_status :: alert_status
  dl_attempts :: int
  dl_provider_id :: "string option"
  dl_error :: "string option"
  dl_retry :: "time option"
  dl_sent :: "time option"
  dl_created :: time

record pipeline_row =
  pl_id :: uuid
  pl_key :: string
  pl_dag :: string
  pl_owner :: string
  pl_criticality :: criticality

record edge_row =
  le_id :: uuid
  le_pipeline :: uuid
  le_up_dataset :: uuid
  le_up_column :: string
  le_down_dataset :: uuid
  le_down_column :: string

record tables =
  t_sources :: "source_row list"
  t_datasets :: "dataset_row list"
  t_expected :: "expected_row list"
  t_scans :: "scan_row list"
  t_observed :: "observed_row list"
  t_changes :: "change_row list"
  t_deliveries :: "delivery_row list"
  t_pipelines :: "pipeline_row list"
  t_edges :: "edge_row list"

text \<open>\<open>str(uuid)\<close>: the number in 32 hexadecimal digits, in groups of 8, 4, 4, 4 and 12.\<close>

fun hex_digits :: "nat \<Rightarrow> nat \<Rightarrow> string" where
  "hex_digits 0 n = []"
| "hex_digits (Suc w) n = hex_digits w (n div 16) @ [hex_digit (n mod 16)]"

definition show_uuid :: "uuid \<Rightarrow> string" where
  "show_uuid i = (let h = hex_digits 32 i in
     join ''-'' [take 8 h, take 4 (drop 8 h), take 4 (drop 12 h), take 4 (drop 16 h), drop 20 h])"

section \<open>Constraints\<close>

definition unique_on :: "('r \<Rightarrow> 'k) \<Rightarrow> 'r list \<Rightarrow> bool" where
  "unique_on f rows \<longleftrightarrow> distinct (map f rows)"

definition refer_to :: "('r \<Rightarrow> uuid) \<Rightarrow> 'r list \<Rightarrow> uuid list \<Rightarrow> bool" where
  "refer_to f rows ids \<longleftrightarrow> list_all (\<lambda>r. f r \<in> set ids) rows"

definition at_most :: "nat \<Rightarrow> string \<Rightarrow> bool" where
  "at_most n s \<longleftrightarrow> length s \<le> n"

definition int32 :: "int \<Rightarrow> bool" where
  "int32 i \<longleftrightarrow> - (2 ^ 31) \<le> i \<and> i < 2 ^ 31"

definition catalog_constraints :: "tables \<Rightarrow> bool" where
  "catalog_constraints t \<longleftrightarrow>
     unique_on src_id (t_sources t) \<and> unique_on src_key (t_sources t) \<and>
     unique_on ds_id (t_datasets t) \<and>
     unique_on (\<lambda>d. (ds_source d, ds_schema d, ds_table d)) (t_datasets t) \<and>
     refer_to ds_source (t_datasets t) (map src_id (t_sources t)) \<and>
     unique_on ex_id (t_expected t) \<and> unique_on (\<lambda>e. (ex_dataset e, ex_name e)) (t_expected t) \<and>
     refer_to ex_dataset (t_expected t) (map ds_id (t_datasets t))"

definition scan_constraints :: "tables \<Rightarrow> bool" where
  "scan_constraints t \<longleftrightarrow>
     unique_on sc_id (t_scans t) \<and> refer_to sc_source (t_scans t) (map src_id (t_sources t)) \<and>
     unique_on ob_id (t_observed t) \<and> refer_to ob_scan (t_observed t) (map sc_id (t_scans t))"

definition change_constraints :: "tables \<Rightarrow> bool" where
  "change_constraints t \<longleftrightarrow>
     unique_on ch_id (t_changes t) \<and>
     unique_on (\<lambda>c. (ch_source c, ch_fingerprint c)) (filter (\<lambda>c. ch_state c = OPEN) (t_changes t)) \<and>
     refer_to ch_scan (t_changes t) (map sc_id (t_scans t)) \<and>
     refer_to ch_source (t_changes t) (map src_id (t_sources t)) \<and>
     refer_to ch_dataset (t_changes t) (map ds_id (t_datasets t))"

definition delivery_constraints :: "tables \<Rightarrow> bool" where
  "delivery_constraints t \<longleftrightarrow>
     unique_on dl_id (t_deliveries t) \<and> unique_on (\<lambda>d. (dl_scan d, dl_channel d)) (t_deliveries t) \<and>
     refer_to dl_scan (t_deliveries t) (map sc_id (t_scans t))"

definition lineage_constraints :: "tables \<Rightarrow> bool" where
  "lineage_constraints t \<longleftrightarrow>
     unique_on pl_id (t_pipelines t) \<and> unique_on pl_key (t_pipelines t) \<and>
     unique_on pl_dag (t_pipelines t) \<and>
     unique_on le_id (t_edges t) \<and>
     unique_on (\<lambda>e. (le_pipeline e, le_up_dataset e, le_up_column e, le_down_dataset e, le_down_column e))
       (t_edges t) \<and>
     refer_to le_pipeline (t_edges t) (map pl_id (t_pipelines t)) \<and>
     refer_to le_up_dataset (t_edges t) (map ds_id (t_datasets t)) \<and>
     refer_to le_down_dataset (t_edges t) (map ds_id (t_datasets t))"

definition integrity_ok :: "tables \<Rightarrow> bool" where
  "integrity_ok t \<longleftrightarrow> catalog_constraints t \<and> scan_constraints t \<and> change_constraints t \<and>
     delivery_constraints t \<and> lineage_constraints t"

text \<open>The declared lengths of \<open>String(n)\<close> columns and the range of \<open>Integer\<close>.\<close>

definition data_ok :: "tables \<Rightarrow> bool" where
  "data_ok t \<longleftrightarrow>
     list_all (\<lambda>r. at_most 100 (src_key r) \<and> at_most 200 (src_display_name r) \<and>
       at_most 200 (src_connection_ref r) \<and> int32 (src_version r)) (t_sources t) \<and>
     list_all (\<lambda>r. at_most 63 (ds_schema r) \<and> at_most 63 (ds_table r) \<and>
       pred_option (at_most 200) (ds_owner r) \<and> pred_option (at_most 1000) (ds_description r)) (t_datasets t) \<and>
     list_all (\<lambda>r. at_most 63 (ex_name r) \<and> pred_option (at_most 1000) (ex_default r) \<and>
       int32 (ex_ordinal r)) (t_expected t) \<and>
     list_all (\<lambda>r. pred_option int32 (sc_duration r) \<and> pred_option (at_most 100) (sc_error_code r)) (t_scans t) \<and>
     list_all (\<lambda>r. at_most 63 (ob_schema r) \<and> at_most 63 (ob_table r) \<and> at_most 63 (ob_name r) \<and>
       pred_option (at_most 1000) (ob_default r) \<and> int32 (ob_ordinal r)) (t_observed t) \<and>
     list_all (\<lambda>r. at_most 63 (ch_column r) \<and> at_most 64 (ch_fingerprint r) \<and> int32 (ch_version r)) (t_changes t) \<and>
     list_all (\<lambda>r. int32 (dl_attempts r) \<and> pred_option (at_most 250) (dl_provider_id r)) (t_deliveries t) \<and>
     list_all (\<lambda>r. at_most 100 (pl_key r) \<and> at_most 250 (pl_dag r) \<and> at_most 200 (pl_owner r)) (t_pipelines t) \<and>
     list_all (\<lambda>r. at_most 63 (le_up_column r) \<and> at_most 63 (le_down_column r)) (t_edges t)"

section \<open>The session\<close>

record session =
  work :: tables
  durable :: tables
  poisoned :: bool
  id_supply :: uuid

type_synonym 'a db = "(session, 'a) action"

definition flush :: "unit db" where
  "flush s =
     (if poisoned s then (Inl PendingRollbackError, s)
      else if \<not> data_ok (work s) then (Inl DataError, s\<lparr>work := durable s, poisoned := True\<rparr>)
      else if \<not> integrity_ok (work s) then (Inl IntegrityError, s\<lparr>work := durable s, poisoned := True\<rparr>)
      else (Inr (), s))"

definition query :: "(tables \<Rightarrow> 'a) \<Rightarrow> 'a db" where
  "query f = thenA flush (\<lambda>s. (Inr (f (work s)), s))"

definition modify :: "(tables \<Rightarrow> tables) \<Rightarrow> unit db" where
  "modify f s = (Inr (), s\<lparr>work := f (work s)\<rparr>)"

definition new_id :: "uuid db" where
  "new_id s = (Inr (id_supply s), s\<lparr>id_supply := Suc (id_supply s)\<rparr>)"

definition rollback :: "session \<Rightarrow> session" where
  "rollback s = s\<lparr>work := durable s, poisoned := False\<rparr>"

definition commit :: "unit db" where
  "commit = thenA flush (\<lambda>s. (Inr (), s\<lparr>durable := work s\<rparr>))"

definition session_scope :: "'a db \<Rightarrow> 'a db" where
  "session_scope body s =
     (case bindA body (\<lambda>x. thenA commit (returnA x)) s of
        (Inr x, s') \<Rightarrow> (Inr x, s')
      | (Inl e, s') \<Rightarrow> (Inl e, rollback s'))"

definition no_tables :: tables where
  "no_tables = \<lparr>t_sources = [], t_datasets = [], t_expected = [], t_scans = [], t_observed = [],
     t_changes = [], t_deliveries = [], t_pipelines = [], t_edges = []\<rparr>"

definition fresh_session :: "tables \<Rightarrow> uuid \<Rightarrow> session" where
  "fresh_session t n = \<lparr>work = t, durable = t, poisoned = False, id_supply = n\<rparr>"

section \<open>Facts about sessions\<close>

lemma flush_eq_Inr [action_simps]:
  "flush s = (Inr u, s') \<longleftrightarrow> s' = s \<and> \<not> poisoned s \<and> data_ok (work s) \<and> integrity_ok (work s)"
  by (auto simp: flush_def)

lemma query_eq_Inr [action_simps]:
  "query f s = (Inr x, s') \<longleftrightarrow>
     s' = s \<and> x = f (work s) \<and> \<not> poisoned s \<and> data_ok (work s) \<and> integrity_ok (work s)"
  by (auto simp: query_def thenA_eq_Inr flush_eq_Inr)

lemma modify_eq [action_simps]:
  "modify f s = (r, s') \<longleftrightarrow> r = Inr () \<and> s' = s\<lparr>work := f (work s)\<rparr>"
  by (auto simp: modify_def)

lemma new_id_eq [action_simps]:
  "new_id s = (r, s') \<longleftrightarrow> r = Inr (id_supply s) \<and> s' = s\<lparr>id_supply := Suc (id_supply s)\<rparr>"
  by (auto simp: new_id_def)

text \<open>A session whose tables satisfy the declarations can run its next query.\<close>

definition usable :: "session \<Rightarrow> bool" where
  "usable s \<longleftrightarrow> \<not> poisoned s \<and> data_ok (work s) \<and> integrity_ok (work s)"

lemma usable_run:
  "usable s \<Longrightarrow> flush s = (Inr (), s)"
  "usable s \<Longrightarrow> query f s = (Inr (f (work s)), s)"
  by (simp_all add: usable_def flush_eq_Inr query_eq_Inr)

lemma query_error: "query f s = (Inl e, s') \<longleftrightarrow> flush s = (Inl e, s')"
  by (auto simp: query_def thenA_eq_Inl)

lemma flush_error:
  "flush s = (Inl e, s') \<Longrightarrow> \<not> usable s \<and> poisoned s' \<and> durable s' = durable s"
  by (auto simp: flush_def usable_def split: if_splits)

lemma unique_onD: "unique_on f rows \<Longrightarrow> r \<in> set rows \<Longrightarrow> r' \<in> set rows \<Longrightarrow> f r = f r' \<Longrightarrow> r = r'"
  by (auto simp: unique_on_def distinct_map dest: inj_onD)

text \<open>Whatever a body does to the working tables, the committed tables only change by a commit of
  tables that satisfy every declared constraint.\<close>

definition keeps_durable :: "'a db \<Rightarrow> bool" where
  "keeps_durable m \<longleftrightarrow> (\<forall>s. durable (snd (m s)) = durable s)"

lemma keeps_durable_intros [intro]:
  "keeps_durable (returnA x)" "keeps_durable (raiseA e)" "keeps_durable (liftA r)"
  "keeps_durable flush" "keeps_durable (query f)" "keeps_durable (modify g)" "keeps_durable new_id"
  by (auto simp: keeps_durable_def flush_def query_def modify_def new_id_def thenA_def bindA_def)

lemma keeps_durable_bindA [intro]:
  "keeps_durable m \<Longrightarrow> (\<And>x. keeps_durable (f x)) \<Longrightarrow> keeps_durable (bindA m f)"
  by (auto simp: keeps_durable_def bindA_def split: prod.splits sum.splits) (metis snd_conv)+

lemma keeps_durable_thenA [intro]:
  "keeps_durable m \<Longrightarrow> keeps_durable k \<Longrightarrow> keeps_durable (thenA m k)"
  by (simp add: thenA_def keeps_durable_bindA)

lemma keeps_durable_exceptA [intro]:
  "keeps_durable m \<Longrightarrow> (\<And>e. keeps_durable (h e)) \<Longrightarrow> keeps_durable (exceptA m h)"
  by (auto simp: keeps_durable_def exceptA_def split: prod.splits sum.splits) (metis snd_conv)+

lemma keeps_durable_forA [intro]:
  "(\<And>x a. keeps_durable (f x a)) \<Longrightarrow> keeps_durable (forA xs a f)"
  by (induction xs arbitrary: a) (auto intro!: keeps_durable_bindA)

lemma commit_eq_Inr [action_simps]:
  "commit s = (Inr u, s') \<longleftrightarrow> s' = s\<lparr>durable := work s\<rparr> \<and> usable s"
  by (auto simp: commit_def thenA_eq_Inr flush_eq_Inr usable_def)

lemma usable_commit: "usable s \<Longrightarrow> commit s = (Inr (), s\<lparr>durable := work s\<rparr>)"
  by (simp add: commit_eq_Inr)

lemma session_scope_Inr:
  "session_scope m s = (Inr x, s') \<longleftrightarrow> (\<exists>t. m s = (Inr x, t) \<and> usable t \<and> s' = t\<lparr>durable := work t\<rparr>)"
proof (cases "m s")
  case (Pair r t)
  show ?thesis
  proof (cases r)
    case (Inr y)
    have "bindA m (\<lambda>x. thenA commit (returnA x)) s = thenA commit (returnA y) t"
      using Pair Inr by (simp add: bindA_def)
    then show ?thesis
      using Pair Inr usable_commit [of t] commit_eq_Inr [of t]
      by (cases "commit t"; cases "fst (commit t)") (auto simp: session_scope_def thenA_def bindA_def)
  qed (simp add: session_scope_def bindA_def Pair)
qed

lemma session_scope_Inl:
  assumes "keeps_durable m" and "session_scope m s = (Inl e, s')"
  shows "durable s' = durable s \<and> work s' = durable s \<and> \<not> poisoned s'"
proof -
  obtain t where t: "bindA m (\<lambda>x. thenA commit (returnA x)) s = (Inl e, t)" "s' = rollback t"
    using assms(2) by (auto simp: session_scope_def split: prod.splits sum.splits)
  have "durable t = durable s"
  proof (cases "m s")
    case (Pair r u)
    then have d: "durable u = durable s" using assms(1) by (metis keeps_durable_def snd_conv)
    show ?thesis
    proof (cases r)
      case (Inl f)
      then show ?thesis using t Pair d by (simp add: bindA_def)
    next
      case (Inr x)
      then have "thenA commit (returnA x) u = (Inl e, t)" using t Pair by (simp add: bindA_def)
      then have "flush u = (Inl e, t)" by (auto simp: action_simps commit_def)
      then show ?thesis using flush_error d by metis
    qed
  qed
  then show ?thesis using t(2) by (simp add: rollback_def)
qed

text \<open>
  A part of the tables that a block leaves alone, as long as the transaction survives.
\<close>

definition keeps :: "(tables \<Rightarrow> 'x) \<Rightarrow> 'a db \<Rightarrow> bool" where
  "keeps g m \<longleftrightarrow> (\<forall>s. (poisoned s \<longrightarrow> poisoned (snd (m s))) \<and>
     (\<not> poisoned (snd (m s)) \<longrightarrow> g (work (snd (m s))) = g (work s)))"

lemma keepsD: "keeps g m \<Longrightarrow> m s = (r, s') \<Longrightarrow> \<not> poisoned s' \<Longrightarrow> g (work s') = g (work s) \<and> \<not> poisoned s"
  unfolding keeps_def by (metis snd_conv)

lemma keeps_basic [intro]:
  "keeps g (returnA x)" "keeps g (raiseA e)" "keeps g (liftA r)" "keeps g flush" "keeps g (query f)"
  "keeps g new_id"
  by (auto simp: keeps_def flush_def query_def new_id_def thenA_def bindA_def)

lemma keeps_modify [intro]: "(\<And>t. g (f t) = g t) \<Longrightarrow> keeps g (modify f)"
  by (simp add: keeps_def modify_def)

lemma keeps_bindA [intro]:
  assumes "keeps g m" and "\<And>x. keeps g (f x)"
  shows "keeps g (bindA m f)"
  unfolding keeps_def
proof
  fix s
  obtain r s1 where m: "m s = (r, s1)" by fastforce
  show "(poisoned s \<longrightarrow> poisoned (snd (bindA m f s))) \<and>
     (\<not> poisoned (snd (bindA m f s)) \<longrightarrow> g (work (snd (bindA m f s))) = g (work s))"
  proof (cases r)
    case (Inl e)
    then show ?thesis using assms(1) m by (simp add: bindA_def keeps_def) (metis snd_conv)
  next
    case (Inr x)
    then have "bindA m f s = f x s1" using m by (simp add: bindA_def)
    then show ?thesis using assms(1) assms(2) [of x] m unfolding keeps_def by (metis snd_conv)
  qed
qed

lemma keeps_thenA [intro]: "keeps g m \<Longrightarrow> keeps g k \<Longrightarrow> keeps g (thenA m k)"
  by (simp add: thenA_def keeps_bindA)

lemma keeps_forA [intro]: "(\<And>x a. keeps g (f x a)) \<Longrightarrow> keeps g (forA xs a f)"
  by (induction xs arbitrary: a) (auto intro!: keeps_bindA)

lemma flush_Inl_poisoned: "flush s = (Inl e, s') \<Longrightarrow> poisoned s'"
  using flush_error by blast

lemma query_alive: "query f s = (r, s') \<Longrightarrow> \<not> poisoned s' \<Longrightarrow> s' = s"
  by (cases r) (auto simp: query_eq_Inr query_error dest: flush_Inl_poisoned)

end
