(* ===== verification/TypeRules.thy ===== *)
theory TypeRules
  imports Models Complex_Main
begin

text \<open>
  \<open>domain/type_rules.py\<close>: the normal form of a PostgreSQL type name, the parser of type
  specifications, the type that a row of \<open>information_schema.columns\<close> denotes, and the
  compatibility policy for a change of type. The lemmas show that the parser inverts the
  rendering of every type it can return, and that the policy is sound for the values a column of
  the type can hold: a change that is not \<open>BREAKING\<close> loses no value.
\<close>

section \<open>Names\<close>

definition type_aliases :: "(string \<times> string) list" where
  "type_aliases =
     [(''bool'', ''boolean''),
      (''decimal'', ''numeric''),
      (''float8'', ''double precision''),
      (''int2'', ''smallint''),
      (''int4'', ''integer''),
      (''int8'', ''bigint''),
      (''timestamp'', ''timestamp without time zone''),
      (''timestamptz'', ''timestamp with time zone''),
      (''varchar'', ''character varying'')]"

definition integer_rank :: "string \<Rightarrow> int option" where
  "integer_rank = map_of [(''smallint'', 0), (''integer'', 1), (''bigint'', 2)]"

definition normalize_name :: "string \<Rightarrow> string" where
  "normalize_name name =
     (let normalized = join '' '' (split_ws (lower (strip name)))
      in case map_of type_aliases normalized of Some n \<Rightarrow> n | None \<Rightarrow> normalized)"

definition char_or_bit_type :: "string \<Rightarrow> bool" where
  "char_or_bit_type n \<longleftrightarrow> n \<in> {''character'', ''character varying'', ''bit'', ''bit varying''}"

section \<open>Parsing a type specification\<close>

text \<open>
  \<open>^([^()]+?)(?:\(([^()]*)\))?$\<close> under \<open>fullmatch\<close>. The first group stops at the first
  parenthesis, so there is at most one way to match and the laziness of the group does not
  matter (\<open>match_type_pattern_iff\<close>).
\<close>

definition is_paren :: "char \<Rightarrow> bool" where
  "is_paren c \<longleftrightarrow> c = CHR ''('' \<or> c = CHR '')''"

definition match_type_pattern :: "string \<Rightarrow> (string \<times> string option) option" where
  "match_type_pattern s =
     (let name = takeWhile (\<lambda>c. \<not> is_paren c) s; rest = dropWhile (\<lambda>c. \<not> is_paren c) s
      in if name = [] then None
         else case rest of
           [] \<Rightarrow> Some (name, None)
         | c # cs \<Rightarrow>
             if c = CHR ''('' \<and> dropWhile (\<lambda>d. \<not> is_paren d) cs = '')''
             then Some (name, Some (takeWhile (\<lambda>d. \<not> is_paren d) cs))
             else None)"

definition parse_int :: "string \<Rightarrow> py_error + int" where
  "parse_int s = (case py_int s of
       Some i \<Rightarrow> Inr i
     | None \<Rightarrow> Inl (ValueError ''invalid literal for int() with base 10''))"

definition parse_postgres_type :: "string \<Rightarrow> py_error + canonical_type" where
  "parse_postgres_type type_spec =
     (case match_type_pattern (lower (strip type_spec)) of
        None \<Rightarrow> Inl (ValueError (''invalid PostgreSQL type: '' @ type_spec))
      | Some (raw_name, arguments) \<Rightarrow>
          let name = normalize_name raw_name in
          (case arguments of
             None \<Rightarrow> Inr \<lparr>type_name = name, type_length = None, type_precision = None, type_scale = None\<rparr>
           | Some args \<Rightarrow>
               bindR (mapR (\<lambda>value. parse_int (strip value)) (split_on CHR '','' args)) (\<lambda>values.
                 if char_or_bit_type name \<and> length values = 1 then
                   Inr \<lparr>type_name = name, type_length = Some (values ! 0),
                        type_precision = None, type_scale = None\<rparr>
                 else if name = ''numeric'' \<and> length values = 2 then
                   Inr \<lparr>type_name = name, type_length = None,
                        type_precision = Some (values ! 0), type_scale = Some (values ! 1)\<rparr>
                 else if name = ''numeric'' \<and> length values = 1 then
                   Inr \<lparr>type_name = name, type_length = None,
                        type_precision = Some (values ! 0), type_scale = None\<rparr>
                 else Inl (ValueError (''unsupported PostgreSQL type modifiers: '' @ type_spec)))))"

definition canonicalize_postgres_type ::
  "string \<Rightarrow> string \<Rightarrow> int option \<Rightarrow> int option \<Rightarrow> int option \<Rightarrow> canonical_type" where
  "canonicalize_postgres_type data_type udt_name character_maximum_length numeric_precision
       numeric_scale =
     (let name = normalize_name (if data_type \<noteq> ''USER-DEFINED'' then data_type else udt_name) in
      if char_or_bit_type name then
        \<lparr>type_name = name, type_length = character_maximum_length,
         type_precision = None, type_scale = None\<rparr>
      else if name = ''numeric'' then
        \<lparr>type_name = name, type_length = None,
         type_precision = numeric_precision, type_scale = numeric_scale\<rparr>
      else \<lparr>type_name = name, type_length = None, type_precision = None, type_scale = None\<rparr>)"

section \<open>The compatibility policy\<close>

record type_change_assessment =
  assessed_severity :: severity
  assessed_reason :: string

definition assess :: "severity \<Rightarrow> string \<Rightarrow> type_change_assessment" where
  "assess s r = \<lparr>assessed_severity = s, assessed_reason = r\<rparr>"

definition classify_type_change ::
  "canonical_type \<Rightarrow> canonical_type \<Rightarrow> type_change_assessment" where
  "classify_type_change before after =
    (if before = after then assess INFO ''unchanged''
     else case (integer_rank (type_name before), integer_rank (type_name after)) of
       (Some rb, Some ra) \<Rightarrow>
         if ra > rb then assess WARNING ''integer widened''
         else assess BREAKING ''integer narrowed''
     | _ \<Rightarrow>
       if type_name before = type_name after \<and> type_name after = ''character varying'' then
         (case type_length after of
            None \<Rightarrow> assess WARNING ''character capacity widened''
          | Some la \<Rightarrow>
              (case type_length before of
                 Some lb \<Rightarrow>
                   if la \<ge> lb then assess WARNING ''character capacity widened''
                   else assess BREAKING ''character capacity narrowed''
               | None \<Rightarrow> assess BREAKING ''character capacity narrowed''))
       else if type_name before = ''character varying'' \<and> type_name after = ''text'' then
         assess WARNING ''character capacity widened''
       else if type_name before = ''text'' \<and> type_name after = ''character varying'' then
         assess BREAKING ''character capacity constrained''
       else if type_name before = type_name after \<and> type_name after = ''numeric'' then
         (case type_precision after of
            None \<Rightarrow> assess WARNING ''numeric constraint removed''
          | Some pa \<Rightarrow>
              (case type_precision before of
                 None \<Rightarrow> assess BREAKING ''numeric constraint added''
               | Some pb \<Rightarrow>
                   if type_scale before = type_scale after \<and> pa \<ge> pb
                   then assess WARNING ''numeric precision widened''
                   else assess BREAKING ''numeric precision or scale narrowed''))
       else assess BREAKING ''incompatible type families'')"

lemma assess_simps [simp]:
  "assessed_severity (assess s r) = s" "assessed_reason (assess s r) = r"
  by (simp_all add: assess_def)


section \<open>The pattern\<close>

lemma no_paren_take_drop:
  "\<forall>c \<in> set n. \<not> is_paren c \<Longrightarrow> is_paren d \<Longrightarrow>
     takeWhile (\<lambda>c. \<not> is_paren c) (n @ d # r) = n \<and> dropWhile (\<lambda>c. \<not> is_paren c) (n @ d # r) = d # r"
  by (induction n) auto

lemma is_paren_simps [simp]: "is_paren CHR ''(''" "is_paren CHR '')''"
  by (simp_all add: is_paren_def)

lemma takeWhile_no_paren: "\<forall>c \<in> set n. \<not> is_paren c \<Longrightarrow> takeWhile (\<lambda>c. \<not> is_paren c) n = n"
  by (simp add: takeWhile_eq_all_conv)

lemma dropWhile_no_paren: "\<forall>c \<in> set n. \<not> is_paren c \<Longrightarrow> dropWhile (\<lambda>c. \<not> is_paren c) n = []"
  by simp

text \<open>The matcher is the regular expression: it succeeds exactly on a non-empty name without
  parentheses, alone or followed by one parenthesised argument list without parentheses, and the
  two groups are those parts.\<close>

lemma match_type_pattern_iff:
  "match_type_pattern s = Some (n, a) \<longleftrightarrow>
     n \<noteq> [] \<and> (\<forall>c \<in> set n. \<not> is_paren c) \<and>
     (case a of
        None \<Rightarrow> s = n
      | Some m \<Rightarrow> (\<forall>c \<in> set m. \<not> is_paren c) \<and> s = n @ CHR ''('' # m @ '')'')"
  (is "?L \<longleftrightarrow> ?R")
proof
  assume L: ?L
  define rest where "rest = dropWhile (\<lambda>c. \<not> is_paren c) s"
  have s: "s = takeWhile (\<lambda>c. \<not> is_paren c) s @ rest" by (simp add: rest_def)
  have np: "\<forall>c \<in> set (takeWhile (\<lambda>c. \<not> is_paren c) t). \<not> is_paren c" for t
    by (auto dest: set_takeWhileD)
  show ?R
  proof (cases rest)
    case Nil
    then show ?thesis using L s np [of s]
      by (auto simp: match_type_pattern_def Let_def rest_def [symmetric] split: if_splits)
  next
    case (Cons c cs)
    with L have n: "n = takeWhile (\<lambda>c. \<not> is_paren c) s" "n \<noteq> []" and c: "c = CHR ''(''"
      and drop: "dropWhile (\<lambda>d. \<not> is_paren d) cs = '')''"
      and a: "a = Some (takeWhile (\<lambda>d. \<not> is_paren d) cs)"
      by (simp_all add: match_type_pattern_def Let_def rest_def [symmetric] split: if_splits)
    have "cs = takeWhile (\<lambda>d. \<not> is_paren d) cs @ '')''"
      using takeWhile_dropWhile_id [of "\<lambda>d. \<not> is_paren d" cs] unfolding drop by simp
    moreover have "s = n @ CHR ''('' # cs" using s n Cons c by simp
    ultimately have "s = n @ CHR ''('' # takeWhile (\<lambda>d. \<not> is_paren d) cs @ '')''" by metis
    moreover have "\<forall>c \<in> set n. \<not> is_paren c" by (subst n(1)) (rule np)
    ultimately show ?thesis using n(2) np [of cs] unfolding a by simp
  qed
next
  assume R: ?R
  show ?L
  proof (cases a)
    case None
    then have s1: "takeWhile (\<lambda>c. \<not> is_paren c) s = n" "dropWhile (\<lambda>c. \<not> is_paren c) s = []"
      using R takeWhile_no_paren [of n] by simp_all
    show ?thesis unfolding match_type_pattern_def Let_def s1 using R None by simp
  next
    case (Some m)
    with R have s: "s = n @ CHR ''('' # m @ '')''" and n: "\<forall>c \<in> set n. \<not> is_paren c"
      and m: "\<forall>c \<in> set m. \<not> is_paren c" and "n \<noteq> []" by auto
    have s1: "takeWhile (\<lambda>c. \<not> is_paren c) s = n" "dropWhile (\<lambda>c. \<not> is_paren c) s = CHR ''('' # m @ '')''"
      using no_paren_take_drop [OF n, of "CHR ''(''" "m @ '')''"] unfolding s by auto
    have m1: "takeWhile (\<lambda>c. \<not> is_paren c) (m @ '')'') = m" "dropWhile (\<lambda>c. \<not> is_paren c) (m @ '')'') = '')''"
      using no_paren_take_drop [OF m, of "CHR '')''" "[]"] by auto
    show ?thesis
      unfolding match_type_pattern_def Let_def s1 using m1 \<open>n \<noteq> []\<close> Some by simp
  qed
qed

section \<open>Normal names\<close>

lemma lower_join: "lower (join '' '' ws) = join '' '' (map lower ws)"
proof (induction ws rule: induct_list012)
  case (3 v w ws)
  have "lower_char (CHR '' '') = CHR '' ''" by (simp add: lower_char_def code_def)
  with 3 show ?case by (simp add: lower_def)
qed (simp_all add: lower_def)

lemma split_ws_subset: "w \<in> set (split_ws s) \<Longrightarrow> set w \<subseteq> set s"
proof (induction s arbitrary: w rule: split_ws.induct)
  case (1 s)
  show ?case
  proof (cases "dropWhile is_space s")
    case Nil
    then have "split_ws s = []" by (subst split_ws.simps) (simp only: list.case)
    then show ?thesis using "1.prems" by simp
  next
    case (Cons c cs)
    have "set (c # cs) \<subseteq> set s" using Cons by (metis set_dropWhileD subsetI)
    moreover have "split_ws s = (c # takeWhile (\<lambda>d. \<not> is_space d) cs)
        # split_ws (dropWhile (\<lambda>d. \<not> is_space d) cs)"
      by (subst split_ws.simps) (simp only: Cons list.case)
    moreover have "set (takeWhile P cs) \<subseteq> set cs" "set (dropWhile P cs) \<subseteq> set cs" for P
      by (auto dest: set_takeWhileD set_dropWhileD)
    ultimately show ?thesis
      using "1.IH" [OF Cons, of w] "1.prems" by fastforce
  qed
qed

lemma lower_word_of_lower:
  assumes "lower s = s" and "w \<in> set (split_ws s)"
  shows "lower w = w"
proof -
  have "\<forall>c \<in> set s. lower_char c = c"
    using assms(1) by (auto simp: lower_def map_idI in_set_conv_nth intro: nth_equalityI)
      (metis nth_map)
  then show ?thesis
    using split_ws_subset [OF assms(2)] by (auto simp: lower_def map_idI subset_iff)
qed

text \<open>What a normalised name looks like: lower-case words joined by single blanks.\<close>

definition plain_name :: "string \<Rightarrow> bool" where
  "plain_name n \<longleftrightarrow> (\<exists>ws. n = join '' '' ws \<and> (\<forall>w \<in> set ws. is_word w \<and> lower w = w))"

lemma plain_name_normal:
  assumes "plain_name n"
  shows "lower n = n" and "trimmed n" and "join '' '' (split_ws (lower (strip n))) = n"
proof -
  obtain ws where ws: "n = join '' '' ws" "\<forall>w \<in> set ws. is_word w \<and> lower w = w"
    using assms by (auto simp: plain_name_def)
  then show l: "lower n = n" by (simp add: lower_join map_idI)
  show t: "trimmed n" using ws trimmed_join by blast
  show "join '' '' (split_ws (lower (strip n))) = n"
    using ws l t split_ws_join [of ws] by (simp add: strip_trimmed)
qed

lemma plain_name_join: "list_all (\<lambda>w. is_word w \<and> lower w = w) ws \<Longrightarrow> plain_name (join '' '' ws)"
  by (auto simp: plain_name_def list_all_iff)

lemma lower_literals [simp]:
  "lower [] = []" "lower (c # cs) = lower_char c # lower cs"
  by (simp_all add: lower_def)

lemmas plain_word_simps = is_word_def is_space_def lower_char_def code_def

lemma plain_name_boolean: "plain_name ''boolean''"
  using plain_name_join [of "[''boolean'']"] by (simp add: plain_word_simps)

lemma plain_name_numeric: "plain_name ''numeric''"
  using plain_name_join [of "[''numeric'']"] by (simp add: plain_word_simps)

lemma plain_name_double_precision: "plain_name ''double precision''"
  using plain_name_join [of "[''double'', ''precision'']"] by (simp add: plain_word_simps)

lemma plain_name_smallint: "plain_name ''smallint''"
  using plain_name_join [of "[''smallint'']"] by (simp add: plain_word_simps)

lemma plain_name_integer: "plain_name ''integer''"
  using plain_name_join [of "[''integer'']"] by (simp add: plain_word_simps)

lemma plain_name_bigint: "plain_name ''bigint''"
  using plain_name_join [of "[''bigint'']"] by (simp add: plain_word_simps)

lemma plain_name_timestamp_without_time_zone: "plain_name ''timestamp without time zone''"
  using plain_name_join [of "[''timestamp'', ''without'', ''time'', ''zone'']"] by (simp add: plain_word_simps)

lemma plain_name_timestamp_with_time_zone: "plain_name ''timestamp with time zone''"
  using plain_name_join [of "[''timestamp'', ''with'', ''time'', ''zone'']"] by (simp add: plain_word_simps)

lemma plain_name_character_varying: "plain_name ''character varying''"
  using plain_name_join [of "[''character'', ''varying'']"] by (simp add: plain_word_simps)

lemmas plain_name_alias_values =
  plain_name_boolean plain_name_numeric plain_name_double_precision
  plain_name_smallint plain_name_integer plain_name_bigint
  plain_name_timestamp_without_time_zone plain_name_timestamp_with_time_zone plain_name_character_varying

lemma alias_value_cases:
  assumes "map_of type_aliases k = Some n"
  obtains "n = ''boolean''" | "n = ''numeric''" | "n = ''double precision''" | "n = ''smallint''"
    | "n = ''integer''" | "n = ''bigint''" | "n = ''timestamp without time zone''"
    | "n = ''timestamp with time zone''" | "n = ''character varying''"
proof -
  have "(k, n) \<in> set type_aliases" using assms by (rule map_of_SomeD)
  then show thesis unfolding type_aliases_def list.set insert_iff prod.inject empty_iff using that by metis
qed

lemma alias_values:
  assumes "map_of type_aliases k = Some n"
  shows "plain_name n" and "map_of type_aliases n = None" and "n \<noteq> []"
    and "\<forall>c \<in> set n. \<not> is_paren c"
  using assms
  by (cases rule: alias_value_cases; simp add: plain_name_alias_values type_aliases_def is_paren_def)+

lemma normalize_name_plain: "plain_name (normalize_name s)"
proof -
  have "plain_name (join '' '' (split_ws (lower (strip s))))"
    unfolding plain_name_def
    using split_ws_words lower_word_of_lower [OF lower_idem] by blast
  then show ?thesis
    by (auto simp: normalize_name_def Let_def dest: alias_values split: option.splits)
qed

lemma normalize_name_not_alias: "map_of type_aliases (normalize_name s) = None"
  by (auto simp: normalize_name_def Let_def dest: alias_values split: option.splits)

text \<open>Normalising a type name twice changes nothing more: aliases never chain, and the
  blanks and the letter case are already canonical.\<close>

lemma normalize_name_idem: "normalize_name (normalize_name s) = normalize_name s"
  using plain_name_normal(3) [OF normalize_name_plain] normalize_name_not_alias
  unfolding normalize_name_def [of "normalize_name s"] by (simp add: Let_def)

section \<open>Rendering and parsing are inverse\<close>

text \<open>\<open>short_int i\<close>: \<open>int\<close> accepts the digits of \<open>i\<close>.\<close>

definition short_int :: "int \<Rightarrow> bool" where
  "short_int i \<longleftrightarrow> length (show_nat (nat \<bar>i\<bar>)) \<le> 4300"

text \<open>The types that the code works with: a normal name, and arguments only where they belong.\<close>

definition wf_type :: "canonical_type \<Rightarrow> bool" where
  "wf_type t \<longleftrightarrow>
     type_name t \<noteq> [] \<and> list_all (\<lambda>c. \<not> is_paren c) (type_name t) \<and>
     normalize_name (type_name t) = type_name t \<and>
     (if char_or_bit_type (type_name t) then
        type_precision t = None \<and> type_scale t = None \<and> pred_option short_int (type_length t)
      else if type_name t = ''numeric'' then
        type_length t = None \<and> (type_precision t = None \<longrightarrow> type_scale t = None) \<and>
        pred_option short_int (type_precision t) \<and> pred_option short_int (type_scale t)
      else type_length t = None \<and> type_precision t = None \<and> type_scale t = None)"

lemma wf_type_name:
  assumes "wf_type t"
  shows "lower (type_name t) = type_name t" and "trimmed (type_name t)" and "type_name t \<noteq> []"
    and "\<forall>c \<in> set (type_name t). \<not> is_paren c" and "normalize_name (type_name t) = type_name t"
  using assms plain_name_normal(1,2) [OF normalize_name_plain [of "type_name t"]]
  by (auto simp: wf_type_def list_all_iff)

lemma lower_digit: "is_digit c \<Longrightarrow> lower_char c = c"
  by (auto simp: is_digit_def lower_char_def Let_def)

lemma lower_show_int: "lower (show_int i) = show_int i"
proof -
  have "lower (show_nat n) = show_nat n" for n
    using lower_digit show_nat_digits by (auto simp: lower_def map_idI)
  moreover have "lower_char CHR ''-'' = CHR ''-''" by (simp add: lower_char_def code_def)
  ultimately show ?thesis by (simp add: show_int_def)
qed

lemma show_int_chars: "c \<in> set (show_int i) \<Longrightarrow> is_digit c \<or> c = CHR ''-''"
  by (auto simp: show_int_def show_nat_digits split: if_splits)

lemma show_int_plain: "c \<in> set (show_int i) \<Longrightarrow> \<not> is_paren c \<and> c \<noteq> CHR '',''"
  using show_int_chars [of c i] by (auto simp: is_paren_def is_digit_def code_def)

lemma parse_int_show_int: "short_int i \<Longrightarrow> parse_int (strip (show_int i)) = Inr i"
  by (simp add: parse_int_def short_int_def strip_trimmed trimmed_show_int py_int_show_int)

lemma lower_punctuation [simp]:
  "lower_char CHR ''('' = CHR ''(''" "lower_char CHR '')'' = CHR '')''" "lower_char CHR '','' = CHR '',''"
  by (simp_all add: lower_char_def code_def)

text \<open>The parser on a rendered name with an argument list.\<close>

lemma match_rendered:
  assumes "wf_type t" and "\<forall>c \<in> set m. \<not> is_paren c" and "lower m = m"
  shows "match_type_pattern (lower (strip (type_name t @ ''('' @ m @ '')''))) = Some (type_name t, Some m)"
proof -
  let ?s = "type_name t @ ''('' @ m @ '')''"
  have "\<not> is_space CHR '')''" by (simp add: is_space_def code_def)
  then have "trimmed ?s" using wf_type_name(2,3) [OF assms(1)] by (simp add: trimmed_def)
  then have "lower (strip ?s) = ?s"
    using wf_type_name(1) [OF assms(1)] assms(3) by (simp add: strip_trimmed)
  moreover have "match_type_pattern ?s = Some (type_name t, Some m)"
    unfolding match_type_pattern_iff using wf_type_name(3,4) [OF assms(1)] assms(2) by simp
  ultimately show ?thesis by metis
qed

lemma match_bare:
  assumes "wf_type t"
  shows "match_type_pattern (lower (strip (type_name t))) = Some (type_name t, None)"
  using wf_type_name [OF assms] by (simp add: strip_trimmed match_type_pattern_iff)

text \<open>Parsing the rendering of a well-formed type gives the type back, so the form shown in
  alerts and on the dashboard names the type unambiguously.\<close>

lemma parse_render_type:
  assumes "wf_type t"
  shows "parse_postgres_type (render_type t) = Inr t"
proof -
  note name = wf_type_name(5) [OF assms]
  have one: "parse_postgres_type (type_name t @ ''('' @ show_int i @ '')'') =
      (if char_or_bit_type (type_name t) then
         Inr \<lparr>type_name = type_name t, type_length = Some i, type_precision = None, type_scale = None\<rparr>
       else if type_name t = ''numeric'' then
         Inr \<lparr>type_name = type_name t, type_length = None, type_precision = Some i, type_scale = None\<rparr>
       else Inl (ValueError (''unsupported PostgreSQL type modifiers: '' @ type_name t @ ''('' @ show_int i @ '')'')))"
    if "short_int i" for i
  proof -
    have "split_on CHR '','' (show_int i) = [show_int i]"
      using show_int_plain by (blast intro: split_on_no_sep)
    then show ?thesis
      unfolding parse_postgres_type_def
      using match_rendered [OF assms _ lower_show_int, of i] show_int_plain [of _ i] name that
      by (simp add: parse_int_show_int)
  qed
  have two: "parse_postgres_type (type_name t @ ''('' @ show_int p @ '','' @ show_int s @ '')'') =
      Inr \<lparr>type_name = type_name t, type_length = None, type_precision = Some p, type_scale = Some s\<rparr>"
    if "short_int p" "short_int s" "type_name t = ''numeric''" for p s
  proof -
    let ?m = "show_int p @ '','' @ show_int s"
    have "split_on CHR '','' ?m = [show_int p, show_int s]"
      using split_on_append [of "CHR '',''" "show_int p" "show_int s"] show_int_plain
        split_on_no_sep [of "CHR '',''" "show_int s"] by fastforce
    moreover have "match_type_pattern (lower (strip (type_name t @ ''('' @ ?m @ '')''))) = Some (type_name t, Some ?m)"
      using show_int_plain
      by (intro match_rendered [OF assms]) (auto simp: lower_show_int, auto simp: is_paren_def)
    ultimately show ?thesis
      unfolding parse_postgres_type_def using name that
      by (simp add: parse_int_show_int char_or_bit_type_def)
  qed
  have bare: "parse_postgres_type (type_name t) =
      Inr \<lparr>type_name = type_name t, type_length = None, type_precision = None, type_scale = None\<rparr>"
    unfolding parse_postgres_type_def using match_bare [OF assms] name by simp
  show ?thesis
    using assms one two bare
    by (cases t) (auto simp: wf_type_def render_type_def char_or_bit_type_def split: option.splits if_splits)
qed

text \<open>Conversely the parser returns well-formed types only.\<close>

lemma show_nat_length: "n < 10 ^ k \<Longrightarrow> 0 < k \<Longrightarrow> length (show_nat n) \<le> k"
proof (induction n arbitrary: k rule: show_nat.induct)
  case (1 n)
  show ?case
  proof (cases "n < 10")
    case True
    then show ?thesis using "1.prems" by (subst show_nat.simps) simp
  next
    case False
    then obtain j where k: "k = Suc j" and "0 < j"
      using "1.prems" by (cases k; cases "k - 1") auto
    moreover have "n div 10 < 10 ^ j" using "1.prems"(1) k by (simp add: less_mult_imp_div_less mult.commute)
    ultimately show ?thesis using "1.IH" [OF False, of j] False by (subst show_nat.simps) simp
  qed
qed

lemma digits_value_less:
  "digits_value acc prev s = Some n \<Longrightarrow> n < (acc + 1) * 10 ^ length (filter is_digit s)"
proof (induction acc prev s rule: digits_value.induct)
  case (2 acc prev c cs)
  show ?case
  proof (cases "is_digit c")
    case True
    then have "n < (acc * 10 + (code c - 48) + 1) * 10 ^ length (filter is_digit cs)"
      using 2 by simp
    also have "\<dots> \<le> ((acc + 1) * 10) * 10 ^ length (filter is_digit cs)"
      using True by (intro mult_right_mono) (auto simp: is_digit_def)
    finally show ?thesis using True by (simp add: algebra_simps)
  next
    case False
    then show ?thesis using 2 by (auto split: if_splits)
  qed
qed (auto split: if_splits)

lemma unsigned_value_short: "unsigned_value s = Some n \<Longrightarrow> length (show_nat n) \<le> 4300"
proof -
  assume u: "unsigned_value s = Some n"
  define k where "k = length (filter is_digit s)"
  have "n < 10 ^ k" "k \<le> 4300"
    using u digits_value_less [of 0 False s n] by (auto simp: unsigned_value_def k_def split: if_splits)
  then have "n < 10 ^ Suc k" "k \<le> 4300" by auto
  show ?thesis
  proof (cases "k = 0")
    case True
    with \<open>n < 10 ^ k\<close> have "n = 0" by simp
    then show ?thesis using show_nat_length [of 0 1] by simp
  next
    case False
    then show ?thesis using show_nat_length [OF \<open>n < 10 ^ k\<close>] \<open>k \<le> 4300\<close> by simp
  qed
qed

lemma parse_int_short: "parse_int s = Inr i \<Longrightarrow> short_int i"
  by (auto simp: parse_int_def py_int_def short_int_def dest!: unsigned_value_short
      split: option.splits list.splits if_splits)

lemma is_paren_lower_char [simp]: "is_paren (lower_char c) = is_paren c"
  unfolding is_paren_def code_inj [symmetric] code_lower_char by (simp add: code_def)

lemma normalize_name_no_paren:
  assumes "\<forall>c \<in> set s. \<not> is_paren c"
  shows "\<forall>c \<in> set (normalize_name s). \<not> is_paren c"
proof -
  have "set w \<subseteq> set (lower (strip s))" if "w \<in> set (split_ws (lower (strip s)))" for w
    using split_ws_subset that by blast
  moreover have "\<forall>c \<in> set (lower (strip s)). \<not> is_paren c"
    using assms set_strip [of s] by (auto simp: lower_def)
  moreover have "\<not> is_paren CHR '' ''" by (simp add: is_paren_def)
  ultimately have "\<forall>c \<in> set (join '' '' (split_ws (lower (strip s)))). \<not> is_paren c"
    using set_join [of "'' ''" "split_ws (lower (strip s))"] by fastforce
  then show ?thesis
    by (auto simp: normalize_name_def Let_def dest: alias_values(4) split: option.splits)
qed

lemma normalize_name_not_Nil:
  assumes "s \<noteq> []" and "\<not> is_space (hd s)"
  shows "normalize_name s \<noteq> []"
proof -
  have d: "dropWhile is_space s = s" using assms by (cases s) auto
  then have st: "strip s = rev (dropWhile is_space (rev s))" by (simp add: strip_def)
  have "\<exists>c \<in> set s. \<not> is_space c" using assms by (cases s) auto
  then have "dropWhile is_space (rev s) \<noteq> []" by (simp add: dropWhile_eq_Nil_conv)
  then have "strip s \<noteq> []" by (simp only: st rev_is_Nil_conv not_False_eq_True)
  with trimmed_strip [of s] have "\<exists>c \<in> set (lower (strip s)). \<not> is_space c"
    by (cases "strip s") (auto simp: trimmed_def lower_def)
  then have "dropWhile is_space (lower (strip s)) \<noteq> []" by (simp add: dropWhile_eq_Nil_conv)
  then obtain c cs where c: "dropWhile is_space (lower (strip s)) = c # cs" by (cases "dropWhile is_space (lower (strip s))") auto
  have "split_ws (lower (strip s)) \<noteq> []"
    by (subst split_ws.simps) (simp only: c list.case list.distinct not_False_eq_True)
  then have "join '' '' (split_ws (lower (strip s))) \<noteq> []"
    using split_ws_words [of "hd (split_ws (lower (strip s)))" "lower (strip s)"]
    by (cases "split_ws (lower (strip s))"; cases "tl (split_ws (lower (strip s)))") (auto simp: is_word_def)
  then show ?thesis
    by (auto simp: normalize_name_def Let_def dest: alias_values(3) split: option.splits)
qed

text \<open>Whatever text the parser accepts, the type it returns is well formed: its name is in
  normal form, a length occurs only on character and bit types, a precision and scale only on
  \<open>numeric\<close>.\<close>

lemma parse_postgres_type_wf:
  assumes "parse_postgres_type s = Inr t"
  shows "wf_type t"
proof -
  obtain raw args where m: "match_type_pattern (lower (strip s)) = Some (raw, args)"
    using assms by (auto simp: parse_postgres_type_def split: option.splits)
  then have raw: "raw \<noteq> []" "\<forall>c \<in> set raw. \<not> is_paren c" and "\<exists>r. lower (strip s) = raw @ r"
    by (auto simp: match_type_pattern_iff split: option.splits)
  then have "\<not> is_space (hd raw)"
    using trimmed_strip [of s] unfolding trimmed_lower [of "strip s", symmetric]
    by (auto simp: trimmed_def)
  then have name: "normalize_name raw \<noteq> []" "\<forall>c \<in> set (normalize_name raw). \<not> is_paren c"
    using normalize_name_not_Nil normalize_name_no_paren raw by blast+
  show ?thesis
  proof (cases args)
    case None
    then have "t = \<lparr>type_name = normalize_name raw, type_length = None, type_precision = None, type_scale = None\<rparr>"
      using assms m by (simp add: parse_postgres_type_def)
    then show ?thesis using name by (simp add: wf_type_def list_all_iff normalize_name_idem)
  next
    case (Some a)
    then obtain vs where vs: "mapR (\<lambda>value. parse_int (strip value)) (split_on CHR '','' a) = Inr vs"
      and t: "(if char_or_bit_type (normalize_name raw) \<and> length vs = 1 then
                 Inr \<lparr>type_name = normalize_name raw, type_length = Some (vs ! 0), type_precision = None, type_scale = None\<rparr>
               else if normalize_name raw = ''numeric'' \<and> length vs = 2 then
                 Inr \<lparr>type_name = normalize_name raw, type_length = None, type_precision = Some (vs ! 0), type_scale = Some (vs ! 1)\<rparr>
               else if normalize_name raw = ''numeric'' \<and> length vs = 1 then
                 Inr \<lparr>type_name = normalize_name raw, type_length = None, type_precision = Some (vs ! 0), type_scale = None\<rparr>
               else Inl (ValueError (''unsupported PostgreSQL type modifiers: '' @ s))) = Inr t"
      using assms m by (auto simp: parse_postgres_type_def Let_def bindR_eq_Inr)
    have "short_int (vs ! i)" if "i < length vs" for i
      using vs that parse_int_short by (auto simp: mapR_eq_Inr)
    moreover have "\<not> char_or_bit_type ''numeric''" by (simp add: char_or_bit_type_def)
    ultimately show ?thesis
      using t name normalize_name_idem [of raw]
      by (simp add: wf_type_def list_all_iff split: if_splits) auto
  qed
qed

section \<open>The values of a type\<close>

text \<open>
  An abstract reading of what a PostgreSQL column can hold, against which the policy is judged:
  integers by their width, strings by their length, decimals by precision and scale (a missing
  scale is 0), and for every other type just the type itself.
\<close>

datatype column_value =
    IntegerValue int
  | TextValue nat
  | NumericValue rat
  | OtherValue canonical_type nat

definition integer_bound :: "int \<Rightarrow> int" where
  "integer_bound rank = (if rank = 0 then 2 ^ 15 else if rank = 1 then 2 ^ 31 else 2 ^ 63)"

definition pow10 :: "int \<Rightarrow> rat" where
  "pow10 k = (if 0 \<le> k then 10 ^ nat k else 1 / 10 ^ nat (- k))"

definition in_family :: "string \<Rightarrow> bool" where
  "in_family n \<longleftrightarrow> integer_rank n \<noteq> None \<or> n \<in> {''text'', ''character varying'', ''numeric''}"

fun admits :: "canonical_type \<Rightarrow> column_value \<Rightarrow> bool" where
  "admits t (IntegerValue i) =
     (case integer_rank (type_name t) of
        None \<Rightarrow> False
      | Some r \<Rightarrow> - integer_bound r \<le> i \<and> i < integer_bound r)"
| "admits t (TextValue n) =
     (type_name t = ''text'' \<or>
      type_name t = ''character varying'' \<and>
      (case type_length t of None \<Rightarrow> True | Some l \<Rightarrow> int n \<le> l))"
| "admits t (NumericValue q) =
     (type_name t = ''numeric'' \<and>
      (case type_precision t of
         None \<Rightarrow> True
       | Some p \<Rightarrow>
           (let m = q * pow10 (case type_scale t of None \<Rightarrow> 0 | Some s \<Rightarrow> s)
            in m \<in> \<int> \<and> \<bar>m\<bar> < pow10 p)))"
| "admits t (OtherValue u _) = (t = u \<and> \<not> in_family (type_name t))"

lemma integer_rank_Some:
  "integer_rank n = Some r \<longleftrightarrow>
     n = ''smallint'' \<and> r = 0 \<or> n = ''integer'' \<and> r = 1 \<or> n = ''bigint'' \<and> r = 2"
  by (auto simp: integer_rank_def)

lemma integer_rank_other [simp]:
  "integer_rank ''text'' = None" "integer_rank ''character varying'' = None"
  "integer_rank ''numeric'' = None"
  by (simp_all add: integer_rank_def)


lemma pow10_mono: "j \<le> k \<Longrightarrow> pow10 j \<le> pow10 k"
proof (cases "0 \<le> j")
  case True
  moreover assume "j \<le> k"
  ultimately show ?thesis by (auto simp: pow10_def intro!: power_increasing)
next
  case False
  assume "j \<le> k"
  show ?thesis
  proof (cases "0 \<le> k")
    case True
    have "1 / 10 ^ nat (- j) \<le> (1 :: rat)" by simp
    also have "\<dots> \<le> 10 ^ nat k" by simp
    finally show ?thesis using True False by (simp add: pow10_def)
  next
    case False
    then have "(10 :: rat) ^ nat (- k) \<le> 10 ^ nat (- j)"
      using \<open>j \<le> k\<close> by (intro power_increasing) auto
    then show ?thesis using False \<open>j \<le> k\<close> \<open>\<not> 0 \<le> j\<close> by (simp add: pow10_def frac_le)
  qed
qed

text \<open>Which pairs of types the policy lets pass.\<close>

lemma classify_not_breaking:
  "assessed_severity (classify_type_change b a) \<noteq> BREAKING \<longleftrightarrow>
     b = a \<or>
     (\<exists>rb ra. integer_rank (type_name b) = Some rb \<and> integer_rank (type_name a) = Some ra \<and> rb < ra) \<or>
     type_name b = ''character varying'' \<and>
       (type_name a = ''text'' \<or>
        type_name a = ''character varying'' \<and>
          (type_length a = None \<or> (\<exists>lb la. type_length b = Some lb \<and> type_length a = Some la \<and> lb \<le> la))) \<or>
     type_name b = ''numeric'' \<and> type_name a = ''numeric'' \<and>
       (type_precision a = None \<or>
        type_scale b = type_scale a \<and>
          (\<exists>pb pa. type_precision b = Some pb \<and> type_precision a = Some pa \<and> pb \<le> pa))"
proof (cases "b = a")
  case False
  note c = classify_type_change_def False
  consider (ints) rb ra where "integer_rank (type_name b) = Some rb" "integer_rank (type_name a) = Some ra"
    | (other) "integer_rank (type_name b) = None \<or> integer_rank (type_name a) = None"
    by (cases "integer_rank (type_name b)"; cases "integer_rank (type_name a)") auto
  then show ?thesis
  proof cases
    case ints
    then have "type_name b \<noteq> ''numeric''" "type_name b \<noteq> ''character varying''"
      by (auto simp: integer_rank_Some)
    with ints show ?thesis by (simp add: c)
  next
    case other
    then have classify: "classify_type_change b a =
      (if type_name b = ''character varying'' \<and> type_name a = ''character varying'' then
         (case type_length a of
            None \<Rightarrow> assess WARNING ''character capacity widened''
          | Some la \<Rightarrow>
              (case type_length b of
                 Some lb \<Rightarrow>
                   if la \<ge> lb then assess WARNING ''character capacity widened''
                   else assess BREAKING ''character capacity narrowed''
               | None \<Rightarrow> assess BREAKING ''character capacity narrowed''))
       else if type_name b = ''character varying'' \<and> type_name a = ''text'' then
         assess WARNING ''character capacity widened''
       else if type_name b = ''text'' \<and> type_name a = ''character varying'' then
         assess BREAKING ''character capacity constrained''
       else if type_name b = ''numeric'' \<and> type_name a = ''numeric'' then
         (case type_precision a of
            None \<Rightarrow> assess WARNING ''numeric constraint removed''
          | Some pa \<Rightarrow>
              (case type_precision b of
                 None \<Rightarrow> assess BREAKING ''numeric constraint added''
               | Some pb \<Rightarrow>
                   if type_scale b = type_scale a \<and> pa \<ge> pb
                   then assess WARNING ''numeric precision widened''
                   else assess BREAKING ''numeric precision or scale narrowed''))
       else assess BREAKING ''incompatible type families'')"
      by (cases "integer_rank (type_name b)"; cases "integer_rank (type_name a)") (auto simp: c)
    from other have no_ints: "\<not> (\<exists>rb ra. integer_rank (type_name b) = Some rb \<and>
        integer_rank (type_name a) = Some ra \<and> rb < ra)" by auto
    consider (char) "type_name b = ''character varying''" | (num) "type_name b = ''numeric''"
      | (rest) "type_name b \<noteq> ''character varying''" "type_name b \<noteq> ''numeric''" by blast
    then show ?thesis
    proof cases
      case char
      then show ?thesis using False unfolding classify by (simp split: option.splits)
    next
      case num
      then show ?thesis using False unfolding classify by (simp split: option.splits)
    next
      case rest
      then show ?thesis using False no_ints unfolding classify by simp
    qed
  qed
qed (simp add: classify_type_change_def)

text \<open>A change of type is \<open>INFO\<close> exactly when the two canonical types are equal.\<close>

lemma classify_info_iff:
  "assessed_severity (classify_type_change b a) = INFO \<longleftrightarrow> b = a"
proof (cases "assessed_severity (classify_type_change b a) = BREAKING")
  case True
  moreover have "b = a \<Longrightarrow> assessed_severity (classify_type_change b a) = INFO"
    by (simp add: classify_type_change_def)
  ultimately show ?thesis by auto
next
  case False
  show ?thesis
  proof (cases "b = a")
    case False
    with \<open>assessed_severity (classify_type_change b a) \<noteq> BREAKING\<close>
    show ?thesis unfolding classify_not_breaking
      by (elim disjE exE conjE) (simp_all add: classify_type_change_def)
  qed (simp add: classify_type_change_def)
qed

lemma non_breaking_admits:
  assumes "assessed_severity (classify_type_change b a) \<noteq> BREAKING" and "admits b v"
  shows "admits a v"
proof -
  have numeric: "\<bar>m\<bar> < pow10 pa" if "\<bar>m\<bar> < pow10 pb" "pb \<le> pa" for m pb pa
    using that pow10_mono [OF that(2)] by linarith
  have ints: "integer_bound rb \<le> integer_bound ra"
    if "integer_rank n = Some rb" "integer_rank m = Some ra" "rb < ra" for n m rb ra
    using that by (auto simp: integer_rank_Some integer_bound_def)
  from assms(1) consider "b = a"
    | (int) rb ra where "integer_rank (type_name b) = Some rb" "integer_rank (type_name a) = Some ra" "rb < ra"
    | (to_text) "type_name b = ''character varying''" "type_name a = ''text''"
    | (char) "type_name b = ''character varying''" "type_name a = ''character varying''"
        "type_length a = None \<or> (\<exists>lb la. type_length b = Some lb \<and> type_length a = Some la \<and> lb \<le> la)"
    | (num) "type_name b = ''numeric''" "type_name a = ''numeric''"
        "type_precision a = None \<or> type_scale b = type_scale a \<and>
          (\<exists>pb pa. type_precision b = Some pb \<and> type_precision a = Some pa \<and> pb \<le> pa)"
    unfolding classify_not_breaking by blast
  then show ?thesis
  proof cases
    case int
    then have "type_name b \<noteq> ''text''" "type_name b \<noteq> ''character varying''" "type_name b \<noteq> ''numeric''"
      by (auto simp: integer_rank_Some)
    then show ?thesis
      using int(1,2) ints [OF int] assms(2) by (cases v) (simp_all add: in_family_def)
  next
    case to_text
    then show ?thesis using assms(2) by (cases v) (simp_all add: in_family_def)
  next
    case char
    then show ?thesis using assms(2) by (cases v) (auto simp: in_family_def)
  next
    case num
    then show ?thesis using assms(2) numeric by (cases v) (auto simp: in_family_def Let_def)
  qed (use assms(2) in simp)
qed

text \<open>C31. Soundness of the compatibility policy: along any history of type changes none of which is
  \<open>BREAKING\<close>, every value the first type could hold still fits the last one.\<close>

theorem non_breaking_keeps_values:
  assumes "successively (\<lambda>b a. assessed_severity (classify_type_change b a) \<noteq> BREAKING) ts"
    and "ts \<noteq> []" and "admits (hd ts) v"
  shows "admits (last ts) v"
  using assms
proof (induction ts rule: induct_list012)
  case (3 b a ts)
  then have "admits a v" using non_breaking_admits [of b a v] by simp
  then show ?case using 3 by simp
qed simp_all

theorem non_breaking_keeps_values_witness:
  "admits \<lparr>type_name = ''bigint'', type_length = None, type_precision = None, type_scale = None\<rparr>
     (IntegerValue 7)"
  using non_breaking_keeps_values
    [of "map (\<lambda>n. \<lparr>type_name = n, type_length = None, type_precision = None, type_scale = None\<rparr>)
           [''smallint'', ''integer'', ''bigint'']" "IntegerValue 7"]
  by (simp add: classify_type_change_def integer_rank_def integer_bound_def)

text \<open>Non-breaking changes compose: accepting two of them in a row is accepting their
  composition, so the severity does not depend on whether a scan saw the intermediate type.\<close>

theorem non_breaking_trans:
  assumes "assessed_severity (classify_type_change a b) \<noteq> BREAKING"
    and "assessed_severity (classify_type_change b c) \<noteq> BREAKING"
  shows "assessed_severity (classify_type_change a c) \<noteq> BREAKING"
proof -
  have rank: "integer_rank n = None" if "n = ''text'' \<or> n = ''character varying'' \<or> n = ''numeric''" for n
    using that by (elim disjE) simp_all
  show ?thesis
    using assms unfolding classify_not_breaking
    by (elim disjE exE conjE) (simp_all add: rank)
qed

theorem non_breaking_trans_witness:
  "assessed_severity (classify_type_change
     \<lparr>type_name = ''character varying'', type_length = Some 5, type_precision = None, type_scale = None\<rparr>
     \<lparr>type_name = ''text'', type_length = None, type_precision = None, type_scale = None\<rparr>) \<noteq> BREAKING"
  by (rule non_breaking_trans
      [of _ "\<lparr>type_name = ''character varying'', type_length = Some 9, type_precision = None, type_scale = None\<rparr>"])
    (simp_all add: classify_type_change_def integer_rank_def)









text \<open>The policy errs on the safe side only: a \<open>text\<close> column that becomes an unlimited
  \<open>character varying\<close>, or a decimal that gains digits on both sides of the point, keeps every
  value and is still reported as \<open>BREAKING\<close>.\<close>

theorem breaking_without_loss:
  "(let text = \<lparr>type_name = ''text'', type_length = None, type_precision = None, type_scale = None\<rparr>;
        varchar = \<lparr>type_name = ''character varying'', type_length = None, type_precision = None, type_scale = None\<rparr>
    in assessed_severity (classify_type_change text varchar) = BREAKING \<and>
       (\<forall>v. admits text v = admits varchar v)) \<and>
   (let small = \<lparr>type_name = ''numeric'', type_length = None, type_precision = Some 10, type_scale = Some 2\<rparr>;
        large = \<lparr>type_name = ''numeric'', type_length = None, type_precision = Some 14, type_scale = Some 4\<rparr>
    in classify_type_change small large = assess BREAKING ''numeric precision or scale narrowed'' \<and>
       (\<nexists>v. admits small v \<and> \<not> admits large v))"
proof -
  have text_varchar: "admits \<lparr>type_name = ''text'', type_length = None, type_precision = None, type_scale = None\<rparr> v =
      admits \<lparr>type_name = ''character varying'', type_length = None, type_precision = None, type_scale = None\<rparr> v" for v
    by (cases v) (auto simp: in_family_def)
  have dec: "q * 10000 \<in> \<int> \<and> \<bar>q * 10000\<bar> < pow10 14" if "q * 100 \<in> \<int>" "\<bar>q * 100\<bar> < pow10 10" for q
  proof -
    have "q * 100 * 100 \<in> \<int>" using that(1) by (rule Ints_mult) simp
    moreover have "q * 100 * 100 = q * 10000" by simp
    moreover have "\<bar>q * 10000\<bar> < pow10 14" using that(2) by (simp add: pow10_def abs_mult)
    ultimately show ?thesis by (metis (no_types))
  qed
  have num: "admits \<lparr>type_name = ''numeric'', type_length = None, type_precision = Some 14, type_scale = Some 4\<rparr> v"
    if "admits \<lparr>type_name = ''numeric'', type_length = None, type_precision = Some 10, type_scale = Some 2\<rparr> v" for v
  proof (cases v)
    case (NumericValue q)
    then show ?thesis using that dec [of q] by (simp add: Let_def pow10_def)
  qed (use that in \<open>simp_all add: in_family_def\<close>)
  show ?thesis using text_varchar num by (simp add: classify_type_change_def Let_def)
qed

text \<open>The type read from \<open>information_schema.columns\<close> is well formed as well, for a name
  that is not blank and has no parenthesis.\<close>

lemma canonicalize_postgres_type_wf:
  assumes "n = (if data_type \<noteq> ''USER-DEFINED'' then data_type else udt_name)"
    and "n \<noteq> []" and "\<not> is_space (hd n)" and "\<forall>c \<in> set n. \<not> is_paren c"
    and "pred_option short_int len" and "pred_option short_int prec" and "pred_option short_int sc"
    and "prec = None \<longrightarrow> sc = None"
  shows "wf_type (canonicalize_postgres_type data_type udt_name len prec sc)"
proof -
  have name: "normalize_name n \<noteq> []" "\<forall>c \<in> set (normalize_name n). \<not> is_paren c"
    using normalize_name_not_Nil normalize_name_no_paren assms(2-4) by blast+
  then show ?thesis
    using assms(5-) normalize_name_idem [of n]
    by (auto simp: canonicalize_postgres_type_def Let_def wf_type_def list_all_iff
        assms(1) [symmetric] char_or_bit_type_def)
qed

text \<open>C28. Parsing inverts rendering on everything the code can meet: whatever text the parser
  accepts, the type it returns has a normalised name, a length only on character and bit types
  and a precision and scale only on \<open>numeric\<close>, and rendering that type and parsing it again
  gives it back, so the form shown in alerts and on the dashboard names the type unambiguously.\<close>

theorem parse_postgres_type_roundtrip:
  assumes "parse_postgres_type s = Inr t"
  shows "wf_type t \<and> parse_postgres_type (render_type t) = Inr t"
  using parse_postgres_type_wf [OF assms] parse_render_type by simp

theorem parse_postgres_type_roundtrip_witness:
  "parse_postgres_type (render_type
     \<lparr>type_name = ''character varying'', type_length = Some 20, type_precision = None, type_scale = None\<rparr>) =
   Inr \<lparr>type_name = ''character varying'', type_length = Some 20, type_precision = None, type_scale = None\<rparr>"
proof -
  have "parse_postgres_type ''VarChar( 20)'' =
      Inr \<lparr>type_name = ''character varying'', type_length = Some 20, type_precision = None, type_scale = None\<rparr>"
    by code_simp
  then show ?thesis using parse_postgres_type_roundtrip by blast
qed

end
