(* ===== verification/Diff.thy ===== *)
theory Diff
  imports TypeRules
begin

text \<open>
  \<open>domain/diff.py\<close>: the comparison of an expected and an observed list of columns. The lemmas
  characterise its result exactly (which changes it reports, with which severity, in which
  order), show that it does not depend on the order in which the columns arrive, and that a
  result without \<open>BREAKING\<close> changes is safe for every column that a pipeline depends on.
\<close>

section \<open>Comparing one column\<close>

definition make_change ::
  "change_type \<Rightarrow> severity \<Rightarrow> column_definition option \<Rightarrow> column_definition option
     \<Rightarrow> py_error + schema_change" where
  "make_change kind sev before after =
     (case (case before of Some c \<Rightarrow> Some c | None \<Rightarrow> after) of
        None \<Rightarrow> Inl (ValueError ''schema change requires a before or after column'')
      | Some column \<Rightarrow>
          Inr \<lparr>change_dataset = col_dataset column, change_column = col_name column,
               change_kind = kind, change_severity = sev,
               change_before = before, change_after = after\<rparr>)"

definition compare_column ::
  "column_ref \<Rightarrow> column_definition option \<Rightarrow> column_definition option \<Rightarrow> column_ref set
     \<Rightarrow> py_error + schema_change list" where
  "compare_column ref before after dependencies =
    (case (before, after) of
       (None, Some a) \<Rightarrow>
         let sev = (if col_nullable a then INFO else WARNING) in
         bindR (make_change ADD_COLUMN sev before after) (\<lambda>c. Inr [c])
     | (Some b, None) \<Rightarrow>
         let sev = (if ref \<in> dependencies then BREAKING else WARNING) in
         bindR (make_change DROP_COLUMN sev before after) (\<lambda>c. Inr [c])
     | (None, None) \<Rightarrow> Inr []
     | (Some b, Some a) \<Rightarrow>
         bindR
           (if col_type b \<noteq> col_type a then
              let assessment = classify_type_change (col_type b) (col_type a) in
              bindR (make_change TYPE_CHANGE (assessed_severity assessment) before after)
                (\<lambda>c. Inr [c])
            else Inr [])
           (\<lambda>changes.
              if col_nullable b \<noteq> col_nullable a then
                let sev = (if \<not> col_nullable b \<and> col_nullable a \<and> ref \<in> dependencies
                           then BREAKING else WARNING) in
                bindR (make_change NULLABILITY_CHANGE sev before after)
                  (\<lambda>c. Inr (changes @ [c]))
              else Inr changes))"

section \<open>Comparing two schemas\<close>

text \<open>\<open>change_sort_key\<close> compares the strings of the tuple in turn, by code points.\<close>

definition change_sort_key :: "schema_change \<Rightarrow> string \<times> string \<times> string \<times> string" where
  "change_sort_key c =
     (ref_schema (change_dataset c), ref_table (change_dataset c), change_column c,
      change_type_value (change_kind c))"

definition columns_by_ref :: "column_definition list \<Rightarrow> (column_ref \<times> column_definition) list" where
  "columns_by_ref columns = fold (\<lambda>c d. AList.update (col_ref c) c d) columns []"

definition diff_columns ::
  "column_definition list \<Rightarrow> column_definition list \<Rightarrow> column_ref list
     \<Rightarrow> py_error + schema_change list" where
  "diff_columns expected observed dependencies =
     (let expected_by_ref = columns_by_ref expected;
          observed_by_ref = columns_by_ref observed;
          dependency_set = set dependencies;
          refs = sort (remdups (map fst expected_by_ref @ map fst observed_by_ref))
      in bindR
           (mapR (\<lambda>ref. compare_column ref (map_of expected_by_ref ref) (map_of observed_by_ref ref)
                           dependency_set) refs)
           (\<lambda>changes. Inr (sort_key change_sort_key (concat changes))))"

section \<open>What has to be reported\<close>

text \<open>
  The specification: for the column before and after and a kind of change, whether a change of
  that kind is due and with which severity.
\<close>

fun required_severity ::
  "bool \<Rightarrow> column_definition option \<Rightarrow> column_definition option \<Rightarrow> change_type \<Rightarrow> severity option"
where
  "required_severity used None (Some a) ADD_COLUMN =
     Some (if col_nullable a then INFO else WARNING)"
| "required_severity used (Some b) None DROP_COLUMN = Some (if used then BREAKING else WARNING)"
| "required_severity used (Some b) (Some a) TYPE_CHANGE =
     (if col_type b = col_type a then None
      else Some (assessed_severity (classify_type_change (col_type b) (col_type a))))"
| "required_severity used (Some b) (Some a) NULLABILITY_CHANGE =
     (if col_nullable b = col_nullable a then None
      else Some (if used \<and> col_nullable a then BREAKING else WARNING))"
| "required_severity used _ _ _ = None"

definition latest :: "column_definition list \<Rightarrow> column_ref \<Rightarrow> column_definition option" where
  "latest columns = map_of (rev (map (\<lambda>c. (col_ref c, c)) columns))"

definition build_change ::
  "column_ref \<Rightarrow> change_type \<Rightarrow> severity \<Rightarrow> column_definition option \<Rightarrow> column_definition option
     \<Rightarrow> schema_change" where
  "build_change r k s b a =
     \<lparr>change_dataset = ref_dataset r, change_column = ref_name r, change_kind = k,
      change_severity = s, change_before = b, change_after = a\<rparr>"

definition due_changes ::
  "column_ref set \<Rightarrow> column_ref \<Rightarrow> column_definition option \<Rightarrow> column_definition option
     \<Rightarrow> schema_change list" where
  "due_changes deps r b a =
     concat (map (\<lambda>k. case required_severity (r \<in> deps) b a k of
                        None \<Rightarrow> []
                      | Some s \<Rightarrow> [build_change r k s b a])
       [ADD_COLUMN, DROP_COLUMN, TYPE_CHANGE, NULLABILITY_CHANGE])"

lemma build_change_simps [simp]:
  "change_ref (build_change r k s b a) = r" "change_kind (build_change r k s b a) = k"
  "change_severity (build_change r k s b a) = s" "change_before (build_change r k s b a) = b"
  "change_after (build_change r k s b a) = a"
  by (simp_all add: build_change_def change_ref_def)

lemma build_change_of: "build_change (change_ref c) (change_kind c) (change_severity c)
    (change_before c) (change_after c) = c"
  by (simp add: build_change_def change_ref_def)

lemma compare_column_due:
  assumes "\<And>c. before = Some c \<Longrightarrow> col_ref c = ref" and "\<And>c. after = Some c \<Longrightarrow> col_ref c = ref"
  shows "compare_column ref before after deps = Inr (due_changes deps ref before after)"
proof -
  have "make_change k s before after = Inr (build_change ref k s before after)"
    if "before \<noteq> None \<or> after \<noteq> None" for k s
    using that assms
    by (cases before; cases after; force simp: make_change_def build_change_def col_ref_def)
  then show ?thesis
    by (cases before; cases after) (auto simp: compare_column_def due_changes_def Let_def)
qed

lemma map_of_columns_by_ref: "map_of (columns_by_ref columns) = latest columns"
proof -
  have "map_of (fold (\<lambda>c d. AList.update (col_ref c) c d) xs d) =
      map_of d ++ map_of (rev (map (\<lambda>c. (col_ref c, c)) xs))" for xs d
    by (induction xs arbitrary: d) (simp_all add: update_conv' map_add_upd_left)
  then show ?thesis by (simp add: columns_by_ref_def latest_def)
qed

lemma dom_latest: "dom (latest columns) = col_ref ` set columns"
  by (auto simp: latest_def dom_map_of_conv_image_fst image_iff)

lemma latest_ref: "latest columns r = Some c \<Longrightarrow> col_ref c = r"
  by (auto simp: latest_def dest!: map_of_SomeD)

lemma set_fst_columns_by_ref: "set (map fst (columns_by_ref columns)) = col_ref ` set columns"
  using arg_cong [OF map_of_columns_by_ref, of dom columns]
  by (simp add: dom_map_of_conv_image_fst dom_latest)

lemma diff_columns_due:
  "diff_columns expected observed deps =
     Inr (sort_key change_sort_key (concat
       (map (\<lambda>r. due_changes (set deps) r (latest expected r) (latest observed r))
         (sort (remdups (map fst (columns_by_ref expected) @ map fst (columns_by_ref observed)))))))"
proof -
  have "mapR (\<lambda>r. compare_column r (latest expected r) (latest observed r) (set deps)) refs =
      Inr (map (\<lambda>r. due_changes (set deps) r (latest expected r) (latest observed r)) refs)" for refs
    by (intro mapR_Inr compare_column_due) (auto dest: latest_ref)
  then show ?thesis by (simp add: diff_columns_def Let_def map_of_columns_by_ref)
qed

lemma set_due_changes:
  "c \<in> set (due_changes deps r b a) \<longleftrightarrow>
     change_ref c = r \<and> change_before c = b \<and> change_after c = a \<and>
     required_severity (r \<in> deps) b a (change_kind c) = Some (change_severity c)"
proof
  assume R: "change_ref c = r \<and> change_before c = b \<and> change_after c = a \<and>
     required_severity (r \<in> deps) b a (change_kind c) = Some (change_severity c)"
  then have c: "c = build_change r (change_kind c) (change_severity c) b a"
    using build_change_of [of c] by simp
  show "c \<in> set (due_changes deps r b a)"
    unfolding due_changes_def using R c by (cases "change_kind c") auto
qed (auto simp: due_changes_def split: option.splits)

lemma due_changes_None: "b = None \<Longrightarrow> a = None \<Longrightarrow> due_changes deps r b a = []"
  by (simp add: due_changes_def)

section \<open>The result\<close>

lemma change_type_value_neq_values: "inj change_type_value"
  by (simp add: inj_on_def)

lemma change_sort_key_eq:
  "change_sort_key c = change_sort_key d \<longleftrightarrow> change_ref c = change_ref d \<and> change_kind c = change_kind d"
  by (auto simp: change_sort_key_def change_ref_def intro: dataset_ref.expand)

lemma distinct_due_changes: "distinct (map change_sort_key (due_changes deps r b a))"
  by (cases b; cases a) (auto simp: due_changes_def change_sort_key_def build_change_def)

lemma distinct_concat_due:
  assumes "distinct refs"
  shows "distinct (map change_sort_key (concat (map (\<lambda>r. due_changes deps r (f r) (g r)) refs)))"
  using assms
proof (induction refs)
  case (Cons r refs)
  have "change_sort_key ` set (due_changes deps r (f r) (g r)) \<inter>
      change_sort_key ` set (concat (map (\<lambda>r. due_changes deps r (f r) (g r)) refs)) = {}"
    using Cons.prems by (auto simp: set_due_changes change_sort_key_eq)
  then show ?case
    using Cons distinct_due_changes [of deps r "f r" "g r"] by (auto simp: image_iff)
qed simp

text \<open>The set and the order of the reported changes, in the form the other proofs use.\<close>

lemma diff_columns_result:
  obtains cs where "diff_columns expected observed deps = Inr cs"
    and "sorted_wrt (\<lambda>c d. change_sort_key c < change_sort_key d) cs"
    and "\<And>c. c \<in> set cs \<longleftrightarrow>
      change_before c = latest expected (change_ref c) \<and>
      change_after c = latest observed (change_ref c) \<and>
      required_severity (change_ref c \<in> set deps) (change_before c) (change_after c) (change_kind c) =
        Some (change_severity c)"
proof -
  let ?refs = "sort (remdups (map fst (columns_by_ref expected) @ map fst (columns_by_ref observed)))"
  let ?due = "\<lambda>r. due_changes (set deps) r (latest expected r) (latest observed r)"
  let ?cs = "sort_key change_sort_key (concat (map ?due ?refs))"
  have "mset (map change_sort_key ?cs) = mset (map change_sort_key (concat (map ?due ?refs)))"
    by (simp only: mset_map mset_sort)
  moreover have "distinct ?refs" by simp
  ultimately have "distinct (map change_sort_key ?cs)"
    using distinct_concat_due mset_eq_imp_distinct_iff by blast
  then have "sorted_wrt (<) (map change_sort_key ?cs)"
    by (simp add: strict_sorted_iff)
  then have sorted: "sorted_wrt (\<lambda>c d. change_sort_key c < change_sort_key d) ?cs"
    by (simp add: sorted_wrt_map)
  have refs: "set ?refs = col_ref ` set expected \<union> col_ref ` set observed"
    using set_fst_columns_by_ref [of expected] set_fst_columns_by_ref [of observed] by simp
  have mem: "c \<in> set ?cs \<longleftrightarrow> c \<in> set (?due (change_ref c))" for c
  proof
    assume c: "c \<in> set (?due (change_ref c))"
    then have "\<not> (latest expected (change_ref c) = None \<and> latest observed (change_ref c) = None)"
      using due_changes_None by fastforce
    then have "change_ref c \<in> set ?refs" unfolding refs dom_latest [symmetric] by auto
    with c show "c \<in> set ?cs" by force
  qed (auto simp: set_due_changes)
  then have "c \<in> set ?cs \<longleftrightarrow>
      change_before c = latest expected (change_ref c) \<and>
      change_after c = latest observed (change_ref c) \<and>
      required_severity (change_ref c \<in> set deps) (change_before c) (change_after c) (change_kind c) =
        Some (change_severity c)" for c
    unfolding mem set_due_changes by auto
  then show thesis using that diff_columns_due sorted by blast
qed

lemma diff_columns_mem:
  assumes "diff_columns expected observed deps = Inr cs"
  shows "c \<in> set cs \<longleftrightarrow>
      change_before c = latest expected (change_ref c) \<and>
      change_after c = latest observed (change_ref c) \<and>
      required_severity (change_ref c \<in> set deps) (change_before c) (change_after c) (change_kind c) =
        Some (change_severity c)"
  by (rule diff_columns_result [of expected observed deps]) (simp add: assms)

lemma diff_columns_total: "\<exists>cs. diff_columns expected observed deps = Inr cs"
  by (simp add: diff_columns_due)

text \<open>C1. The comparison of two schemas never fails and reports exactly the due changes: each
  reported change carries the columns before and after, and a change of a kind is reported for a
  column, with the severity the policy prescribes, if and only if one is due. The list is strictly
  ordered by dataset, column and kind, so nothing is reported twice.\<close>

theorem diff_columns_exact:
  "\<exists>cs. diff_columns expected observed deps = Inr cs \<and>
     sorted_wrt (\<lambda>c d. change_sort_key c < change_sort_key d) cs \<and>
     (\<forall>c. c \<in> set cs \<longleftrightarrow>
        change_before c = latest expected (change_ref c) \<and>
        change_after c = latest observed (change_ref c) \<and>
        required_severity (change_ref c \<in> set deps) (change_before c) (change_after c) (change_kind c) =
          Some (change_severity c))"
  by (rule diff_columns_result [of expected observed deps]) blast

text \<open>What the comparison looks at: the type and the nullability, not the default or the position.\<close>

definition column_shape :: "column_definition \<Rightarrow> canonical_type \<times> bool" where
  "column_shape c = (col_type c, col_nullable c)"

definition schema_shape :: "column_definition list \<Rightarrow> column_ref \<Rightarrow> (canonical_type \<times> bool) option" where
  "schema_shape columns r = map_option column_shape (latest columns r)"

lemma nothing_required:
  "(\<forall>k. required_severity used b a k = None) \<longleftrightarrow> map_option column_shape b = map_option column_shape a"
proof
  assume none: "\<forall>k. required_severity used b a k = None"
  have "required_severity used b a ADD_COLUMN = None" "required_severity used b a DROP_COLUMN = None"
    "required_severity used b a TYPE_CHANGE = None" "required_severity used b a NULLABILITY_CHANGE = None"
    using none by blast+
  then show "map_option column_shape b = map_option column_shape a"
    by (cases b; cases a) (auto simp: column_shape_def split: if_splits)
next
  assume "map_option column_shape b = map_option column_shape a"
  then show "\<forall>k. required_severity used b a k = None"
    by (intro allI, case_tac k; cases b; cases a) (auto simp: column_shape_def)
qed

lemma diff_columns_empty:
  "diff_columns expected observed deps = Inr [] \<longleftrightarrow> schema_shape expected = schema_shape observed"
proof -
  obtain cs where cs: "diff_columns expected observed deps = Inr cs"
    using diff_columns_total by blast
  note mem = diff_columns_mem [OF cs]
  have "cs = [] \<longleftrightarrow> (\<forall>r k. required_severity (r \<in> set deps) (latest expected r) (latest observed r) k = None)"
  proof
    assume "cs = []"
    show "\<forall>r k. required_severity (r \<in> set deps) (latest expected r) (latest observed r) k = None"
    proof (rule ccontr)
      assume "\<not> (\<forall>r k. required_severity (r \<in> set deps) (latest expected r) (latest observed r) k = None)"
      then obtain r k v where v: "required_severity (r \<in> set deps) (latest expected r) (latest observed r) k = Some v"
        by auto
      then have "build_change r k v (latest expected r) (latest observed r) \<in> set cs"
        unfolding mem by simp
      then show False using \<open>cs = []\<close> by simp
    qed
  next
    assume none: "\<forall>r k. required_severity (r \<in> set deps) (latest expected r) (latest observed r) k = None"
    have "c \<notin> set cs" for c
      using none [rule_format, of "change_ref c" "change_kind c"] mem [of c] by auto
    then show "cs = []" by (cases cs) auto
  qed
  then show ?thesis
    unfolding cs nothing_required by (simp add: schema_shape_def fun_eq_iff)
qed

text \<open>Two schemas are reported as consistent exactly when they have the same columns with the
  same types and nullability; defaults and positions do not matter.\<close>

theorem consistent_iff_same_shape:
  "diff_columns expected observed deps = Inr [] \<longleftrightarrow>
     (\<forall>r. map_option (\<lambda>c. (col_type c, col_nullable c)) (latest expected r) =
          map_option (\<lambda>c. (col_type c, col_nullable c)) (latest observed r))"
  unfolding diff_columns_empty by (simp add: schema_shape_def fun_eq_iff column_shape_def [abs_def])

text \<open>Without duplicates, the list of columns only matters as a set.\<close>

lemma latest_distinct:
  assumes "distinct (map col_ref columns)"
  shows "latest columns r = Some c \<longleftrightarrow> c \<in> set columns \<and> col_ref c = r"
proof -
  have "distinct (map fst (rev (map (\<lambda>c. (col_ref c, c)) columns)))"
    using assms by (simp add: rev_map [symmetric] comp_def)
  then have "latest columns r = Some c \<longleftrightarrow> (r, c) \<in> set (rev (map (\<lambda>c. (col_ref c, c)) columns))"
    unfolding latest_def by (rule map_of_eq_Some_iff)
  then show ?thesis by auto
qed

lemma latest_cong:
  assumes "distinct (map col_ref xs)" and "mset xs = mset ys"
  shows "latest xs = latest ys"
proof -
  have "distinct (map col_ref ys)"
    using assms by (metis mset_map mset_eq_imp_distinct_iff)
  moreover have "set xs = set ys" using assms(2) by (metis set_mset_mset)
  ultimately have "latest xs r = Some c \<longleftrightarrow> latest ys r = Some c" for r c
    using latest_distinct [OF assms(1)] latest_distinct [of ys] by blast
  then show ?thesis by (metis ext not_Some_eq)
qed

text \<open>The comparison is deterministic: it does not depend on the order in which the columns or
  the dependencies are listed.\<close>

theorem diff_columns_order_independent:
  assumes "distinct (map col_ref expected)" and "distinct (map col_ref observed)"
    and "mset expected = mset expected'" and "mset observed = mset observed'"
    and "set deps = set deps'"
  shows "diff_columns expected observed deps = diff_columns expected' observed' deps'"
proof -
  have refs: "sort (remdups (map fst (columns_by_ref xs) @ map fst (columns_by_ref ys))) =
      sorted_list_of_set (col_ref ` set xs \<union> col_ref ` set ys)" for xs ys
    using set_fst_columns_by_ref [of xs] set_fst_columns_by_ref [of ys]
    by (simp add: sorted_list_of_set_sort_remdups [symmetric])
  have "set expected = set expected'" "set observed = set observed'"
    using assms(3,4) by (metis set_mset_mset)+
  then show ?thesis
    unfolding diff_columns_due refs
    using latest_cong [OF assms(1,3)] latest_cong [OF assms(2,4)] assms(5) by simp
qed

definition sample_column :: "string \<Rightarrow> string \<Rightarrow> bool \<Rightarrow> column_definition" where
  "sample_column n t nullable =
     \<lparr>col_dataset = DatasetRef ''public'' ''orders'', col_name = n,
      col_type = \<lparr>type_name = t, type_length = None, type_precision = None, type_scale = None\<rparr>,
      col_nullable = nullable, col_default = None, col_ordinal = 1\<rparr>"

theorem diff_columns_order_independent_witness:
  "diff_columns [sample_column ''id'' ''bigint'' False, sample_column ''total'' ''text'' True] [] [] =
   diff_columns [sample_column ''total'' ''text'' True, sample_column ''id'' ''bigint'' False] [] []"
  by (rule diff_columns_order_independent) (simp_all add: sample_column_def col_ref_def)

text \<open>C2. A comparison without \<open>BREAKING\<close> changes is safe for the pipelines: every column they
  depend on is still there, holds every value it could hold before, and has not become nullable.\<close>

theorem no_breaking_keeps_dependencies:
  assumes "diff_columns expected observed deps = Inr cs"
    and "\<forall>c \<in> set cs. change_severity c \<noteq> BREAKING"
    and "r \<in> set deps" and "latest expected r = Some b"
  shows "\<exists>a. latest observed r = Some a \<and>
     (\<forall>v. admits (col_type b) v \<longrightarrow> admits (col_type a) v) \<and>
     (col_nullable a \<longrightarrow> col_nullable b)"
proof -
  have safe: "required_severity True (latest expected r) (latest observed r) k \<noteq> Some BREAKING" for k
  proof
    assume "required_severity True (latest expected r) (latest observed r) k = Some BREAKING"
    then have "build_change r k BREAKING (latest expected r) (latest observed r) \<in> set cs"
      using assms(3) by (simp add: diff_columns_mem [OF assms(1)])
    then show False using assms(2) by fastforce
  qed
  obtain a where a: "latest observed r = Some a"
    using safe [of DROP_COLUMN] assms(4) by (cases "latest observed r") auto
  have "assessed_severity (classify_type_change (col_type b) (col_type a)) \<noteq> BREAKING"
    using safe [of TYPE_CHANGE] assms(4) a
    by (cases "col_type b = col_type a") (auto simp: classify_type_change_def)
  then have "\<forall>v. admits (col_type b) v \<longrightarrow> admits (col_type a) v"
    using non_breaking_admits by blast
  moreover have "col_nullable a \<longrightarrow> col_nullable b"
    using safe [of NULLABILITY_CHANGE] assms(4) a by (auto split: if_splits)
  ultimately show ?thesis using a by blast
qed

theorem no_breaking_keeps_dependencies_witness:
  "\<exists>a. latest [sample_column ''id'' ''bigint'' False] (ColumnRef (DatasetRef ''public'' ''orders'') ''id'') = Some a \<and>
     (\<forall>v. admits (col_type (sample_column ''id'' ''integer'' False)) v \<longrightarrow> admits (col_type a) v) \<and>
     (col_nullable a \<longrightarrow> col_nullable (sample_column ''id'' ''integer'' False))"
proof (rule no_breaking_keeps_dependencies)
  show "diff_columns [sample_column ''id'' ''integer'' False] [sample_column ''id'' ''bigint'' False]
      [ColumnRef (DatasetRef ''public'' ''orders'') ''id''] =
    Inr [build_change (ColumnRef (DatasetRef ''public'' ''orders'') ''id'') TYPE_CHANGE WARNING
      (Some (sample_column ''id'' ''integer'' False)) (Some (sample_column ''id'' ''bigint'' False))]"
    by (simp add: diff_columns_def columns_by_ref_def sample_column_def col_ref_def Let_def
        compare_column_def make_change_def classify_type_change_def integer_rank_def build_change_def)
qed (simp_all add: sample_column_def latest_def col_ref_def)

end
