(* ===== verification/Sha256.thy ===== *)
theory Sha256
  imports Prelude PyString "HOL-Library.Word"
begin

text \<open>
  \<open>hashlib.sha256(data).hexdigest()\<close> as FIPS 180-4 defines it, on the bytes of the encoded
  string. The development needs two facts about it: it is a function, and its value is a string
  of 64 lower-case hexadecimal digits, which is what the column of the fingerprint holds.
\<close>

unbundle bit_operations_syntax

type_synonym u32 = "32 word"

text \<open>The round constants and the initial value, in decimal.\<close>

definition round_constants :: "u32 list" where
  "round_constants =
    [1116352408, 1899447441, 3049323471, 3921009573, 961987163, 1508970993, 2453635748, 2870763221,
     3624381080, 310598401, 607225278, 1426881987, 1925078388, 2162078206, 2614888103, 3248222580,
     3835390401, 4022224774, 264347078, 604807628, 770255983, 1249150122, 1555081692, 1996064986,
     2554220882, 2821834349, 2952996808, 3210313671, 3336571891, 3584528711, 113926993, 338241895,
     666307205, 773529912, 1294757372, 1396182291, 1695183700, 1986661051, 2177026350, 2456956037,
     2730485921, 2820302411, 3259730800, 3345764771, 3516065817, 3600352804, 4094571909, 275423344,
     430227734, 506948616, 659060556, 883997877, 958139571, 1322822218, 1537002063, 1747873779,
     1955562222, 2024104815, 2227730452, 2361852424, 2428436474, 2756734187, 3204031479, 3329325298]"

definition initial_hash :: "u32 list" where
  "initial_hash =
    [1779033703, 3144134277, 1013904242, 2773480762, 1359893119, 2600822924, 528734635, 1541459225]"

definition ch :: "u32 \<Rightarrow> u32 \<Rightarrow> u32 \<Rightarrow> u32" where
  "ch x y z = (x AND y) XOR (NOT x AND z)"

definition maj :: "u32 \<Rightarrow> u32 \<Rightarrow> u32 \<Rightarrow> u32" where
  "maj x y z = (x AND y) XOR (x AND z) XOR (y AND z)"

definition big_sigma0 :: "u32 \<Rightarrow> u32" where
  "big_sigma0 x = word_rotr 2 x XOR word_rotr 13 x XOR word_rotr 22 x"

definition big_sigma1 :: "u32 \<Rightarrow> u32" where
  "big_sigma1 x = word_rotr 6 x XOR word_rotr 11 x XOR word_rotr 25 x"

definition small_sigma0 :: "u32 \<Rightarrow> u32" where
  "small_sigma0 x = word_rotr 7 x XOR word_rotr 18 x XOR drop_bit 3 x"

definition small_sigma1 :: "u32 \<Rightarrow> u32" where
  "small_sigma1 x = word_rotr 17 x XOR word_rotr 19 x XOR drop_bit 10 x"

text \<open>The message schedule, newest word first.\<close>

fun extend_schedule :: "nat \<Rightarrow> u32 list \<Rightarrow> u32 list" where
  "extend_schedule 0 w = w"
| "extend_schedule (Suc n) w =
     extend_schedule n ((small_sigma1 (w ! 1) + w ! 6 + small_sigma0 (w ! 14) + w ! 15) # w)"

fun sha_round :: "u32 \<times> u32 \<Rightarrow> u32 list \<Rightarrow> u32 list" where
  "sha_round (k, w) [a, b, c, d, e, f, g, h] =
     (let t1 = h + big_sigma1 e + ch e f g + k + w; t2 = big_sigma0 a + maj a b c
      in [t1 + t2, a, b, c, d + t1, e, f, g])"
| "sha_round _ hs = hs"

definition sha_block :: "u32 list \<Rightarrow> u32 list \<Rightarrow> u32 list" where
  "sha_block block hs =
     (let w = rev (extend_schedule 48 (rev block))
      in map2 (+) hs (fold sha_round (zip round_constants w) hs))"

text \<open>Padding: a byte 0x80, zeros, and the length in bits as eight bytes.\<close>

definition be_bytes :: "nat \<Rightarrow> nat \<Rightarrow> nat list" where
  "be_bytes k n = map (\<lambda>i. n div 256 ^ i mod 256) (rev [0..<k])"

definition pad :: "nat list \<Rightarrow> nat list" where
  "pad bytes =
     bytes @ [128] @ replicate ((119 - length bytes mod 64) mod 64) 0 @ be_bytes 8 (8 * length bytes)"

fun be_words :: "nat list \<Rightarrow> u32 list" where
  "be_words (a # b # c # d # r) =
     of_nat (((a * 256 + b) * 256 + c) * 256 + d) # be_words r"
| "be_words _ = []"

function blocks :: "'a list \<Rightarrow> 'a list list" where
  "blocks ws = (if ws = [] then [] else take 16 ws # blocks (drop 16 ws))"
  by pat_completeness auto
termination
  by (relation "measure length") auto

declare blocks.simps [simp del]

definition sha256 :: "nat list \<Rightarrow> u32 list" where
  "sha256 bytes = fold sha_block (blocks (be_words (pad bytes))) initial_hash"

definition hex_char :: "nat \<Rightarrow> char" where
  "hex_char d = (if d < 10 then char_of (48 + d) else char_of (87 + d))"

definition hex_word :: "u32 \<Rightarrow> string" where
  "hex_word w = map (\<lambda>i. hex_char (unat w div 16 ^ i mod 16)) (rev [0..<8])"

definition sha256_hexdigest :: "string \<Rightarrow> string" where
  "sha256_hexdigest s = concat (map hex_word (sha256 (map code s)))"

lemma length_pad: "length (pad bytes) mod 64 = 0"
proof -
  define n where "n = length bytes mod 64"
  define z where "z = (119 - n) mod 64"
  have "n < 64" by (simp add: n_def)
  then have z: "n + 9 + z = 64 \<or> n + 9 + z = 128"
    by (cases "n \<le> 55") (auto simp: z_def mod_if)
  have "length (pad bytes) = length bytes + 9 + z"
    by (simp add: pad_def be_bytes_def z_def n_def)
  then have "length (pad bytes) mod 64 = (n + 9 + z) mod 64"
    by (simp add: n_def mod_simps add.assoc)
  moreover have "(n + 9 + z) mod 64 = 0" using z by presburger
  ultimately show ?thesis by simp
qed

lemma length_sha_round: "length (sha_round kw hs) = length hs"
  by (cases "(kw, hs)" rule: sha_round.cases) (simp_all add: Let_def)

lemma length_sha_rounds: "length (fold sha_round kws hs) = length hs"
  by (induction kws arbitrary: hs) (simp_all add: length_sha_round)

lemma length_sha_blocks: "length (fold sha_block bs hs) = length hs"
  by (induction bs arbitrary: hs) (simp_all add: sha_block_def Let_def length_sha_rounds)

lemma length_sha256_hexdigest: "length (sha256_hexdigest s) = 64"
proof -
  have eight: "length (sha256 b) = 8" for b
    by (simp add: sha256_def length_sha_blocks initial_hash_def)
  have "length (concat (map hex_word ws)) = 8 * length ws" for ws
    by (induction ws) (simp_all add: hex_word_def)
  then show ?thesis by (simp only: sha256_hexdigest_def eight)
qed

lemma hex_char_cases:
  assumes "d < 16"
  shows "48 \<le> code (hex_char d) \<and> code (hex_char d) \<le> 57 \<or> 97 \<le> code (hex_char d) \<and> code (hex_char d) \<le> 102"
  using assms by (auto simp: hex_char_def code_char_of)

lemma sha256_hexdigest_chars:
  "c \<in> set (sha256_hexdigest s) \<Longrightarrow> 48 \<le> code c \<and> code c \<le> 57 \<or> 97 \<le> code c \<and> code c \<le> 102"
proof -
  assume "c \<in> set (sha256_hexdigest s)"
  then obtain w i where "c = hex_char (unat (w :: u32) div 16 ^ i mod 16)"
    by (auto simp: sha256_hexdigest_def hex_word_def)
  then show ?thesis using hex_char_cases [of "unat w div 16 ^ i mod 16"] by simp
qed

end
