(* ===== verification/Fingerprint.thy ===== *)
theory Fingerprint
  imports Diff Sha256
begin

text \<open>
  \<open>domain/fingerprint.py\<close>: the identity under which a change is remembered between scans. The
  lemmas show what the identity distinguishes: the encoded payload determines the source and the
  whole change as long as schema and table names contain no dot, and with dots it does not.
\<close>

definition change_payload :: "string \<Rightarrow> schema_change \<Rightarrow> string" where
  "change_payload source_key change =
     dumps (JObj [(''source'', JStr source_key), (''change'', change_canonical_dict change)])"

definition change_fingerprint :: "string \<Rightarrow> schema_change \<Rightarrow> string" where
  "change_fingerprint source_key change = sha256_hexdigest (change_payload source_key change)"

section \<open>Reading a field back from a sorted dictionary\<close>

lemma map_of_sort_key_fst:
  assumes "distinct (map fst kvs)"
  shows "map_of (sort_key fst kvs) = map_of kvs"
proof -
  have "mset (map fst (sort_key fst kvs)) = mset (map fst kvs)" by (simp only: mset_map mset_sort)
  then have "distinct (map fst (sort_key fst kvs))" using assms mset_eq_imp_distinct_iff by blast
  then show ?thesis using assms by (intro map_of_inject_set [THEN iffD2]) simp_all
qed

lemma sort_keys_field:
  assumes "sort_keys (JObj kvs) = sort_keys (JObj kvs')"
    and "distinct (map fst kvs)" and "distinct (map fst kvs')"
  shows "map_option sort_keys (map_of kvs k) = map_option sort_keys (map_of kvs' k)"
proof -
  have field: "map_of (sort_key fst (map (\<lambda>(k, v). (k, sort_keys v)) kvs)) k = map_option sort_keys (map_of kvs k)"
    if "distinct (map fst kvs)" for kvs
  proof -
    have "map fst (map (\<lambda>(k, v). (k, sort_keys v)) kvs) = map fst kvs" by (induction kvs) auto
    then have "map_of (sort_key fst (map (\<lambda>(k, v). (k, sort_keys v)) kvs)) = map_of (map (\<lambda>(k, v). (k, sort_keys v)) kvs)"
      using that by (intro map_of_sort_key_fst) (simp only:)
    then show ?thesis by (simp add: map_of_map)
  qed
  have "sort_key fst (map (\<lambda>(k, v). (k, sort_keys v)) kvs) = sort_key fst (map (\<lambda>(k, v). (k, sort_keys v)) kvs')"
    using assms(1) by simp
  then show ?thesis using field [OF assms(2)] field [OF assms(3)] by metis
qed

section \<open>What the payload determines\<close>

lemma sort_keys_type_dict:
  assumes "sort_keys (type_canonical_dict t) = sort_keys (type_canonical_dict u)"
  shows "t = u"
proof -
  have ints: "sort_keys (json_int_opt v) = json_int_opt v" for v
    by (cases v) (simp_all add: json_int_opt_def)
  note field = sort_keys_field [OF assms [unfolded type_canonical_dict_def]]
  have "type_name t = type_name u" using field [of "''name''"] by simp
  moreover have "type_length t = type_length u" using field [of "''length''"] by (simp add: ints)
  moreover have "type_precision t = type_precision u" using field [of "''precision''"] by (simp add: ints)
  moreover have "type_scale t = type_scale u" using field [of "''scale''"] by (simp add: ints)
  ultimately show ?thesis by (intro canonical_type.equality) simp_all
qed

lemma sort_keys_column_dict:
  assumes "sort_keys (column_canonical_dict c) = sort_keys (column_canonical_dict d)"
    and "dataset_dot_free (col_dataset c)" and "dataset_dot_free (col_dataset d)"
  shows "c = d"
proof -
  have strs: "sort_keys (json_str_opt v) = json_str_opt v" for v
    by (cases v) (simp_all add: json_str_opt_def)
  note field = sort_keys_field [OF assms(1) [unfolded column_canonical_dict_def]]
  have "col_dataset c = col_dataset d"
    using field [of "''dataset''"] dataset_qualified_name_inj [OF assms(2,3)] by simp
  moreover have "col_name c = col_name d" using field [of "''name''"] by simp
  moreover have "col_type c = col_type d"
    using field [of "''data_type''"] sort_keys_type_dict by simp
  moreover have "col_nullable c = col_nullable d" using field [of "''nullable''"] by simp
  moreover have "col_default c = col_default d" using field [of "''default''"] by (simp add: strs)
  moreover have "col_ordinal c = col_ordinal d" using field [of "''ordinal''"] by simp
  ultimately show ?thesis by (intro column_definition.equality) simp_all
qed

definition column_dot_free :: "column_definition option \<Rightarrow> bool" where
  "column_dot_free c = pred_option (\<lambda>c. dataset_dot_free (col_dataset c)) c"

definition change_dot_free :: "schema_change \<Rightarrow> bool" where
  "change_dot_free c \<longleftrightarrow> dataset_dot_free (change_dataset c) \<and>
     column_dot_free (change_before c) \<and> column_dot_free (change_after c)"

lemma sort_keys_column_opt:
  assumes "sort_keys (json_column_opt b) = sort_keys (json_column_opt b')"
    and "column_dot_free b" and "column_dot_free b'"
  shows "b = b'"
  using assms sort_keys_column_dict
  by (cases b; cases b')
    (auto simp: json_column_opt_def column_dot_free_def column_canonical_dict_def)

lemma sort_keys_change_dict:
  assumes "sort_keys (change_canonical_dict c) = sort_keys (change_canonical_dict d)"
    and "change_dot_free c" and "change_dot_free d"
  shows "c = d"
proof -
  have dots: "dataset_dot_free (change_dataset c)" "dataset_dot_free (change_dataset d)"
    "column_dot_free (change_before c)" "column_dot_free (change_before d)"
    "column_dot_free (change_after c)" "column_dot_free (change_after d)"
    using assms(2,3) by (simp_all add: change_dot_free_def)
  note field = sort_keys_field [OF assms(1) [unfolded change_canonical_dict_def]]
  have "change_dataset c = change_dataset d"
    using field [of "''dataset''"] dataset_qualified_name_inj [OF dots(1,2)] by simp
  moreover have "change_column c = change_column d" using field [of "''column_name''"] by simp
  moreover have "change_kind c = change_kind d" using field [of "''change_type''"] by simp
  moreover have "change_severity c = change_severity d" using field [of "''severity''"] by simp
  moreover have "change_before c = change_before d"
    using field [of "''before''"] sort_keys_column_opt [OF _ dots(3,4)] by simp
  moreover have "change_after c = change_after d"
    using field [of "''after''"] sort_keys_column_opt [OF _ dots(5,6)] by simp
  ultimately show ?thesis by (intro schema_change.equality) simp_all
qed

lemma change_payload_eq:
  assumes "change_payload k c = change_payload k' d" and "change_dot_free c" and "change_dot_free d"
  shows "k = k' \<and> c = d"
proof -
  note field = sort_keys_field [OF dumps_inj [OF assms(1) [unfolded change_payload_def]]]
  have "k = k'" using field [of "''source''"] by simp
  moreover have "c = d"
    using field [of "''change''"] sort_keys_change_dict [OF _ assms(2,3)] by simp
  ultimately show ?thesis by simp
qed

text \<open>The hashed payload identifies a change completely: with schema and table names free of
  dots, two payloads are equal only for the same source and the same change, severity, default and
  ordinal position included.\<close>

theorem change_payload_identifies:
  assumes "change_dot_free c" and "change_dot_free d"
  shows "change_payload k c = change_payload k' d \<longleftrightarrow> k = k' \<and> c = d"
  using change_payload_eq [OF _ assms] by blast

definition sample_drop :: "string \<Rightarrow> string \<Rightarrow> schema_change" where
  "sample_drop schema table =
     (let column = \<lparr>col_dataset = DatasetRef schema table, col_name = ''id'',
            col_type = \<lparr>type_name = ''bigint'', type_length = None, type_precision = None, type_scale = None\<rparr>,
            col_nullable = False, col_default = None, col_ordinal = 1\<rparr>
      in \<lparr>change_dataset = DatasetRef schema table, change_column = ''id'', change_kind = DROP_COLUMN,
          change_severity = BREAKING, change_before = Some column, change_after = None\<rparr>)"

theorem change_payload_identifies_witness:
  "change_payload ''warehouse'' (sample_drop ''public'' ''orders'') \<noteq>
   change_payload ''warehouse'' (sample_drop ''public'' ''users'')"
proof -
  have "change_dot_free (sample_drop ''public'' ''orders'')" "change_dot_free (sample_drop ''public'' ''users'')"
    by (simp_all add: change_dot_free_def sample_drop_def Let_def column_dot_free_def
        dataset_dot_free_def dot_free_def)
  then show ?thesis
    by (simp add: change_payload_identifies) (simp add: sample_drop_def Let_def)
qed

text \<open>Quoted identifiers with dots make different tables share one fingerprint: the same drop in
  table \<open>c\<close> of schema \<open>a.b\<close> and in table \<open>b.c\<close> of schema \<open>a\<close> is one change to every later scan.\<close>

theorem fingerprint_confuses_dotted_names:
  "sample_drop ''a.b'' ''c'' \<noteq> sample_drop ''a'' ''b.c'' \<and>
   change_fingerprint k (sample_drop ''a.b'' ''c'') = change_fingerprint k (sample_drop ''a'' ''b.c'')"
  by (simp add: sample_drop_def Let_def change_fingerprint_def change_payload_def
      change_canonical_dict_def json_column_opt_def column_canonical_dict_def
      dataset_qualified_name_ambiguous)

end
