(* ===== verification/ScanRepo.thy ===== *)
theory ScanRepo
  imports Store Fingerprint PyFloat
begin

text \<open>
  \<open>SqlAlchemyScanRepository\<close> of \<open>repositories/scans.py\<close>: how a scan is recorded, the baseline read
  and written, and the changes of a drift scan merged into the open ones. \<open>collate\<close> is the
  database's string order (its sort keys), \<open>acquired\<close> the answer of the advisory lock, and the
  points in time are those the code reads from the clock.
\<close>

definition update_where :: "('r \<Rightarrow> bool) \<Rightarrow> ('r \<Rightarrow> 'r) \<Rightarrow> 'r list \<Rightarrow> 'r list" where
  "update_where p f rows = map (\<lambda>r. if p r then f r else r) rows"

section \<open>Look-ups\<close>

definition try_source_lock :: "bool \<Rightarrow> bool db" where
  "try_source_lock acquired = query (\<lambda>_. acquired)"

definition find_source :: "string \<Rightarrow> source_row db" where
  "find_source source_key =
     bindA (query (\<lambda>t. List.find (\<lambda>r. src_key r = source_key) (t_sources t)))
       (\<lambda>source. case source of None \<Rightarrow> raiseA (SourceNotFound source_key) | Some r \<Rightarrow> returnA r)"

definition find_scan :: "uuid \<Rightarrow> scan_row db" where
  "find_scan scan_id =
     bindA (query (\<lambda>t. List.find (\<lambda>r. sc_id r = scan_id) (t_scans t)))
       (\<lambda>scan. case scan of None \<Rightarrow> raiseA (LookupError (''scan not found: '' @ show_uuid scan_id)) | Some r \<Rightarrow> returnA r)"

definition row_ref :: "dataset_row \<Rightarrow> dataset_ref" where
  "row_ref d = DatasetRef (ds_schema d) (ds_table d)"

definition datasets_by_ref :: "uuid \<Rightarrow> (dataset_ref \<times> dataset_row) list db" where
  "datasets_by_ref source_id =
     query (\<lambda>t. fold (\<lambda>d m. AList.update (row_ref d) d m)
                  (filter (\<lambda>d. ds_source d = source_id) (t_datasets t)) [])"

section \<open>Reading the baseline and the dependencies\<close>

definition expected_rows :: "(string \<Rightarrow> string) \<Rightarrow> uuid \<Rightarrow> tables \<Rightarrow> (expected_row \<times> dataset_row) list" where
  "expected_rows collate source_id t =
     sort_key (\<lambda>(c, d). (collate (ds_schema d), collate (ds_table d), ex_ordinal c))
       [(c, d). c \<leftarrow> t_expected t, d \<leftarrow> t_datasets t, ex_dataset c = ds_id d \<and> ds_source d = source_id]"

definition column_of_row :: "expected_row \<times> dataset_row \<Rightarrow> py_error + column_definition" where
  "column_of_row = (\<lambda>(c, d).
     bindR (canonical_type_of_json (ex_type c)) (\<lambda>ty.
       Inr \<lparr>col_dataset = row_ref d, col_name = ex_name c, col_type = ty, col_nullable = ex_nullable c,
            col_default = ex_default c, col_ordinal = ex_ordinal c\<rparr>))"

definition load_expected_columns :: "(string \<Rightarrow> string) \<Rightarrow> string \<Rightarrow> column_definition list db" where
  "load_expected_columns collate source_key =
     bindA (find_source source_key) (\<lambda>source.
     bindA (query (expected_rows collate (src_id source))) (\<lambda>rows.
       liftA (mapR column_of_row rows)))"

definition dependency_rows :: "(string \<Rightarrow> string) \<Rightarrow> uuid \<Rightarrow> tables \<Rightarrow> (edge_row \<times> dataset_row) list" where
  "dependency_rows collate source_id t =
     sort_key (\<lambda>(e, d). (collate (ds_schema d), collate (ds_table d), collate (le_up_column e)))
       [(e, d). e \<leftarrow> t_edges t, d \<leftarrow> t_datasets t, le_up_dataset e = ds_id d \<and> ds_source d = source_id]"

definition load_dependency_columns :: "(string \<Rightarrow> string) \<Rightarrow> string \<Rightarrow> column_ref list db" where
  "load_dependency_columns collate source_key =
     bindA (find_source source_key) (\<lambda>source.
     bindA (query (dependency_rows collate (src_id source))) (\<lambda>rows.
       returnA (map (\<lambda>(e, d). ColumnRef (row_ref d) (le_up_column e)) rows)))"

definition expected_column_count :: "(string \<Rightarrow> string) \<Rightarrow> string \<Rightarrow> int db" where
  "expected_column_count collate source_key =
     bindA (load_expected_columns collate source_key) (\<lambda>columns. returnA (int (length columns)))"

section \<open>Writing a scan\<close>

definition create_running_scan :: "string \<Rightarrow> scan_trigger \<Rightarrow> time \<Rightarrow> uuid db" where
  "create_running_scan source_key trigger now =
     bindA (find_source source_key) (\<lambda>source.
     bindA new_id (\<lambda>i.
     thenA (modify (\<lambda>t. t\<lparr>t_scans := t_scans t @
        [\<lparr>sc_id = i, sc_source = src_id source, sc_trigger = trigger, sc_status = RUNNING,
          sc_started = now, sc_finished = None, sc_duration = None, sc_error_code = None,
          sc_error_message = None\<rparr>]\<rparr>))
     (thenA flush (returnA i))))"

definition observed_row_of :: "scan_row \<Rightarrow> uuid \<Rightarrow> column_definition \<Rightarrow> observed_row" where
  "observed_row_of scan i column =
     \<lparr>ob_id = i, ob_scan = sc_id scan, ob_schema = ref_schema (col_dataset column),
      ob_table = ref_table (col_dataset column), ob_name = col_name column,
      ob_type = type_canonical_dict (col_type column), ob_nullable = col_nullable column,
      ob_default = col_default column, ob_ordinal = col_ordinal column\<rparr>"

definition persist_observations :: "scan_row \<Rightarrow> column_definition list \<Rightarrow> unit db" where
  "persist_observations scan observed =
     forA observed () (\<lambda>column _. bindA new_id (\<lambda>i.
       modify (\<lambda>t. t\<lparr>t_observed := t_observed t @ [observed_row_of scan i column]\<rparr>)))"

definition complete_scan :: "scan_row \<Rightarrow> time \<Rightarrow> unit db" where
  "complete_scan scan finished_at =
     modify (\<lambda>t. t\<lparr>t_scans := update_where (\<lambda>r. sc_id r = sc_id scan)
       (\<lambda>r. r\<lparr>sc_status := COMPLETED, sc_finished := Some finished_at,
              sc_duration := Some (duration_ms (sc_started scan) finished_at)\<rparr>) (t_scans t)\<rparr>)"

definition delivery_row_of :: "time \<Rightarrow> scan_row \<Rightarrow> uuid \<Rightarrow> alert_channel \<Rightarrow> delivery_row" where
  "delivery_row_of now scan i channel =
     \<lparr>dl_id = i, dl_scan = sc_id scan, dl_channel = channel, dl_status = PENDING, dl_attempts = 0,
      dl_provider_id = None, dl_error = None, dl_retry = None, dl_sent = None, dl_created = now\<rparr>"

definition create_pending_deliveries :: "alert_channel list \<Rightarrow> time \<Rightarrow> scan_row \<Rightarrow> unit db" where
  "create_pending_deliveries channels now scan =
     forA channels () (\<lambda>channel _. bindA new_id (\<lambda>i.
       modify (\<lambda>t. t\<lparr>t_deliveries := t_deliveries t @ [delivery_row_of now scan i channel]\<rparr>)))"

definition dataset_for ::
  "source_row \<Rightarrow> column_definition \<Rightarrow> (dataset_ref \<times> dataset_row) list
     \<Rightarrow> (dataset_row \<times> (dataset_ref \<times> dataset_row) list) db" where
  "dataset_for source column datasets =
     (case map_of datasets (col_dataset column) of
        Some d \<Rightarrow> returnA (d, datasets)
      | None \<Rightarrow>
          bindA new_id (\<lambda>i.
          let d = \<lparr>ds_id = i, ds_source = src_id source, ds_schema = ref_schema (col_dataset column),
                   ds_table = ref_table (col_dataset column), ds_owner = None, ds_description = None\<rparr>
          in thenA (modify (\<lambda>t. t\<lparr>t_datasets := t_datasets t @ [d]\<rparr>))
               (thenA flush (returnA (d, AList.update (col_dataset column) d datasets)))))"

definition expected_row_of :: "dataset_row \<Rightarrow> uuid \<Rightarrow> column_definition \<Rightarrow> expected_row" where
  "expected_row_of d i column =
     \<lparr>ex_id = i, ex_dataset = ds_id d, ex_name = col_name column,
      ex_type = type_canonical_dict (col_type column), ex_nullable = col_nullable column,
      ex_default = col_default column, ex_ordinal = col_ordinal column\<rparr>"

definition store_expected ::
  "source_row \<Rightarrow> column_definition \<Rightarrow> (dataset_ref \<times> dataset_row) list
     \<Rightarrow> (dataset_ref \<times> dataset_row) list db" where
  "store_expected source column datasets =
     bindA (dataset_for source column datasets) (\<lambda>(d, datasets').
     bindA new_id (\<lambda>i.
     thenA (modify (\<lambda>t. t\<lparr>t_expected := t_expected t @ [expected_row_of d i column]\<rparr>))
     (returnA datasets')))"

definition complete_initial_baseline ::
  "uuid \<Rightarrow> string \<Rightarrow> column_definition list \<Rightarrow> time \<Rightarrow> unit db" where
  "complete_initial_baseline scan_id source_key observed finished_at =
     bindA (find_source source_key) (\<lambda>source.
     bindA (find_scan scan_id) (\<lambda>scan.
     bindA (datasets_by_ref (src_id source)) (\<lambda>datasets.
     bindA (forA observed datasets (store_expected source)) (\<lambda>_.
     thenA (persist_observations scan observed)
     (thenA (complete_scan scan finished_at)
     flush)))))"

section \<open>Merging a drift scan\<close>

definition open_changes_of :: "uuid \<Rightarrow> tables \<Rightarrow> (string \<times> change_row) list" where
  "open_changes_of source_id t =
     fold (\<lambda>c m. AList.update (ch_fingerprint c) c m)
       (filter (\<lambda>c. ch_source c = source_id \<and> ch_state c = OPEN) (t_changes t)) []"

definition change_row_of ::
  "string \<Rightarrow> source_row \<Rightarrow> scan_row \<Rightarrow> time \<Rightarrow> dataset_row \<Rightarrow> uuid \<Rightarrow> schema_change \<Rightarrow> change_row" where
  "change_row_of source_key source scan now d i change =
     \<lparr>ch_id = i, ch_scan = sc_id scan, ch_source = src_id source, ch_dataset = ds_id d,
      ch_column = change_column change, ch_kind = change_kind change,
      ch_severity = change_severity change, ch_state = OPEN,
      ch_fingerprint = change_fingerprint source_key change,
      ch_before = map_option column_canonical_dict (change_before change),
      ch_after = map_option column_canonical_dict (change_after change),
      ch_version = src_version source, ch_accepted = None, ch_resolved = None, ch_created = now\<rparr>"

definition record_change ::
  "string \<Rightarrow> source_row \<Rightarrow> scan_row \<Rightarrow> time \<Rightarrow> (dataset_ref \<times> dataset_row) list \<Rightarrow> (string \<times> change_row) list
     \<Rightarrow> schema_change \<Rightarrow> string set \<times> bool \<Rightarrow> (string set \<times> bool) db" where
  "record_change source_key source scan now datasets open_changes change = (\<lambda>(active, has_new).
     let fingerprint = change_fingerprint source_key change; active' = insert fingerprint active in
     if fingerprint \<in> fst ` set open_changes then returnA (active', has_new)
     else
       let has_new' = (if change_severity change \<in> {WARNING, BREAKING} then True else has_new) in
       case map_of datasets (change_dataset change) of
         None \<Rightarrow> raiseA (LookupError
           (''baseline dataset not found: '' @ dataset_qualified_name (change_dataset change)))
       | Some d \<Rightarrow>
           bindA new_id (\<lambda>i.
           thenA (modify (\<lambda>t. t\<lparr>t_changes := t_changes t @
              [change_row_of source_key source scan now d i change]\<rparr>))
           (returnA (active', has_new'))))"

definition mark_resolved :: "time \<Rightarrow> change_row \<Rightarrow> change_row" where
  "mark_resolved finished_at r = r\<lparr>ch_state := RESOLVED, ch_resolved := Some finished_at\<rparr>"

definition resolve_change :: "string set \<Rightarrow> time \<Rightarrow> string \<times> change_row \<Rightarrow> unit \<Rightarrow> unit db" where
  "resolve_change active finished_at = (\<lambda>(fingerprint, persisted) _.
     if fingerprint \<notin> active then
       modify (\<lambda>t. t\<lparr>t_changes := update_where (\<lambda>r. ch_id r = ch_id persisted)
         (mark_resolved finished_at) (t_changes t)\<rparr>)
     else returnA ())"

definition complete_drift_scan ::
  "alert_channel list \<Rightarrow> time \<Rightarrow> uuid \<Rightarrow> string \<Rightarrow> column_definition list \<Rightarrow> schema_change list \<Rightarrow> time
     \<Rightarrow> unit db" where
  "complete_drift_scan channels now scan_id source_key observed changes finished_at =
     bindA (find_source source_key) (\<lambda>source.
     bindA (find_scan scan_id) (\<lambda>scan.
     bindA (datasets_by_ref (src_id source)) (\<lambda>datasets.
     thenA (persist_observations scan observed)
     (bindA (query (open_changes_of (src_id source))) (\<lambda>open_changes.
      bindA (forA changes ({}, False) (record_change source_key source scan now datasets open_changes))
        (\<lambda>(active, has_new).
      thenA (forA open_changes () (resolve_change active finished_at))
      (thenA (if has_new then create_pending_deliveries channels now scan else returnA ())
      (thenA (complete_scan scan finished_at)
      flush))))))))"

definition fail_scan ::
  "alert_channel list \<Rightarrow> time \<Rightarrow> uuid \<Rightarrow> string \<Rightarrow> string \<Rightarrow> time \<Rightarrow> unit db" where
  "fail_scan channels now scan_id error_code error_message finished_at =
     bindA (find_scan scan_id) (\<lambda>scan.
     thenA (modify (\<lambda>t. t\<lparr>t_scans := update_where (\<lambda>r. sc_id r = sc_id scan)
       (\<lambda>r. r\<lparr>sc_status := scan_status.FAILED, sc_finished := Some finished_at,
              sc_duration := Some (duration_ms (sc_started scan) finished_at),
              sc_error_code := Some error_code, sc_error_message := Some error_message\<rparr>) (t_scans t)\<rparr>))
     (thenA (create_pending_deliveries channels now scan)
     flush))"

section \<open>Loops that insert rows\<close>

lemma forA_insert:
  "forA xs () (\<lambda>x _. bindA new_id (\<lambda>i. modify (f i x))) s =
     (Inr (), s\<lparr>work := fold (\<lambda>(i, x). f i x) (zip [id_supply s..<id_supply s + length xs] xs) (work s),
                id_supply := id_supply s + length xs\<rparr>)"
proof (induction xs arbitrary: s)
  case (Cons x xs)
  let ?body = "\<lambda>x _. bindA new_id (\<lambda>i. modify (f i x))"
  let ?s = "s\<lparr>id_supply := Suc (id_supply s), work := f (id_supply s) x (work s)\<rparr>"
  have "[id_supply s..<id_supply s + length (x # xs)] =
      id_supply s # [Suc (id_supply s)..<Suc (id_supply s) + length xs]"
    by (simp add: upt_conv_Cons del: upt_Suc)
  then have z: "fold (\<lambda>(i, x). f i x) (zip [id_supply s..<id_supply s + length (x # xs)] (x # xs)) (work s) =
      fold (\<lambda>(i, x). f i x) (zip [Suc (id_supply s)..<Suc (id_supply s) + length xs] xs) (f (id_supply s) x (work s))"
    by (simp only: zip_Cons_Cons fold_simps case_prod_conv comp_apply)
  have "forA (x # xs) () ?body s = forA xs () ?body ?s"
    by (simp add: bindA_def new_id_def modify_def)
  also have "\<dots> = (Inr (), ?s\<lparr>work := fold (\<lambda>(i, x). f i x) (zip [id_supply ?s..<id_supply ?s + length xs] xs) (work ?s),
                id_supply := id_supply ?s + length xs\<rparr>)"
    by (rule Cons.IH)
  finally show ?case unfolding z by simp
qed simp

definition fresh_rows :: "(uuid \<Rightarrow> 'x \<Rightarrow> 'r) \<Rightarrow> uuid \<Rightarrow> 'x list \<Rightarrow> 'r list" where
  "fresh_rows row n xs = map (\<lambda>(i, x). row i x) (zip [n..<n + length xs] xs)"

lemma length_fresh_rows [simp]: "length (fresh_rows row n xs) = length xs"
  by (simp add: fresh_rows_def)

lemma fresh_rows_image:
  assumes "\<And>i x. g (row i x) = h x"
  shows "map g (fresh_rows row n xs) = map h xs"
proof -
  have "map g (fresh_rows row n xs) = map h (map snd (zip [n..<n + length xs] xs))"
    unfolding fresh_rows_def map_map by (rule map_cong) (auto simp: assms)
  then show ?thesis by (simp only: map_snd_zip length_upt diff_add_inverse)
qed

lemma persist_observations_run:
  "persist_observations scan observed s =
     (Inr (), s\<lparr>work := (work s)\<lparr>t_observed := t_observed (work s) @
                  fresh_rows (observed_row_of scan) (id_supply s) observed\<rparr>,
                id_supply := id_supply s + length observed\<rparr>)"
proof -
  have "fold (\<lambda>(i, x) t. t\<lparr>t_observed := t_observed t @ [observed_row_of scan i x]\<rparr>) ixs t =
      t\<lparr>t_observed := t_observed t @ map (\<lambda>(i, x). observed_row_of scan i x) ixs\<rparr>" for ixs and t :: tables
    by (induction ixs arbitrary: t) auto
  then show ?thesis unfolding persist_observations_def forA_insert fresh_rows_def by simp
qed

lemma create_pending_deliveries_run:
  "create_pending_deliveries channels now scan s =
     (Inr (), s\<lparr>work := (work s)\<lparr>t_deliveries := t_deliveries (work s) @
                  fresh_rows (delivery_row_of now scan) (id_supply s) channels\<rparr>,
                id_supply := id_supply s + length channels\<rparr>)"
proof -
  have "fold (\<lambda>(i, x) t. t\<lparr>t_deliveries := t_deliveries t @ [delivery_row_of now scan i x]\<rparr>) ixs t =
      t\<lparr>t_deliveries := t_deliveries t @ map (\<lambda>(i, x). delivery_row_of now scan i x) ixs\<rparr>" for ixs and t :: tables
    by (induction ixs arbitrary: t) auto
  then show ?thesis unfolding create_pending_deliveries_def forA_insert fresh_rows_def by simp
qed

end
