(* ===== verification/DriftMerge.thy ===== *)
theory DriftMerge
  imports ScanRepo
begin

text \<open>
  What \<open>complete_drift_scan\<close> and \<open>fail_scan\<close> do to the tables, in closed form: the loops over the
  changes and over the open changes as one update of the list of rows, and from it the rules that
  a drift scan keeps: which changes are open afterwards, which are resolved, when alerts are
  queued.
\<close>

section \<open>The loop over the changes\<close>

lemma record_change_known:
  "change_fingerprint key c \<in> fst ` set opens \<Longrightarrow>
     record_change key source scan now datasets opens c (active, has) s =
       (Inr (insert (change_fingerprint key c) active, has), s)"
  by (simp add: record_change_def Let_def)

lemma record_change_missing:
  "change_fingerprint key c \<notin> fst ` set opens \<Longrightarrow> map_of datasets (change_dataset c) = None \<Longrightarrow>
     record_change key source scan now datasets opens c (active, has) s =
       (Inl (LookupError (''baseline dataset not found: '' @ dataset_qualified_name (change_dataset c))), s)"
  by (simp add: record_change_def Let_def)

lemma record_change_new:
  "change_fingerprint key c \<notin> fst ` set opens \<Longrightarrow> map_of datasets (change_dataset c) = Some d \<Longrightarrow>
     record_change key source scan now datasets opens c (active, has) s =
       (Inr (insert (change_fingerprint key c) active, has \<or> change_severity c \<in> {WARNING, BREAKING}),
        s\<lparr>id_supply := Suc (id_supply s),
          work := (work s)\<lparr>t_changes := t_changes (work s) @ [change_row_of key source scan now d (id_supply s) c]\<rparr>\<rparr>)"
  by (simp add: record_change_def Let_def bindA_def thenA_def new_id_def modify_def)

lemma record_changes_Inr:
  assumes "forA changes (active, has) (record_change key source scan now datasets opens) s = (Inr (active', has'), s')"
  shows "active' = active \<union> change_fingerprint key ` set changes \<and>
    (has' \<longleftrightarrow> has \<or> (\<exists>c \<in> set changes. change_fingerprint key c \<notin> fst ` set opens \<and>
        change_severity c \<in> {WARNING, BREAKING})) \<and>
    (\<exists>rows. s' = s\<lparr>work := (work s)\<lparr>t_changes := t_changes (work s) @ rows\<rparr>,
                   id_supply := id_supply s + length rows\<rparr> \<and>
       list_all2 (\<lambda>c r. \<exists>i d. map_of datasets (change_dataset c) = Some d \<and>
                    r = change_row_of key source scan now d i c)
         (filter (\<lambda>c. change_fingerprint key c \<notin> fst ` set opens) changes) rows)"
  using assms
proof (induction changes arbitrary: active has s)
  case Nil
  then show ?case by (auto intro!: exI [of _ "[]"])
next
  case (Cons c changes)
  let ?fp = "change_fingerprint key c"
  show ?case
  proof (cases "?fp \<in> fst ` set opens")
    case True
    then have "forA changes (insert ?fp active, has) (record_change key source scan now datasets opens) s =
        (Inr (active', has'), s')"
      using Cons.prems by (simp only: forA_step(1) [where f = "record_change key source scan now datasets opens", OF record_change_known [OF True]])
    from Cons.IH [OF this] True show ?thesis by auto
  next
    case False
    then obtain d where d: "map_of datasets (change_dataset c) = Some d"
      using Cons.prems forA_step(2) [where f = "record_change key source scan now datasets opens", OF record_change_missing [OF False]]
      by (cases "map_of datasets (change_dataset c)") simp_all
    let ?r = "change_row_of key source scan now d (id_supply s) c"
    let ?has = "has \<or> change_severity c \<in> {WARNING, BREAKING}"
    let ?s = "s\<lparr>id_supply := Suc (id_supply s), work := (work s)\<lparr>t_changes := t_changes (work s) @ [?r]\<rparr>\<rparr>"
    have "forA changes (insert ?fp active, ?has) (record_change key source scan now datasets opens) ?s =
        (Inr (active', has'), s')"
      using Cons.prems by (simp only: forA_step(1) [where f = "record_change key source scan now datasets opens", OF record_change_new [OF False d]])
    note IH = Cons.IH [OF this]
    then obtain rows where s': "s' = ?s\<lparr>work := (work ?s)\<lparr>t_changes := t_changes (work ?s) @ rows\<rparr>,
        id_supply := id_supply ?s + length rows\<rparr>"
      and rows: "list_all2 (\<lambda>c r. \<exists>i d. map_of datasets (change_dataset c) = Some d \<and>
          r = change_row_of key source scan now d i c)
        (filter (\<lambda>c. change_fingerprint key c \<notin> fst ` set opens) changes) rows" by blast
    have "s' = s\<lparr>work := (work s)\<lparr>t_changes := t_changes (work s) @ (?r # rows)\<rparr>,
        id_supply := id_supply s + length (?r # rows)\<rparr>"
      unfolding s' by simp
    moreover have "list_all2 (\<lambda>c r. \<exists>i d. map_of datasets (change_dataset c) = Some d \<and>
          r = change_row_of key source scan now d i c)
        (filter (\<lambda>c. change_fingerprint key c \<notin> fst ` set opens) (c # changes)) (?r # rows)"
      using rows d False by auto
    ultimately have "\<exists>rows. s' = s\<lparr>work := (work s)\<lparr>t_changes := t_changes (work s) @ rows\<rparr>,
                   id_supply := id_supply s + length rows\<rparr> \<and>
       list_all2 (\<lambda>c r. \<exists>i d. map_of datasets (change_dataset c) = Some d \<and>
                    r = change_row_of key source scan now d i c)
         (filter (\<lambda>c. change_fingerprint key c \<notin> fst ` set opens) (c # changes)) rows"
      by blast
    moreover have "active' = active \<union> change_fingerprint key ` set (c # changes)" using IH by auto
    moreover have "has' \<longleftrightarrow> has \<or> (\<exists>c \<in> set (c # changes). change_fingerprint key c \<notin> fst ` set opens \<and>
        change_severity c \<in> {WARNING, BREAKING})"
      using IH False by auto
    ultimately show ?thesis by (intro conjI)
  qed
qed

section \<open>The loop over the open changes\<close>

lemma mark_resolved_simps [simp]:
  "ch_id (mark_resolved f r) = ch_id r" "ch_state (mark_resolved f r) = RESOLVED"
  "ch_source (mark_resolved f r) = ch_source r" "ch_fingerprint (mark_resolved f r) = ch_fingerprint r"
  "ch_scan (mark_resolved f r) = ch_scan r" "ch_dataset (mark_resolved f r) = ch_dataset r"
  "mark_resolved f (mark_resolved f r) = mark_resolved f r"
  by (simp_all add: mark_resolved_def)

lemma update_where_twice:
  assumes "\<And>r. p (f r) = p r" and "\<And>r. f (f r) = f r" and "\<And>r. q (f r) = q r"
  shows "update_where p f (update_where q f rows) = update_where (\<lambda>r. p r \<or> q r) f rows"
  unfolding update_where_def map_map by (rule map_cong) (auto simp: assms)

lemma update_where_none: "(\<And>r. r \<in> set rows \<Longrightarrow> \<not> p r) \<Longrightarrow> update_where p f rows = rows"
  unfolding update_where_def by (rule map_idI) simp

lemma update_where_cong: "(\<And>r. r \<in> set rows \<Longrightarrow> p r = q r) \<Longrightarrow> update_where p f rows = update_where q f rows"
  unfolding update_where_def by (rule map_cong) auto

lemma resolve_changes_run:
  "forA opens () (resolve_change active fin) s =
     (Inr (), s\<lparr>work := (work s)\<lparr>t_changes :=
        update_where (\<lambda>r. ch_id r \<in> ch_id ` snd ` {x \<in> set opens. fst x \<notin> active}) (mark_resolved fin)
          (t_changes (work s))\<rparr>\<rparr>)"
proof (induction opens arbitrary: s)
  case Nil
  then show ?case by (simp add: update_where_none)
next
  case (Cons x opens)
  obtain fp p where x: "x = (fp, p)" by fastforce
  show ?case
  proof (cases "fp \<in> active")
    case True
    then have "{y \<in> set (x # opens). fst y \<notin> active} = {y \<in> set opens. fst y \<notin> active}"
      by (auto simp: x)
    then show ?thesis using True Cons.IH [of s] by (simp add: x resolve_change_def)
  next
    case False
    let ?s = "s\<lparr>work := (work s)\<lparr>t_changes := update_where (\<lambda>r. ch_id r = ch_id p) (mark_resolved fin) (t_changes (work s))\<rparr>\<rparr>"
    have "forA (x # opens) () (resolve_change active fin) s = forA opens () (resolve_change active fin) ?s"
      using False by (simp add: x resolve_change_def bindA_def modify_def)
    moreover have "update_where (\<lambda>r. ch_id r \<in> ch_id ` snd ` {x \<in> set opens. fst x \<notin> active}) (mark_resolved fin)
        (update_where (\<lambda>r. ch_id r = ch_id p) (mark_resolved fin) rows) =
      update_where (\<lambda>r. ch_id r \<in> ch_id ` snd ` {y \<in> set (x # opens). fst y \<notin> active}) (mark_resolved fin) rows" for rows
    proof -
      have "{y \<in> set (x # opens). fst y \<notin> active} = insert x {y \<in> set opens. fst y \<notin> active}"
        using False by (auto simp: x)
      then show ?thesis by (subst update_where_twice) (auto simp: x intro!: update_where_cong)
    qed
    ultimately show ?thesis by (simp add: Cons.IH)
  qed
qed

section \<open>The whole merge\<close>

definition open_row :: "uuid \<Rightarrow> change_row \<Rightarrow> bool" where
  "open_row source_id r \<longleftrightarrow> ch_source r = source_id \<and> ch_state r = OPEN"

definition open_fingerprints :: "uuid \<Rightarrow> tables \<Rightarrow> string set" where
  "open_fingerprints source_id t = ch_fingerprint ` {r \<in> set (t_changes t). open_row source_id r}"

lemma open_changes_pairs:
  assumes "integrity_ok t"
  shows "open_changes_of source_id t =
    map (\<lambda>r. (ch_fingerprint r, r)) (filter (open_row source_id) (t_changes t))"
proof -
  have "distinct (map (\<lambda>c. (ch_source c, ch_fingerprint c)) (filter (\<lambda>c. ch_state c = OPEN) (t_changes t)))"
    using assms by (simp add: integrity_ok_def change_constraints_def unique_on_def)
  moreover have "filter (open_row source_id) (t_changes t) =
      filter (\<lambda>c. ch_source c = source_id) (filter (\<lambda>c. ch_state c = OPEN) (t_changes t))"
    by (simp add: open_row_def [abs_def] conj_commute)
  ultimately have "distinct (map (\<lambda>c. (ch_source c, ch_fingerprint c)) (filter (open_row source_id) (t_changes t)))"
    by (simp only: distinct_map_filter)
  then have "distinct (map ch_fingerprint (filter (open_row source_id) (t_changes t)))"
    by (auto simp: distinct_map inj_on_def open_row_def)
  then show ?thesis
    using fold_update_distinct [of ch_fingerprint "filter (open_row source_id) (t_changes t)"]
    by (simp add: open_changes_of_def open_row_def [abs_def])
qed

lemma find_source_Inr [action_simps]:
  "find_source key s = (Inr r, s') \<longleftrightarrow>
     s' = s \<and> usable s \<and> List.find (\<lambda>r. src_key r = key) (t_sources (work s)) = Some r"
  by (auto simp: find_source_def action_simps usable_def split: option.splits)

lemma find_scan_Inr [action_simps]:
  "find_scan i s = (Inr r, s') \<longleftrightarrow>
     s' = s \<and> usable s \<and> List.find (\<lambda>r. sc_id r = i) (t_scans (work s)) = Some r"
  by (auto simp: find_scan_def action_simps usable_def split: option.splits)

definition finish_row :: "time \<Rightarrow> scan_row \<Rightarrow> scan_row" where
  "finish_row fin r =
     r\<lparr>sc_status := COMPLETED, sc_finished := Some fin, sc_duration := Some (duration_ms (sc_started r) fin)\<rparr>"

definition alert_due :: "string \<Rightarrow> string set \<Rightarrow> schema_change list \<Rightarrow> bool" where
  "alert_due key known changes \<longleftrightarrow>
     (\<exists>c \<in> set changes. change_fingerprint key c \<notin> known \<and> change_severity c \<in> {WARNING, BREAKING})"

definition recorded_as ::
  "string \<Rightarrow> source_row \<Rightarrow> scan_row \<Rightarrow> time \<Rightarrow> tables \<Rightarrow> schema_change \<Rightarrow> change_row \<Rightarrow> bool" where
  "recorded_as key source scan now t c r \<longleftrightarrow>
     (\<exists>i d. d \<in> set (t_datasets t) \<and> ds_source d = src_id source \<and> row_ref d = change_dataset c \<and>
        r = change_row_of key source scan now d i c)"

lemma datasets_by_ref_map_of:
  assumes "map_of (fold (\<lambda>d m. AList.update (row_ref d) d m)
      (filter (\<lambda>d. ds_source d = sid) (t_datasets t)) []) ref = Some d"
  shows "d \<in> set (t_datasets t) \<and> ds_source d = sid \<and> row_ref d = ref"
proof -
  have "\<forall>(k, d) \<in> set (fold (\<lambda>d m. AList.update (row_ref d) d m) ds m).
      d \<in> set ds \<union> snd ` set m \<and> (d \<in> set ds \<longrightarrow> True) \<and> ((k, d) \<in> set m \<or> row_ref d = k)" for ds m
  proof (induction ds arbitrary: m)
    case (Cons d ds)
    have "set (AList.update (row_ref d) d m) \<subseteq> insert (row_ref d, d) (set m)"
      by (induction m) auto
    then show ?case using Cons [of "AList.update (row_ref d) d m"] by (fastforce simp: image_iff)
  qed force
  from this [of "filter (\<lambda>d. ds_source d = sid) (t_datasets t)" "[]"] map_of_SomeD [OF assms]
  show ?thesis by auto
qed

lemma complete_drift_scan_Inr:
  assumes "complete_drift_scan channels now scan_id key observed changes fin s = (Inr (), s')"
  obtains source scan rows n where
    "List.find (\<lambda>r. src_key r = key) (t_sources (work s)) = Some source"
    and "List.find (\<lambda>r. sc_id r = scan_id) (t_scans (work s)) = Some scan"
    and "usable s" and "usable s'" and "durable s' = durable s"
    and "t_changes (work s') =
      update_where (\<lambda>r. open_row (src_id source) r \<and> ch_fingerprint r \<notin> change_fingerprint key ` set changes)
        (mark_resolved fin) (t_changes (work s)) @ rows"
    and "list_all2 (recorded_as key source scan now (work s))
      (filter (\<lambda>c. change_fingerprint key c \<notin> open_fingerprints (src_id source) (work s)) changes) rows"
    and "t_deliveries (work s') = t_deliveries (work s) @
      (if alert_due key (open_fingerprints (src_id source) (work s)) changes
       then fresh_rows (delivery_row_of now scan) n channels else [])"
    and "t_scans (work s') = update_where (\<lambda>r. sc_id r = scan_id)
      (\<lambda>r. r\<lparr>sc_status := COMPLETED, sc_finished := Some fin, sc_duration := Some (duration_ms (sc_started scan) fin)\<rparr>)
      (t_scans (work s))"
    and "t_sources (work s') = t_sources (work s)" and "t_datasets (work s') = t_datasets (work s)"
    and "t_expected (work s') = t_expected (work s)" and "t_edges (work s') = t_edges (work s)"
    and "t_pipelines (work s') = t_pipelines (work s)"
proof -
  let ?fp = "change_fingerprint key"
  obtain source scan where src: "List.find (\<lambda>r. src_key r = key) (t_sources (work s)) = Some source"
    and scn: "List.find (\<lambda>r. sc_id r = scan_id) (t_scans (work s)) = Some scan" and us: "usable s"
    using assms by (auto simp: complete_drift_scan_def action_simps)
  define datasets where "datasets = fold (\<lambda>d m. AList.update (row_ref d) d m)
      (filter (\<lambda>d. ds_source d = src_id source) (t_datasets (work s))) []"
  define s1 where "s1 = s\<lparr>work := (work s)\<lparr>t_observed := t_observed (work s) @
      fresh_rows (observed_row_of scan) (id_supply s) observed\<rparr>, id_supply := id_supply s + length observed\<rparr>"
  define opens where "opens = open_changes_of (src_id source) (work s1)"
  have steps: "find_source key s = (Inr source, s)" "find_scan scan_id s = (Inr scan, s)"
    "datasets_by_ref (src_id source) s = (Inr datasets, s)"
    "persist_observations scan observed s = (Inr (), s1)"
    using us src scn
    by (simp_all add: find_source_Inr find_scan_Inr datasets_by_ref_def usable_run(2) datasets_def
        persist_observations_run s1_def)
  have "bindA (query (open_changes_of (src_id source))) (\<lambda>opens.
      bindA (forA changes ({}, False) (record_change key source scan now datasets opens)) (\<lambda>(active, has).
        thenA (forA opens () (resolve_change active fin))
        (thenA (if has then create_pending_deliveries channels now scan else returnA ())
        (thenA (complete_scan scan fin) flush)))) s1 = (Inr (), s')"
    using assms
    by (simp only: complete_drift_scan_def bindA_step(1) [where m = "find_source key", OF steps(1)]
        bindA_step(1) [where m = "find_scan scan_id", OF steps(2)]
        bindA_step(1) [where m = "datasets_by_ref (src_id source)", OF steps(3)]
        thenA_step(1) [where m = "persist_observations scan observed", OF steps(4)])
  then obtain active has s2 where u1: "usable s1"
    and loop: "forA changes ({}, False) (record_change key source scan now datasets opens) s1 = (Inr (active, has), s2)"
    and rest: "thenA (forA opens () (resolve_change active fin))
      (thenA (if has then create_pending_deliveries channels now scan else returnA ())
      (thenA (complete_scan scan fin) flush)) s2 = (Inr (), s')"
    unfolding opens_def usable_def by (fastforce simp: bindA_eq_Inr query_eq_Inr)
  have scan_id: "sc_id scan = scan_id" using scn by (auto simp: find_Some_iff)
  have "integrity_ok (work s1)" using u1 by (simp add: usable_def)
  then have opens: "opens = map (\<lambda>r. (ch_fingerprint r, r)) (filter (open_row (src_id source)) (t_changes (work s)))"
    using open_changes_pairs [of "work s1" "src_id source"] by (simp add: opens_def s1_def)
  have known: "fst ` set opens = open_fingerprints (src_id source) (work s)"
    by (simp add: opens open_fingerprints_def image_image)
  obtain rows where active: "active = ?fp ` set changes"
    and has: "has \<longleftrightarrow> alert_due key (open_fingerprints (src_id source) (work s)) changes"
    and s2: "s2 = s1\<lparr>work := (work s1)\<lparr>t_changes := t_changes (work s1) @ rows\<rparr>, id_supply := id_supply s1 + length rows\<rparr>"
    and rows: "list_all2 (\<lambda>c r. \<exists>i d. map_of datasets (change_dataset c) = Some d \<and> r = change_row_of key source scan now d i c)
        (filter (\<lambda>c. ?fp c \<notin> open_fingerprints (src_id source) (work s)) changes) rows"
    using record_changes_Inr [OF loop] by (auto simp: known alert_due_def)
  have recorded: "list_all2 (recorded_as key source scan now (work s))
      (filter (\<lambda>c. ?fp c \<notin> open_fingerprints (src_id source) (work s)) changes) rows"
    using rows
    by (rule list_all2_mono) (auto simp: recorded_as_def datasets_def dest!: datasets_by_ref_map_of)
  define stale where "stale = ch_id ` snd ` {x \<in> set opens. fst x \<notin> active}"
  define changes' where "changes' = update_where (\<lambda>r. ch_id r \<in> stale) (mark_resolved fin) (t_changes (work s) @ rows)"
  define n where "n = id_supply s2"
  have fin: "t_changes (work s') = changes'" "usable s'" "durable s' = durable s"
    "t_deliveries (work s') = t_deliveries (work s) @ (if has then fresh_rows (delivery_row_of now scan) n channels else [])"
    "t_scans (work s') = update_where (\<lambda>r. sc_id r = scan_id)
      (\<lambda>r. r\<lparr>sc_status := COMPLETED, sc_finished := Some fin, sc_duration := Some (duration_ms (sc_started scan) fin)\<rparr>)
      (t_scans (work s))"
    "t_sources (work s') = t_sources (work s)" "t_datasets (work s') = t_datasets (work s)"
    "t_expected (work s') = t_expected (work s)" "t_edges (work s') = t_edges (work s)"
    "t_pipelines (work s') = t_pipelines (work s)"
    using rest
    by (auto simp: action_simps resolve_changes_run create_pending_deliveries_run complete_scan_def scan_id
        usable_def changes'_def stale_def s2 s1_def n_def split: if_splits)
  have ids: "distinct (map ch_id (t_changes (work s) @ rows))"
  proof -
    have "distinct (map ch_id changes')"
      using fin(1,2) by (simp add: usable_def integrity_ok_def change_constraints_def unique_on_def)
    moreover have "map ch_id changes' = map ch_id (t_changes (work s) @ rows)"
      unfolding changes'_def update_where_def map_map by (rule map_cong) auto
    ultimately show ?thesis by metis
  qed
  have old: "ch_id r \<in> stale \<longleftrightarrow> open_row (src_id source) r \<and> ch_fingerprint r \<notin> ?fp ` set changes"
    if "r \<in> set (t_changes (work s))" for r
  proof -
    have "r' = r" if "r' \<in> set (t_changes (work s))" "ch_id r' = ch_id r" for r'
      using ids that \<open>r \<in> set (t_changes (work s))\<close> by (auto simp: distinct_map dest: inj_onD)
    then show ?thesis using that by (auto simp: stale_def opens active image_iff)
  qed
  have new: "ch_id r \<notin> stale" if "r \<in> set rows" for r
  proof -
    have "ch_id r \<notin> ch_id ` set (t_changes (work s))" using ids that by auto
    then show ?thesis by (auto simp: stale_def opens)
  qed
  have merged: "changes' = update_where (\<lambda>r. open_row (src_id source) r \<and> ch_fingerprint r \<notin> ?fp ` set changes)
      (mark_resolved fin) (t_changes (work s)) @ rows"
    using old new update_where_none [of rows "\<lambda>r. ch_id r \<in> stale" "mark_resolved fin"]
      update_where_cong [of "t_changes (work s)" "\<lambda>r. ch_id r \<in> stale"]
    unfolding changes'_def by (simp add: update_where_def)
  show thesis
    by (rule that [OF src scn us fin(2,3) fin(1) [unfolded merged] recorded fin(4) [unfolded has] fin(5-10)])
qed

section \<open>What a drift scan leaves behind\<close>

lemma recorded_rows:
  assumes "list_all2 (recorded_as key source scan now t) cs rows"
  shows "map ch_fingerprint rows = map (change_fingerprint key) cs"
    and "r \<in> set rows \<Longrightarrow> open_row (src_id source) r"
  using assms
  by (induction rule: list_all2_induct) (auto simp: recorded_as_def change_row_of_def open_row_def)

lemma open_after_merge:
  assumes "list_all2 (recorded_as key source scan now t)
      (filter (\<lambda>c. change_fingerprint key c \<notin> open_fingerprints (src_id source) t) changes) rows"
    and "t_changes t' = update_where (\<lambda>r. open_row (src_id source) r \<and>
        ch_fingerprint r \<notin> change_fingerprint key ` set changes) (mark_resolved fin) (t_changes t) @ rows"
  shows "open_fingerprints (src_id source) t' = change_fingerprint key ` set changes"
proof -
  let ?fp = "change_fingerprint key"
  have new: "ch_fingerprint ` set rows = ?fp ` {c \<in> set changes. ?fp c \<notin> open_fingerprints (src_id source) t}"
    using arg_cong [OF recorded_rows(1) [OF assms(1)], of set] by simp
  have "open_fingerprints (src_id source) t' =
      {f \<in> open_fingerprints (src_id source) t. f \<in> ?fp ` set changes} \<union> ch_fingerprint ` set rows"
    using recorded_rows(2) [OF assms(1)]
    by (auto simp: open_fingerprints_def assms(2) update_where_def open_row_def split: if_splits)
  then show ?thesis unfolding new by auto
qed

text \<open>C3. After a completed drift scan the open changes of the source are exactly the differences it
  found, by fingerprint: every difference is open, nothing else is, and what is no longer
  observed has been resolved at the end of this scan. Changes of other sources and changes that
  were accepted or resolved before stay as they were.\<close>

theorem drift_scan_open_changes:
  assumes "complete_drift_scan channels now scan_id key observed changes fin s = (Inr (), s')"
    and "List.find (\<lambda>r. src_key r = key) (t_sources (work s)) = Some source"
  shows "open_fingerprints (src_id source) (work s') = change_fingerprint key ` set changes \<and>
    (\<forall>r \<in> set (t_changes (work s)).
       (if open_row (src_id source) r \<and> ch_fingerprint r \<notin> change_fingerprint key ` set changes
        then mark_resolved fin r else r) \<in> set (t_changes (work s')))"
proof -
  obtain source' scan rows where "List.find (\<lambda>r. src_key r = key) (t_sources (work s)) = Some source'"
    and c: "t_changes (work s') =
      update_where (\<lambda>r. open_row (src_id source') r \<and> ch_fingerprint r \<notin> change_fingerprint key ` set changes)
        (mark_resolved fin) (t_changes (work s)) @ rows"
    and r: "list_all2 (recorded_as key source' scan now (work s))
      (filter (\<lambda>c. change_fingerprint key c \<notin> open_fingerprints (src_id source') (work s)) changes) rows"
    by (rule complete_drift_scan_Inr [OF assms(1)])
  then have [simp]: "source' = source" using assms(2) by simp
  show ?thesis
    using open_after_merge [OF r c] by (auto simp: c update_where_def)
qed

text \<open>C27. Alerts are queued exactly when a drift scan finds a \<open>WARNING\<close> or \<open>BREAKING\<close> difference
  that was not open before: then one pending delivery per configured channel, otherwise none.\<close>

theorem drift_scan_alerts:
  assumes "complete_drift_scan channels now scan_id key observed changes fin s = (Inr (), s')"
    and "List.find (\<lambda>r. src_key r = key) (t_sources (work s)) = Some source"
  shows "\<exists>new. t_deliveries (work s') = t_deliveries (work s) @ new \<and>
    map (\<lambda>d. (dl_scan d, dl_channel d, dl_status d, dl_attempts d)) new =
      (if \<exists>c \<in> set changes. change_fingerprint key c \<notin> open_fingerprints (src_id source) (work s) \<and>
            change_severity c \<in> {WARNING, BREAKING}
       then map (\<lambda>c. (scan_id, c, PENDING, 0)) channels else [])"
proof -
  obtain source' scan rows n where "List.find (\<lambda>r. src_key r = key) (t_sources (work s)) = Some source'"
    and scan: "List.find (\<lambda>r. sc_id r = scan_id) (t_scans (work s)) = Some scan"
    and d: "t_deliveries (work s') = t_deliveries (work s) @
      (if alert_due key (open_fingerprints (src_id source') (work s)) changes
       then fresh_rows (delivery_row_of now scan) n channels else [])"
    by (rule complete_drift_scan_Inr [OF assms(1)])
  then have [simp]: "source' = source" using assms(2) by simp
  have "sc_id scan = scan_id" using scan by (auto simp: find_Some_iff)
  then have "map (\<lambda>d. (dl_scan d, dl_channel d, dl_status d, dl_attempts d)) (fresh_rows (delivery_row_of now scan) n channels) =
      map (\<lambda>c. (scan_id, c, PENDING, 0)) channels"
    by (intro fresh_rows_image) (simp add: delivery_row_of_def)
  then show ?thesis
    using d unfolding alert_due_def [symmetric]
    by (cases "alert_due key (open_fingerprints (src_id source) (work s)) changes") simp_all
qed

text \<open>C35. Scanning again while the same differences persist changes nothing: no change row is added
  or resolved, and no alert is queued.\<close>

theorem drift_scan_idempotent:
  assumes "complete_drift_scan channels now scan_id key observed changes fin s = (Inr (), s')"
    and "complete_drift_scan channels now' scan_id' key observed' changes fin' s' = (Inr (), s'')"
  shows "t_changes (work s'') = t_changes (work s') \<and> t_deliveries (work s'') = t_deliveries (work s')"
proof -
  obtain source scan rows where src: "List.find (\<lambda>r. src_key r = key) (t_sources (work s)) = Some source"
    and c: "t_changes (work s') =
      update_where (\<lambda>r. open_row (src_id source) r \<and> ch_fingerprint r \<notin> change_fingerprint key ` set changes)
        (mark_resolved fin) (t_changes (work s)) @ rows"
    and r: "list_all2 (recorded_as key source scan now (work s))
      (filter (\<lambda>c. change_fingerprint key c \<notin> open_fingerprints (src_id source) (work s)) changes) rows"
    and srcs: "t_sources (work s') = t_sources (work s)"
    by (rule complete_drift_scan_Inr [OF assms(1)])
  have opens: "open_fingerprints (src_id source) (work s') = change_fingerprint key ` set changes"
    by (rule open_after_merge [OF r c])
  obtain source' scan' rows' n where "List.find (\<lambda>r. src_key r = key) (t_sources (work s')) = Some source'"
    and c': "t_changes (work s'') =
      update_where (\<lambda>r. open_row (src_id source') r \<and> ch_fingerprint r \<notin> change_fingerprint key ` set changes)
        (mark_resolved fin') (t_changes (work s')) @ rows'"
    and r': "list_all2 (recorded_as key source' scan' now' (work s'))
      (filter (\<lambda>c. change_fingerprint key c \<notin> open_fingerprints (src_id source') (work s')) changes) rows'"
    and d': "t_deliveries (work s'') = t_deliveries (work s') @
      (if alert_due key (open_fingerprints (src_id source') (work s')) changes
       then fresh_rows (delivery_row_of now' scan') n channels else [])"
    by (rule complete_drift_scan_Inr [OF assms(2)])
  then have [simp]: "source' = source" using src srcs by simp
  have "rows' = []" using r' by (simp add: opens filter_empty_conv)
  moreover have "\<not> (open_row (src_id source) r \<and> ch_fingerprint r \<notin> change_fingerprint key ` set changes)"
    if "r \<in> set (t_changes (work s'))" for r
    using that opens by (auto simp: open_fingerprints_def)
  ultimately show ?thesis
    using c' d' update_where_none [of "t_changes (work s')"] by (simp add: opens alert_due_def)
qed

section \<open>An example\<close>

text \<open>A source with one table and one baseline column, and a scan that is running.\<close>

definition sample_source :: source_row where
  "sample_source = \<lparr>src_id = 0, src_key = ''warehouse'', src_display_name = ''Warehouse'',
     src_connection_ref = ''WAREHOUSE_URL'', src_enabled = True, src_version = 1\<rparr>"

definition sample_tables :: tables where
  "sample_tables = no_tables\<lparr>
     t_sources := [sample_source],
     t_datasets := [\<lparr>ds_id = 1, ds_source = 0, ds_schema = ''public'', ds_table = ''orders'',
                     ds_owner = None, ds_description = None\<rparr>],
     t_expected := [\<lparr>ex_id = 2, ex_dataset = 1, ex_name = ''id'', ex_type = type_canonical_dict
                       \<lparr>type_name = ''bigint'', type_length = None, type_precision = None, type_scale = None\<rparr>,
                     ex_nullable = False, ex_default = None, ex_ordinal = 1\<rparr>],
     t_scans := [\<lparr>sc_id = 3, sc_source = 0, sc_trigger = MANUAL, sc_status = RUNNING, sc_started = 0,
                  sc_finished = None, sc_duration = None, sc_error_code = None, sc_error_message = None\<rparr>]\<rparr>"

definition sample_session :: session where
  "sample_session = fresh_session sample_tables 10"

lemma duration_ms_zero [simp]: "duration_ms t t = 0"
  by (simp add: duration_ms_def to_float_def py_trunc_def)

lemma at_most_fingerprint [simp]: "at_most 64 (change_fingerprint key c)"
  by (simp add: at_most_def change_fingerprint_def length_sha256_hexdigest)

lemmas constraint_defs = data_ok_def integrity_ok_def catalog_constraints_def scan_constraints_def
  change_constraints_def delivery_constraints_def lineage_constraints_def unique_on_def refer_to_def

lemmas sample_defs = sample_session_def fresh_session_def sample_tables_def sample_source_def no_tables_def

lemmas run_defs = bindA_def thenA_def query_def flush_def modify_def new_id_def find_source_def find_scan_def
  datasets_by_ref_def open_changes_of_def persist_observations_run create_pending_deliveries_run
  complete_scan_def update_where_def fresh_rows_def row_ref_def

abbreviation sample_scan :: "session \<Rightarrow> (py_error + unit) \<times> session" where
  "sample_scan \<equiv> complete_drift_scan [SLACK] 0 3 ''warehouse'' [] [sample_drop ''public'' ''orders''] 0"

lemma sample_source_found:
  "List.find (\<lambda>r. src_key r = ''warehouse'') (t_sources (work sample_session)) = Some sample_source"
  by (simp add: sample_defs)

definition sample_after :: session where
  "sample_after = sample_session\<lparr>
     work := sample_tables\<lparr>
       t_changes := [change_row_of ''warehouse'' sample_source (hd (t_scans sample_tables)) 0
         (hd (t_datasets sample_tables)) 10 (sample_drop ''public'' ''orders'')],
       t_deliveries := [delivery_row_of 0 (hd (t_scans sample_tables)) 11 SLACK],
       t_scans := [(hd (t_scans sample_tables))\<lparr>sc_status := COMPLETED, sc_finished := Some 0, sc_duration := Some 0\<rparr>]\<rparr>,
     id_supply := 12\<rparr>"

lemma sample_drop_simps [simp]:
  "change_dataset (sample_drop a b) = DatasetRef a b" "change_column (sample_drop a b) = ''id''"
  "change_severity (sample_drop a b) = BREAKING"
  by (simp_all add: sample_drop_def Let_def)

lemmas sample_run_defs = complete_drift_scan_def run_defs sample_defs constraint_defs at_most_def [of 63]
  at_most_def [of 100] at_most_def [of 200] int32_def record_change_def resolve_change_def Let_def
  change_row_of_def delivery_row_of_def

lemma sample_drift_scan: "sample_scan sample_session = (Inr (), sample_after)"
  by (simp add: sample_run_defs sample_after_def)

lemma sample_drift_scan_again: "\<exists>s''. sample_scan sample_after = (Inr (), s'')"
proof -
  let ?row = "change_row_of ''warehouse'' sample_source (hd (t_scans sample_tables)) 0
         (hd (t_datasets sample_tables)) 10 (sample_drop ''public'' ''orders'')"
  let ?scan = "(hd (t_scans sample_tables))\<lparr>sc_status := COMPLETED, sc_finished := Some 0, sc_duration := Some 0\<rparr>"
  let ?drop = "sample_drop ''public'' ''orders''"
  have us: "usable sample_after"
    by (simp add: usable_def sample_after_def sample_defs constraint_defs at_most_def [of 63]
        at_most_def [of 100] at_most_def [of 200] int32_def change_row_of_def delivery_row_of_def)
  have src: "find_source ''warehouse'' sample_after = (Inr sample_source, sample_after)"
    using us by (simp add: find_source_Inr) (simp add: sample_after_def sample_defs)
  have scn: "find_scan 3 sample_after = (Inr ?scan, sample_after)"
    using us by (simp add: find_scan_Inr) (simp add: sample_after_def sample_defs)
  have obs: "persist_observations ?scan [] sample_after = (Inr (), sample_after)"
    by (simp add: persist_observations_run fresh_rows_def)
  have opens: "open_changes_of (src_id sample_source) (work sample_after) = [(change_fingerprint ''warehouse'' ?drop, ?row)]"
    by (simp add: open_changes_of_def sample_after_def sample_defs change_row_of_def)
  have done_row: "update_where (\<lambda>r. sc_id r = 3) (\<lambda>r. r\<lparr>sc_status := COMPLETED, sc_finished := Some 0,
      sc_duration := Some (duration_ms (sc_started ?scan) 0)\<rparr>) (t_scans (work sample_after)) = [?scan]"
    by (simp add: update_where_def sample_after_def sample_defs)
  have fin: "complete_scan ?scan 0 sample_after = (Inr (), sample_after)"
    using done_row by (simp add: complete_scan_def modify_def) (simp add: sample_after_def sample_defs)
  obtain ds where ds: "datasets_by_ref (src_id sample_source) sample_after = (Inr ds, sample_after)"
    using us by (simp add: datasets_by_ref_def usable_run(2))
  have "sample_scan sample_after = (Inr (), sample_after)"
    unfolding complete_drift_scan_def
      bindA_step(1) [where m = "find_source ''warehouse''", OF src]
      bindA_step(1) [where m = "find_scan 3", OF scn]
      bindA_step(1) [where m = "datasets_by_ref (src_id sample_source)", OF ds]
      thenA_step(1) [where m = "persist_observations ?scan []", OF obs]
      bindA_step(1) [where m = "query (open_changes_of (src_id sample_source))", OF usable_run(2) [OF us]]
      opens
    by (simp add: bindA_def record_change_def Let_def resolve_change_def thenA_def fin usable_run [OF us])
  then show ?thesis by blast
qed

theorem drift_scan_open_changes_witness:
  "\<exists>s'. sample_scan sample_session = (Inr (), s') \<and>
     open_fingerprints 0 (work s') = {change_fingerprint ''warehouse'' (sample_drop ''public'' ''orders'')}"
proof -
  obtain s' where s': "sample_scan sample_session = (Inr (), s')" using sample_drift_scan by blast
  show ?thesis using s' drift_scan_open_changes [OF s' sample_source_found] by (simp add: sample_source_def)
qed

theorem drift_scan_alerts_witness:
  "\<exists>s'. sample_scan sample_session = (Inr (), s') \<and>
     map (\<lambda>d. (dl_scan d, dl_channel d, dl_status d, dl_attempts d)) (t_deliveries (work s')) = [(3, SLACK, PENDING, 0)]"
proof -
  obtain s' where s': "sample_scan sample_session = (Inr (), s')" using sample_drift_scan by blast
  have "t_deliveries (work sample_session) = []" "open_fingerprints 0 (work sample_session) = {}"
    by (simp_all add: sample_defs open_fingerprints_def)
  moreover have "change_severity (sample_drop ''public'' ''orders'') = BREAKING" by (simp add: sample_drop_def Let_def)
  ultimately obtain new where n: "t_deliveries (work s') = new"
    "map (\<lambda>d. (dl_scan d, dl_channel d, dl_status d, dl_attempts d)) new = [(3, SLACK, PENDING, 0)]"
    using drift_scan_alerts [OF s' sample_source_found] by (auto simp: sample_source_def)
  show ?thesis using s' n(2) unfolding n(1) [symmetric] by (intro exI [of _ s'] conjI)
qed

theorem drift_scan_idempotent_witness:
  "\<exists>s' s''. sample_scan sample_session = (Inr (), s') \<and> sample_scan s' = (Inr (), s'') \<and>
     t_changes (work s'') = t_changes (work s') \<and> t_deliveries (work s'') = t_deliveries (work s')"
  using sample_drift_scan sample_drift_scan_again drift_scan_idempotent by blast

end
