(* ===== verification/ScanService.thy ===== *)
theory ScanService
  imports DriftMerge
begin

text \<open>
  \<open>application/ports.py\<close> and \<open>application/scan_service.py\<close>: the protocol a scan relies on, as a
  record of operations, and \<open>ScanService.run_scan\<close> written against it. The locale
  \<open>scan_protocol\<close> states what the operations promise about the status of scan runs; the lemmas about
  the outcome of a run are proved from it and hold for the SQLAlchemy repository by its
  interpretation. The source's collector is external: it is the function \<open>collect\<close>, which
  returns the observed columns or raises. Clock readings are parameters.
\<close>

section \<open>The service\<close>

record 's scan_persistence =
  op_try_lock :: "string \<Rightarrow> ('s, bool) action"
  op_create :: "string \<Rightarrow> scan_trigger \<Rightarrow> ('s, uuid) action"
  op_expected :: "string \<Rightarrow> ('s, column_definition list) action"
  op_dependencies :: "string \<Rightarrow> ('s, column_ref list) action"
  op_initial :: "uuid \<Rightarrow> string \<Rightarrow> column_definition list \<Rightarrow> time \<Rightarrow> ('s, unit) action"
  op_drift :: "uuid \<Rightarrow> string \<Rightarrow> column_definition list \<Rightarrow> schema_change list \<Rightarrow> time \<Rightarrow> ('s, unit) action"
  op_fail :: "uuid \<Rightarrow> string \<Rightarrow> string \<Rightarrow> time \<Rightarrow> ('s, unit) action"

record scan_report =
  report_scan_id :: uuid
  report_source_key :: string
  report_trigger :: scan_trigger
  report_baseline_created :: bool
  report_observed_count :: int
  report_changes :: "schema_change list"

definition scan_body ::
  "'s scan_persistence \<Rightarrow> (string \<Rightarrow> py_error + column_definition list) \<Rightarrow> time \<Rightarrow> string \<Rightarrow> scan_trigger
     \<Rightarrow> uuid \<Rightarrow> ('s, scan_report) action" where
  "scan_body repo collect finished_at source_key trigger scan_id =
     bindA (liftA (collect source_key)) (\<lambda>observed.
     if observed = [] then raiseA (EmptySchemaSnapshot source_key)
     else
       bindA (op_expected repo source_key) (\<lambda>expected.
       if expected = [] then
         thenA (op_initial repo scan_id source_key observed finished_at)
           (returnA \<lparr>report_scan_id = scan_id, report_source_key = source_key, report_trigger = trigger,
                     report_baseline_created = True, report_observed_count = int (length observed),
                     report_changes = []\<rparr>)
       else
         bindA (op_dependencies repo source_key) (\<lambda>dependencies.
         bindA (liftA (diff_columns expected observed dependencies)) (\<lambda>changes.
         thenA (op_drift repo scan_id source_key observed changes finished_at)
           (returnA \<lparr>report_scan_id = scan_id, report_source_key = source_key, report_trigger = trigger,
                     report_baseline_created = False, report_observed_count = int (length observed),
                     report_changes = changes\<rparr>)))))"

definition run_scan ::
  "'s scan_persistence \<Rightarrow> (string \<Rightarrow> py_error + column_definition list) \<Rightarrow> time \<Rightarrow> time \<Rightarrow> string
     \<Rightarrow> scan_trigger \<Rightarrow> ('s, scan_report) action" where
  "run_scan repo collect finished_at failed_at source_key trigger =
     bindA (op_try_lock repo source_key) (\<lambda>acquired.
     if \<not> acquired then raiseA (ScanAlreadyRunning source_key)
     else
       bindA (op_create repo source_key trigger) (\<lambda>scan_id.
       exceptA (scan_body repo collect finished_at source_key trigger scan_id)
         (\<lambda>exc. thenA (op_fail repo scan_id (error_name exc) ''schema collection failed'' failed_at)
                  (raiseA exc))))"

section \<open>What the service relies on\<close>

text \<open>
  \<open>status\<close> reads the status of a scan run from the state; \<open>alive\<close> says that the transaction can
  still be used. An operation that raises in a living transaction has not touched any status.
\<close>

locale scan_protocol =
  fixes repo :: "'s scan_persistence"
    and status :: "'s \<Rightarrow> uuid \<Rightarrow> scan_status option"
    and alive :: "'s \<Rightarrow> bool"
  assumes lock: "op_try_lock repo k s = (Inr b, s') \<Longrightarrow> status s' = status s"
    and lock_raises: "op_try_lock repo k s = (Inl e, s') \<Longrightarrow> \<not> alive s'"
    and create: "op_create repo k tr s = (Inr i, s') \<Longrightarrow> status s i = None \<and> status s' = (status s)(i \<mapsto> RUNNING)"
    and create_raises: "op_create repo k tr s = (Inl e, s') \<Longrightarrow> alive s' \<Longrightarrow> status s' = status s"
    and expected: "op_expected repo k s = (r1, s') \<Longrightarrow> \<not> isl r1 \<or> alive s' \<Longrightarrow> status s' = status s"
    and dependencies: "op_dependencies repo k s = (r2, s') \<Longrightarrow> \<not> isl r2 \<or> alive s' \<Longrightarrow> status s' = status s"
    and initial: "op_initial repo i k cs f s = (Inr u, s') \<Longrightarrow> status s' = (status s)(i \<mapsto> COMPLETED)"
    and initial_raises: "op_initial repo i k cs f s = (Inl e, s') \<Longrightarrow> alive s' \<Longrightarrow> status s' = status s"
    and drift: "op_drift repo i k cs ds f s = (Inr u, s') \<Longrightarrow> status s' = (status s)(i \<mapsto> COMPLETED)"
    and drift_raises: "op_drift repo i k cs ds f s = (Inl e, s') \<Longrightarrow> alive s' \<Longrightarrow> status s' = status s"
    and fail: "op_fail repo i c m f s = (Inr u, s') \<Longrightarrow> alive s \<and> status s' = (status s)(i \<mapsto> scan_status.FAILED)"
    and fail_raises: "op_fail repo i c m f s = (Inl e, s') \<Longrightarrow> status s i \<noteq> None \<Longrightarrow> \<not> alive s'"
    and dead_stays: "op_fail repo i c m f s = (r3, s') \<Longrightarrow> \<not> alive s \<Longrightarrow> \<not> alive s'"
begin

lemma body_returns:
  assumes "scan_body repo collect f k tr i s = (Inr r, s')"
  shows "status s' = (status s)(i \<mapsto> COMPLETED) \<and> report_scan_id r = i"
proof -
  obtain observed where c: "collect k = Inr observed" "observed \<noteq> []"
    using assms by (auto simp: scan_body_def action_simps split: if_splits)
  obtain ex s1 where e: "op_expected repo k s = (Inr ex, s1)"
    using assms c by (auto simp: scan_body_def action_simps)
  have s1: "status s1 = status s" using expected [OF e] by simp
  show ?thesis
  proof (cases "ex = []")
    case True
    then have "op_initial repo i k observed f s1 = (Inr (), s')" "report_scan_id r = i"
      using assms c e by (auto simp: scan_body_def action_simps)
    then show ?thesis using initial s1 by auto
  next
    case False
    then obtain deps s2 ds where d: "op_dependencies repo k s1 = (Inr deps, s2)"
      and "op_drift repo i k observed ds f s2 = (Inr (), s')" "report_scan_id r = i"
      using assms c e by (auto simp: scan_body_def action_simps)
    then show ?thesis using drift s1 dependencies [OF d] by auto
  qed
qed

lemma body_raises:
  assumes "scan_body repo collect f k tr i s = (Inl e, s')" and "alive s'"
  shows "status s' = status s"
proof (cases "collect k")
  case (Inl e')
  then show ?thesis using assms by (simp add: scan_body_def bindA_def)
next
  case (Inr observed)
  show ?thesis
  proof (cases "observed = []")
    case True
    then show ?thesis using assms Inr by (simp add: scan_body_def bindA_def)
  next
    case False
    obtain r1 s1 where e: "op_expected repo k s = (r1, s1)" by fastforce
    show ?thesis
    proof (cases r1)
      case (Inl e1)
      then have "s' = s1" using assms(1) Inr False e by (simp add: scan_body_def bindA_def)
      then show ?thesis using expected [OF e] assms(2) by simp
    next
      case ex: (Inr ex)
      then have s1: "status s1 = status s" using expected [OF e] by simp
      show ?thesis
      proof (cases "ex = []")
        case True
        then have "op_initial repo i k observed f s1 = (Inl e, s')"
          using assms(1) Inr False e ex by (auto simp: scan_body_def action_simps)
        then show ?thesis using initial_raises assms(2) s1 by metis
      next
        case nonempty: False
        obtain r2 s2 where d: "op_dependencies repo k s1 = (r2, s2)" by fastforce
        show ?thesis
        proof (cases r2)
          case (Inl e2)
          then have "s' = s2" using assms(1) Inr False e ex nonempty d by (simp add: scan_body_def bindA_def)
          then show ?thesis using dependencies [OF d] assms(2) s1 by simp
        next
          case deps: (Inr deps)
          then have s2: "status s2 = status s1" using dependencies [OF d] by simp
          obtain ds where "diff_columns ex observed deps = Inr ds" using diff_columns_total by blast
          then have "op_drift repo i k observed ds f s2 = (Inl e, s')"
            using assms(1) Inr False e ex nonempty d deps by (auto simp: scan_body_def action_simps)
          then show ?thesis using drift_raises assms(2) s1 s2 by metis
        qed
      qed
    qed
  qed
qed

text \<open>A run that returns has completed its scan and no other.\<close>

lemma run_returns:
  assumes "run_scan repo collect f g k tr s = (Inr r, s')"
  shows "status s (report_scan_id r) = None \<and> status s' = (status s)(report_scan_id r \<mapsto> COMPLETED)"
proof -
  obtain s1 where l: "op_try_lock repo k s = (Inr True, s1)"
    using assms by (auto simp: run_scan_def action_simps split: if_splits)
  obtain i s2 where c: "op_create repo k tr s1 = (Inr i, s2)"
    and b: "exceptA (scan_body repo collect f k tr i)
      (\<lambda>exc. thenA (op_fail repo i (error_name exc) ''schema collection failed'' g) (raiseA exc)) s2 = (Inr r, s')"
    using assms l by (auto simp: run_scan_def action_simps)
  have "scan_body repo collect f k tr i s2 = (Inr r, s')"
    using b by (auto simp: exceptA_def thenA_def bindA_def split: prod.splits sum.splits)
  then show ?thesis using body_returns [of collect f k tr i s2 r s'] create [OF c] lock [OF l] by auto
qed

text \<open>A run that raises and leaves a living transaction: either the source is locked, or the scan
  could not be created, or the scan it created is marked as failed.\<close>

lemma run_raises:
  assumes "run_scan repo collect f g k tr s = (Inl e, s')"
  obtains (locked) "op_try_lock repo k s = (Inr False, s')" "e = ScanAlreadyRunning k"
  | (refused) s1 where "op_create repo k tr s1 = (Inl e, s')" "status s' = status s"
  | (failed) i where "status s i = None" "status s' = (status s)(i \<mapsto> scan_status.FAILED)"
  | (dead) "\<not> alive s'"
proof (cases "alive s'")
  case True
  obtain r0 s1 where l: "op_try_lock repo k s = (r0, s1)" by fastforce
  consider e0 where "r0 = Inl e0" | "r0 = Inr False" | "r0 = Inr True"
    by (metis (full_types) sum.exhaust)
  then show thesis
  proof cases
    case 1
    then have "op_try_lock repo k s = (Inl e, s')" using assms l by (simp add: run_scan_def bindA_def)
    then show thesis using lock_raises True by blast
  next
    case 2
    then show thesis using assms l locked by (simp add: run_scan_def bindA_def)
  next
    case 3
    have s1: "status s1 = status s" using lock l 3 by simp
    obtain r1 s2 where c: "op_create repo k tr s1 = (r1, s2)" by fastforce
    show thesis
    proof (cases r1)
      case (Inl e1)
      then have "op_create repo k tr s1 = (Inl e, s')" using assms l c 3 by (simp add: run_scan_def bindA_def)
      then show thesis using refused create_raises True s1 by metis
    next
      case (Inr i)
      have s2: "status s1 i = None" "status s2 = (status s1)(i \<mapsto> RUNNING)"
        using create [of k tr s1 i s2] c Inr by simp_all
      obtain e1 s3 where b: "scan_body repo collect f k tr i s2 = (Inl e1, s3)"
        and f: "thenA (op_fail repo i (error_name e1) ''schema collection failed'' g)
          (raiseA e1 :: ('s, scan_report) action) s3 = (Inl e, s')"
        using assms l c 3 Inr by (auto simp: run_scan_def bindA_def exceptA_def split: prod.splits sum.splits)
      then consider (fail) "op_fail repo i (error_name e1) ''schema collection failed'' g s3 = (Inl e, s')"
        | (marked) "op_fail repo i (error_name e1) ''schema collection failed'' g s3 = (Inr (), s')"
        by (auto simp: thenA_eq_Inl)
      then show thesis
      proof cases
        case fail
        show thesis
        proof (cases "alive s3")
          case True
          then have "status s3 i \<noteq> None" using body_raises [OF b] s2 by simp
          then show thesis using fail_raises [OF fail] \<open>alive s'\<close> by simp
        next
          case False
          then show thesis using dead_stays [OF fail] \<open>alive s'\<close> by simp
        qed
      next
        case marked
        then have "alive s3" "status s' = (status s3)(i \<mapsto> scan_status.FAILED)" using local.fail by auto
        then have "status s i = None" "status s' = (status s)(i \<mapsto> scan_status.FAILED)"
          using body_raises [OF b] s1 s2 by simp_all
        then show thesis by (rule failed)
      qed
    qed
  qed
qed (rule dead)

end

section \<open>The SQLAlchemy repository provides the protocol\<close>

record scan_env =
  env_acquired :: bool
  env_channels :: "alert_channel list"
  env_started :: time
  env_now :: time
  env_collate :: "string \<Rightarrow> string"

definition sql_scan_repository :: "scan_env \<Rightarrow> session scan_persistence" where
  "sql_scan_repository env =
     \<lparr>op_try_lock = (\<lambda>_. try_source_lock (env_acquired env)),
      op_create = (\<lambda>key trigger. create_running_scan key trigger (env_started env)),
      op_expected = load_expected_columns (env_collate env),
      op_dependencies = load_dependency_columns (env_collate env),
      op_initial = complete_initial_baseline,
      op_drift = complete_drift_scan (env_channels env) (env_now env),
      op_fail = fail_scan (env_channels env) (env_now env)\<rparr>"

definition scan_status_of :: "session \<Rightarrow> uuid \<Rightarrow> scan_status option" where
  "scan_status_of s i = map_option sc_status (List.find (\<lambda>r. sc_id r = i) (t_scans (work s)))"

lemma find_update_where:
  assumes "\<And>r. sc_id (f r) = sc_id r"
  shows "List.find (\<lambda>r. sc_id r = j) (update_where (\<lambda>r. sc_id r = i) f rows) =
    map_option (\<lambda>r. if j = i then f r else r) (List.find (\<lambda>r. sc_id r = j) rows)"
  by (induction rows) (auto simp: update_where_def assms)

lemma status_update:
  assumes "List.find (\<lambda>r. sc_id r = i) (t_scans (work s)) = Some scan"
    and "t_scans (work s') = update_where (\<lambda>r. sc_id r = i) f (t_scans (work s))"
    and "\<And>r. sc_id (f r) = sc_id r" and "\<And>r. sc_status (f r) = st"
  shows "scan_status_of s' = (scan_status_of s)(i \<mapsto> st)"
proof
  fix j
  show "scan_status_of s' j = ((scan_status_of s)(i \<mapsto> st)) j"
    using assms(1,4)
    by (cases "List.find (\<lambda>r. sc_id r = j) (t_scans (work s))")
      (auto simp: scan_status_of_def assms(2) find_update_where [OF assms(3)])
qed

lemma find_append: "List.find P (xs @ ys) = (case List.find P xs of None \<Rightarrow> List.find P ys | Some x \<Rightarrow> Some x)"
  by (induction xs) auto

lemma find_None_map: "x \<notin> set (map f rows) \<Longrightarrow> List.find (\<lambda>r. f r = x) rows = None"
  by (auto simp: find_None_iff)

lemma keeps_find_source [intro]: "keeps g (find_source k)"
  unfolding find_source_def by (intro keeps_bindA) (auto split: option.split)

lemma keeps_find_scan [intro]: "keeps g (find_scan i)"
  unfolding find_scan_def by (intro keeps_bindA) (auto split: option.split)

lemma keeps_persist [intro]:
  "(\<And>t f. g (t\<lparr>t_observed := f (t_observed t)\<rparr>) = g t) \<Longrightarrow> keeps g (persist_observations scan cs)"
  unfolding persist_observations_def by (intro keeps_forA keeps_bindA keeps_basic keeps_modify) metis

lemma create_law:
  assumes "create_running_scan k tr now s = (Inr i, s')"
  shows "scan_status_of s i = None \<and> scan_status_of s' = (scan_status_of s)(i \<mapsto> RUNNING)"
proof -
  from assms obtain scan where t: "t_scans (work s') = t_scans (work s) @ [scan]" "sc_id scan = i"
    "sc_status scan = RUNNING" and u: "usable s'"
    by (auto simp: create_running_scan_def action_simps usable_def)
  then have "distinct (map sc_id (t_scans (work s) @ [scan]))"
    by (simp add: usable_def integrity_ok_def scan_constraints_def unique_on_def)
  then have "List.find (\<lambda>r. sc_id r = i) (t_scans (work s)) = None"
    using t(2) by (intro find_None_map) auto
  then show ?thesis
    using t by (auto simp: scan_status_of_def fun_eq_iff find_append split: option.splits)
qed

lemma reads_keep_scans:
  "keeps t_scans (load_expected_columns c k)" "keeps t_scans (load_dependency_columns c k)"
  unfolding load_expected_columns_def load_dependency_columns_def
  by (intro keeps_bindA keeps_find_source keeps_basic)+

text \<open>Both ways of completing a scan: look up the source and the scan, do something that leaves the
  scan runs alone, mark the scan as completed, flush.\<close>

lemma completes_law:
  assumes B: "\<And>source scan. keeps t_scans (B source scan :: unit db)"
    and m: "m = bindA (find_source k) (\<lambda>source. bindA (find_scan i) (\<lambda>scan.
      bindA (B source scan) (\<lambda>_. thenA (complete_scan scan f) flush)))"
  shows "m s = (Inr (), s') \<Longrightarrow> scan_status_of s' = (scan_status_of s)(i \<mapsto> COMPLETED)"
    and "m s = (Inl e, s') \<Longrightarrow> \<not> poisoned s' \<Longrightarrow> scan_status_of s' = scan_status_of s"
proof -
  assume "m s = (Inr (), s')"
  then obtain source scan s1 where scan: "List.find (\<lambda>r. sc_id r = i) (t_scans (work s)) = Some scan"
    and b: "B source scan s = (Inr (), s1)" and u: "usable s'"
    and t: "t_scans (work s') = update_where (\<lambda>r. sc_id r = sc_id scan)
      (\<lambda>r. r\<lparr>sc_status := COMPLETED, sc_finished := Some f, sc_duration := Some (duration_ms (sc_started scan) f)\<rparr>)
      (t_scans (work s1))"
    and p: "\<not> poisoned s1"
    by (auto simp: m action_simps complete_scan_def usable_def)
  have "t_scans (work s1) = t_scans (work s)" using keepsD [OF B b p] by simp
  moreover have "sc_id scan = i" using scan by (auto simp: find_Some_iff)
  ultimately show "scan_status_of s' = (scan_status_of s)(i \<mapsto> COMPLETED)"
    using status_update [OF scan, of s'] t by simp
next
  assume "m s = (Inl e, s')" and alive: "\<not> poisoned s'"
  then have "keeps t_scans (find_source k)" "keeps t_scans (find_scan i)" by auto
  have flush_fails: False if "flush s1 = (Inl e, s')" for s1 using flush_Inl_poisoned that alive by blast
  have "t_scans (work s') = t_scans (work s)"
  proof -
    consider "find_source k s = (Inl e, s')"
      | source where "find_source k s = (Inr source, s)" "find_scan i s = (Inl e, s')"
      | source scan where "find_source k s = (Inr source, s)" "find_scan i s = (Inr scan, s)" "B source scan s = (Inl e, s')"
      using \<open>m s = (Inl e, s')\<close> flush_fails
      by (auto simp: m action_simps complete_scan_def usable_def)
    then show ?thesis
    proof cases
      case 1
      then show ?thesis using keepsD [OF keeps_find_source [where g = t_scans] 1 alive] by simp
    next
      case 2
      then show ?thesis using keepsD [OF keeps_find_scan [where g = t_scans] 2(2) alive] by simp
    next
      case 3
      then show ?thesis using keepsD [OF B 3(3) alive] by simp
    qed
  qed
  then show "scan_status_of s' = scan_status_of s" by (simp add: scan_status_of_def fun_eq_iff)
qed

lemmas keeps_rules = keeps_bindA keeps_thenA keeps_forA keeps_basic keeps_modify

lemma keeps_dataset_for [intro]: "keeps t_scans (dataset_for source c ds)"
  by (cases "map_of ds (col_dataset c)") (simp_all add: dataset_for_def Let_def, (intro keeps_rules; simp)+)

lemma keeps_store_expected [intro]: "keeps t_scans (store_expected source c ds)"
  unfolding store_expected_def case_prod_unfold by (intro keeps_rules keeps_dataset_for) simp

lemma keeps_record_change [intro]: "keeps t_scans (record_change key source scan now ds opens c a)"
  by (cases a; cases "map_of ds (change_dataset c)")
    (simp_all add: record_change_def Let_def, (intro conjI impI keeps_rules; simp)+)

lemma keeps_resolve_change [intro]: "keeps t_scans (resolve_change active f x u)"
  by (cases x) (auto simp: resolve_change_def)

lemma keeps_deliveries [intro]: "keeps t_scans (create_pending_deliveries channels now scan)"
  unfolding create_pending_deliveries_def by (intro keeps_forA keeps_bindA keeps_basic keeps_modify) simp

lemma keeps_observations [intro]: "keeps t_scans (persist_observations scan cs)"
  by (rule keeps_persist) simp

lemma read_status:
  assumes "keeps t_scans m" and "\<And>x. m s = (Inr x, s') \<Longrightarrow> s' = s"
    and "m s = (r, s')" and "\<not> isl r \<or> \<not> poisoned s'"
  shows "scan_status_of s' = scan_status_of s"
proof (cases r)
  case (Inr x)
  then show ?thesis using assms(2,3) by simp
next
  case (Inl e)
  then show ?thesis using keepsD [OF assms(1,3)] assms(4) by (simp add: scan_status_of_def fun_eq_iff)
qed

lemma reads_return:
  "load_expected_columns c k s = (Inr x, s') \<Longrightarrow> s' = s"
  "load_dependency_columns c k s = (Inr y, s') \<Longrightarrow> s' = s"
  by (auto simp: load_expected_columns_def load_dependency_columns_def action_simps)

lemma reads_status:
  "load_expected_columns c k s = (r1, s') \<Longrightarrow> \<not> isl r1 \<or> \<not> poisoned s' \<Longrightarrow> scan_status_of s' = scan_status_of s"
  "load_dependency_columns c k s = (r2, s') \<Longrightarrow> \<not> isl r2 \<or> \<not> poisoned s' \<Longrightarrow> scan_status_of s' = scan_status_of s"
  by (rule read_status [OF reads_keep_scans(1) reads_return(1)], assumption+)
    (rule read_status [OF reads_keep_scans(2) reads_return(2)], assumption+)

definition initial_steps ::
  "column_definition list \<Rightarrow> source_row \<Rightarrow> scan_row \<Rightarrow> unit db" where
  "initial_steps observed source scan =
     bindA (datasets_by_ref (src_id source)) (\<lambda>datasets.
     bindA (forA observed datasets (store_expected source)) (\<lambda>_. persist_observations scan observed))"

lemma complete_initial_baseline_steps:
  "complete_initial_baseline i k observed f = bindA (find_source k) (\<lambda>source. bindA (find_scan i) (\<lambda>scan.
     bindA (initial_steps observed source scan) (\<lambda>_. thenA (complete_scan scan f) flush)))"
  by (simp add: complete_initial_baseline_def initial_steps_def bindA_assoc thenA_def)

definition drift_steps ::
  "alert_channel list \<Rightarrow> time \<Rightarrow> string \<Rightarrow> column_definition list \<Rightarrow> schema_change list \<Rightarrow> time \<Rightarrow> source_row
     \<Rightarrow> scan_row \<Rightarrow> unit db" where
  "drift_steps channels now k observed changes f source scan =
     bindA (datasets_by_ref (src_id source)) (\<lambda>datasets.
     bindA (persist_observations scan observed) (\<lambda>_.
     bindA (query (open_changes_of (src_id source))) (\<lambda>opens.
     bindA (forA changes ({}, False) (record_change k source scan now datasets opens)) (\<lambda>p.
     bindA (forA opens () (resolve_change (fst p) f)) (\<lambda>_.
       if snd p then create_pending_deliveries channels now scan else returnA ())))))"

lemma complete_drift_scan_steps:
  "complete_drift_scan channels now i k observed changes f =
     bindA (find_source k) (\<lambda>source. bindA (find_scan i) (\<lambda>scan.
       bindA (drift_steps channels now k observed changes f source scan) (\<lambda>_. thenA (complete_scan scan f) flush)))"
  by (simp add: complete_drift_scan_def drift_steps_def bindA_assoc thenA_def case_prod_unfold)

lemma keeps_initial_steps [intro]: "keeps t_scans (initial_steps observed source scan)"
  unfolding initial_steps_def datasets_by_ref_def by (intro keeps_bindA keeps_forA keeps_basic) auto

lemma keeps_drift_steps [intro]: "keeps t_scans (drift_steps channels now k observed changes f source scan)"
  unfolding drift_steps_def datasets_by_ref_def by (intro keeps_bindA keeps_forA keeps_basic) auto

lemma fail_law:
  assumes "fail_scan channels now i c m f s = (Inr u, s')"
  shows "\<not> poisoned s \<and> scan_status_of s' = (scan_status_of s)(i \<mapsto> scan_status.FAILED)"
proof -
  obtain scan where scan: "List.find (\<lambda>r. sc_id r = i) (t_scans (work s)) = Some scan" and u: "usable s"
    and t: "t_scans (work s') = update_where (\<lambda>r. sc_id r = sc_id scan)
      (\<lambda>r. r\<lparr>sc_status := scan_status.FAILED, sc_finished := Some f,
             sc_duration := Some (duration_ms (sc_started scan) f),
             sc_error_code := Some c, sc_error_message := Some m\<rparr>) (t_scans (work s))"
    using assms by (auto simp: fail_scan_def action_simps create_pending_deliveries_run)
  have "sc_id scan = i" using scan by (auto simp: find_Some_iff)
  then show ?thesis using status_update [OF scan, of s'] t u by (simp add: usable_def)
qed

lemma find_source_Inl: "find_source k s = (Inl e, s') \<Longrightarrow> \<not> poisoned s' \<Longrightarrow> s' = s \<and> e = SourceNotFound k"
  by (auto simp: find_source_def bindA_eq_Inl query_error query_eq_Inr dest: flush_Inl_poisoned split: option.splits)

lemma create_raises_law:
  assumes "create_running_scan k tr now s = (Inl e, s')" and "\<not> poisoned s'"
  shows "scan_status_of s' = scan_status_of s \<and> s' = s \<and> e = SourceNotFound k"
proof -
  have "find_source k s = (Inl e, s')"
    using assms by (auto simp: create_running_scan_def action_simps dest: flush_Inl_poisoned)
  then show ?thesis using find_source_Inl assms(2) by blast
qed

lemma fail_raises_law:
  assumes "fail_scan channels now i c m f s = (Inl e, s')" and "scan_status_of s i \<noteq> None"
  shows "poisoned s'"
  using assms
  by (auto simp: fail_scan_def action_simps create_pending_deliveries_run find_scan_def query_error
      scan_status_of_def dest: flush_Inl_poisoned split: option.splits)

lemma fail_dead:
  assumes "fail_scan channels now i c m f s = (r, s')" and "poisoned s"
  shows "poisoned s' \<and> r = Inl PendingRollbackError"
proof -
  have "flush s = (Inl PendingRollbackError, s)" using assms(2) by (simp add: flush_def)
  then have "find_scan i s = (Inl PendingRollbackError, s)"
    by (simp add: find_scan_def bindA_def query_def thenA_def)
  then show ?thesis using assms by (auto simp: fail_scan_def bindA_def)
qed

interpretation sql_scans: scan_protocol "sql_scan_repository env" scan_status_of "\<lambda>s. \<not> poisoned s"
  for env
proof
  fix k b s s' tr i r1 r2 r3 cs f u e ds c m
  show "op_try_lock (sql_scan_repository env) k s = (Inr b, s') \<Longrightarrow> scan_status_of s' = scan_status_of s"
    by (simp add: sql_scan_repository_def try_source_lock_def query_eq_Inr)
  show "op_try_lock (sql_scan_repository env) k s = (Inl e, s') \<Longrightarrow> \<not> \<not> poisoned s'"
    by (auto simp: sql_scan_repository_def try_source_lock_def query_error dest: flush_Inl_poisoned)
  show "op_create (sql_scan_repository env) k tr s = (Inl e, s') \<Longrightarrow> \<not> poisoned s' \<Longrightarrow>
      scan_status_of s' = scan_status_of s"
    using create_raises_law by (simp add: sql_scan_repository_def)
  show "op_fail (sql_scan_repository env) i c m f s = (Inl e, s') \<Longrightarrow> scan_status_of s i \<noteq> None \<Longrightarrow>
      \<not> \<not> poisoned s'"
    using fail_raises_law by (simp add: sql_scan_repository_def)
  show "op_fail (sql_scan_repository env) i c m f s = (r3, s') \<Longrightarrow> \<not> \<not> poisoned s \<Longrightarrow> \<not> \<not> poisoned s'"
    using fail_dead by (simp add: sql_scan_repository_def)
  show "op_create (sql_scan_repository env) k tr s = (Inr i, s') \<Longrightarrow>
      scan_status_of s i = None \<and> scan_status_of s' = (scan_status_of s)(i \<mapsto> RUNNING)"
    using create_law by (simp add: sql_scan_repository_def)
  show "op_expected (sql_scan_repository env) k s = (r1, s') \<Longrightarrow> \<not> isl r1 \<or> \<not> poisoned s' \<Longrightarrow>
      scan_status_of s' = scan_status_of s"
    using reads_status(1) [of "env_collate env"] by (simp add: sql_scan_repository_def)
  show "op_dependencies (sql_scan_repository env) k s = (r2, s') \<Longrightarrow> \<not> isl r2 \<or> \<not> poisoned s' \<Longrightarrow>
      scan_status_of s' = scan_status_of s"
    using reads_status(2) [of "env_collate env"] by (simp add: sql_scan_repository_def)
  show "op_initial (sql_scan_repository env) i k cs f s = (Inr u, s') \<Longrightarrow>
      scan_status_of s' = (scan_status_of s)(i \<mapsto> COMPLETED)"
    using completes_law(1) [OF keeps_initial_steps complete_initial_baseline_steps]
    by (simp add: sql_scan_repository_def)
  show "op_initial (sql_scan_repository env) i k cs f s = (Inl e, s') \<Longrightarrow> \<not> poisoned s' \<Longrightarrow>
      scan_status_of s' = scan_status_of s"
    using completes_law(2) [OF keeps_initial_steps complete_initial_baseline_steps]
    by (simp add: sql_scan_repository_def)
  show "op_drift (sql_scan_repository env) i k cs ds f s = (Inr u, s') \<Longrightarrow>
      scan_status_of s' = (scan_status_of s)(i \<mapsto> COMPLETED)"
    using completes_law(1) [OF keeps_drift_steps complete_drift_scan_steps]
    by (simp add: sql_scan_repository_def)
  show "op_drift (sql_scan_repository env) i k cs ds f s = (Inl e, s') \<Longrightarrow> \<not> poisoned s' \<Longrightarrow>
      scan_status_of s' = scan_status_of s"
    using completes_law(2) [OF keeps_drift_steps complete_drift_scan_steps]
    by (simp add: sql_scan_repository_def)
  show "op_fail (sql_scan_repository env) i c m f s = (Inr u, s') \<Longrightarrow>
      \<not> poisoned s \<and> scan_status_of s' = (scan_status_of s)(i \<mapsto> scan_status.FAILED)"
    using fail_law by (simp add: sql_scan_repository_def)
qed

end
