(* ===== verification/ScanRuns.thy ===== *)
theory ScanRuns
  imports ScanService
begin

text \<open>
  Runs of \<open>ScanService\<close> on the SQLAlchemy repository, end to end: what a run that returns has
  compared and stored, what remains after one that raises, the first scan of a source, and two
  situations in which a scan cannot succeed.
\<close>

lemma run_scan_Inr:
  assumes "run_scan (sql_scan_repository env) collect f g key trigger s = (Inr report, s')"
  obtains i s2 scan where "usable s" and "env_acquired env"
    and "create_running_scan key trigger (env_started env) s = (Inr i, s2)"
    and "scan_body (sql_scan_repository env) collect f key trigger i s2 = (Inr report, s')"
    and "work s2 = (work s)\<lparr>t_scans := t_scans (work s) @ [scan]\<rparr>" and "usable s2"
proof -
  obtain i s2 where u: "usable s" "env_acquired env"
    and c: "create_running_scan key trigger (env_started env) s = (Inr i, s2)"
    and b: "exceptA (scan_body (sql_scan_repository env) collect f key trigger i)
      (\<lambda>exc. thenA (fail_scan (env_channels env) (env_now env) i (error_name exc) ''schema collection failed'' g)
        (raiseA exc)) s2 = (Inr report, s')"
    using assms
    by (auto simp: run_scan_def action_simps sql_scan_repository_def try_source_lock_def usable_def split: if_splits)
  have "scan_body (sql_scan_repository env) collect f key trigger i s2 = (Inr report, s')"
    using b by (auto simp: exceptA_def thenA_def bindA_def split: prod.splits sum.splits)
  moreover obtain scan where "work s2 = (work s)\<lparr>t_scans := t_scans (work s) @ [scan]\<rparr>" "usable s2"
    using c by (auto simp: create_running_scan_def action_simps usable_def)
  ultimately show thesis using that u c by blast
qed

lemma load_expected_Inr:
  "load_expected_columns collate key s = (Inr cs, s') \<longleftrightarrow>
     s' = s \<and> usable s \<and> (\<exists>source. List.find (\<lambda>r. src_key r = key) (t_sources (work s)) = Some source \<and>
       mapR column_of_row (expected_rows collate (src_id source) (work s)) = Inr cs)"
  by (auto simp: load_expected_columns_def action_simps usable_def)

lemma load_dependencies_Inr:
  "load_dependency_columns collate key s = (Inr cs, s') \<longleftrightarrow>
     s' = s \<and> usable s \<and> (\<exists>source. List.find (\<lambda>r. src_key r = key) (t_sources (work s)) = Some source \<and>
       cs = map (\<lambda>(e, d). ColumnRef (row_ref d) (le_up_column e)) (dependency_rows collate (src_id source) (work s)))"
  by (auto simp: load_dependency_columns_def action_simps usable_def)

lemma scan_body_drift:
  assumes "scan_body (sql_scan_repository env) collect f key trigger i s = (Inr report, s')"
    and "\<not> report_baseline_created report"
  obtains observed expected deps where "collect key = Inr observed" and "observed \<noteq> []" and "expected \<noteq> []"
    and "load_expected_columns (env_collate env) key s = (Inr expected, s)"
    and "load_dependency_columns (env_collate env) key s = (Inr deps, s)"
    and "diff_columns expected observed deps = Inr (report_changes report)"
    and "complete_drift_scan (env_channels env) (env_now env) i key observed (report_changes report) f s = (Inr (), s')"
proof -
  obtain observed where c: "collect key = Inr observed" "observed \<noteq> []"
    using assms by (auto simp: scan_body_def action_simps split: if_splits)
  obtain expected s1 where e: "load_expected_columns (env_collate env) key s = (Inr expected, s1)"
    using assms c by (auto simp: scan_body_def action_simps sql_scan_repository_def)
  then have [simp]: "s1 = s" using reads_return by blast
  have "expected \<noteq> []"
    using assms c e by (auto simp: scan_body_def action_simps sql_scan_repository_def)
  obtain deps s2 where d: "load_dependency_columns (env_collate env) key s = (Inr deps, s2)"
    using assms c e \<open>expected \<noteq> []\<close> by (auto simp: scan_body_def action_simps sql_scan_repository_def)
  then have [simp]: "s2 = s" using reads_return by blast
  show thesis
    using assms c e d \<open>expected \<noteq> []\<close>
    by (intro that [of observed expected deps]) (auto simp: scan_body_def action_simps sql_scan_repository_def)
qed

text \<open>A run that returns belongs to a new scan, which it leaves as \<open>COMPLETED\<close>; the status of no
  other scan changes.\<close>

theorem run_scan_completes:
  assumes "run_scan (sql_scan_repository env) collect f g key trigger s = (Inr report, s')"
  shows "scan_status_of s (report_scan_id report) = None \<and>
    scan_status_of s' = (scan_status_of s)(report_scan_id report \<mapsto> COMPLETED)"
  using sql_scans.run_returns [OF assms] .

text \<open>A run that raises and leaves a usable transaction either found the source locked, or did not
  find the source, and then changed nothing, or has recorded its scan as \<open>FAILED\<close>; no other
  scan is touched.\<close>

theorem run_scan_raises:
  assumes "run_scan (sql_scan_repository env) collect f g key trigger s = (Inl e, s')"
    and "\<not> poisoned s'"
  shows "\<not> env_acquired env \<and> e = ScanAlreadyRunning key \<and> s' = s \<or>
    e = SourceNotFound key \<and> scan_status_of s' = scan_status_of s \<or>
    (\<exists>i. scan_status_of s i = None \<and> scan_status_of s' = (scan_status_of s)(i \<mapsto> scan_status.FAILED))"
  using assms(1)
proof (cases rule: sql_scans.run_raises)
  case locked
  then show ?thesis by (auto simp: sql_scan_repository_def try_source_lock_def query_eq_Inr)
next
  case (refused s1)
  then show ?thesis using create_raises_law assms(2) by (auto simp: sql_scan_repository_def)
qed (use assms(2) in blast)+

text \<open>A source that another transaction has locked is not scanned: the run raises at once and
  nothing changes.\<close>

theorem run_scan_locked:
  assumes "usable s" and "\<not> env_acquired env"
  shows "run_scan (sql_scan_repository env) collect f g key trigger s = (Inl (ScanAlreadyRunning key), s)"
proof -
  have "op_try_lock (sql_scan_repository env) key s = (Inr False, s)"
    using assms by (simp add: sql_scan_repository_def try_source_lock_def usable_run(2))
  then show ?thesis by (simp add: run_scan_def bindA_def)
qed

lemma drift_scan_opens:
  assumes "complete_drift_scan channels now scan_id key observed changes fin s = (Inr (), s')"
    and "List.find (\<lambda>r. src_key r = key) (t_sources (work s)) = Some source"
  shows "open_fingerprints (src_id source) (work s') = change_fingerprint key ` set changes"
proof -
  obtain source' scan rows where "List.find (\<lambda>r. src_key r = key) (t_sources (work s)) = Some source'"
    and c: "t_changes (work s') =
      update_where (\<lambda>r. open_row (src_id source') r \<and> ch_fingerprint r \<notin> change_fingerprint key ` set changes)
        (mark_resolved fin) (t_changes (work s)) @ rows"
    and r: "list_all2 (recorded_as key source' scan now (work s))
      (filter (\<lambda>c. change_fingerprint key c \<notin> open_fingerprints (src_id source') (work s)) changes) rows"
    by (rule complete_drift_scan_Inr [OF assms(1)])
  then have "source' = source" using assms(2) by simp
  then show ?thesis using open_after_merge [OF r c] by simp
qed

text \<open>C13. The end-to-end contract of a drift scan: the changes it reports are the difference between
  the stored baseline and the collected schema under the stored dependencies, and afterwards
  exactly these changes are open for the source.\<close>

theorem run_scan_reports_drift:
  assumes "run_scan (sql_scan_repository env) collect f g key trigger s = (Inr report, s')"
    and "\<not> report_baseline_created report"
    and "List.find (\<lambda>r. src_key r = key) (t_sources (work s)) = Some source"
  shows "\<exists>observed expected.
    collect key = Inr observed \<and>
    mapR column_of_row (expected_rows (env_collate env) (src_id source) (work s)) = Inr expected \<and>
    diff_columns expected observed
      (map (\<lambda>(e, d). ColumnRef (row_ref d) (le_up_column e)) (dependency_rows (env_collate env) (src_id source) (work s)))
      = Inr (report_changes report) \<and>
    open_fingerprints (src_id source) (work s') = change_fingerprint key ` set (report_changes report)"
proof -
  obtain i s2 scan where b: "scan_body (sql_scan_repository env) collect f key trigger i s2 = (Inr report, s')"
    and w: "work s2 = (work s)\<lparr>t_scans := t_scans (work s) @ [scan]\<rparr>"
    by (rule run_scan_Inr [OF assms(1)])
  obtain observed expected deps where c: "collect key = Inr observed"
    and e: "load_expected_columns (env_collate env) key s2 = (Inr expected, s2)"
    and d: "load_dependency_columns (env_collate env) key s2 = (Inr deps, s2)"
    and diff: "diff_columns expected observed deps = Inr (report_changes report)"
    and drift: "complete_drift_scan (env_channels env) (env_now env) i key observed (report_changes report) f s2 = (Inr (), s')"
    by (rule scan_body_drift [OF b assms(2)])
  have same: "expected_rows c sid (work s2) = expected_rows c sid (work s)"
    "dependency_rows c sid (work s2) = dependency_rows c sid (work s)" for c sid
    by (simp_all add: w expected_rows_def dependency_rows_def)
  have src: "List.find (\<lambda>r. src_key r = key) (t_sources (work s2)) = Some source" using assms(3) by (simp add: w)
  have "open_fingerprints (src_id source) (work s') = change_fingerprint key ` set (report_changes report)"
    by (rule drift_scan_opens [OF drift src])
  moreover have "mapR column_of_row (expected_rows (env_collate env) (src_id source) (work s)) = Inr expected"
    using e src by (auto simp: load_expected_Inr same)
  moreover have "deps = map (\<lambda>(e, d). ColumnRef (row_ref d) (le_up_column e))
      (dependency_rows (env_collate env) (src_id source) (work s))"
    using d src by (auto simp: load_dependencies_Inr same)
  ultimately show ?thesis using c diff by blast
qed

text \<open>A table that appeared after the baseline was taken makes every scan fail: a change for a
  dataset that is not registered for the source, and not already open, cannot be recorded.\<close>

theorem new_table_cannot_be_recorded:
  assumes "c \<in> set changes" and "List.find (\<lambda>r. src_key r = key) (t_sources (work s)) = Some source"
    and "change_fingerprint key c \<notin> open_fingerprints (src_id source) (work s)"
    and "\<forall>d \<in> set (t_datasets (work s)). ds_source d = src_id source \<longrightarrow> row_ref d \<noteq> change_dataset c"
  shows "\<exists>e s'. complete_drift_scan channels now i key observed changes f s = (Inl e, s')"
proof (rule ccontr)
  assume "\<not> (\<exists>e s'. complete_drift_scan channels now i key observed changes f s = (Inl e, s'))"
  then obtain s' where run: "complete_drift_scan channels now i key observed changes f s = (Inr (), s')"
    by (metis old.unit.exhaust sum.exhaust surj_pair)
  obtain source' scan rows where "List.find (\<lambda>r. src_key r = key) (t_sources (work s)) = Some source'"
    and rows: "list_all2 (recorded_as key source' scan now (work s))
      (filter (\<lambda>c. change_fingerprint key c \<notin> open_fingerprints (src_id source') (work s)) changes) rows"
    by (rule complete_drift_scan_Inr [OF run])
  then have "c \<in> set (filter (\<lambda>c. change_fingerprint key c \<notin> open_fingerprints (src_id source') (work s)) changes)"
    and [simp]: "source' = source" using assms(1-3) by auto
  then obtain r where "recorded_as key source scan now (work s) c r"
    using rows unfolding list_all2_conv_all_nth in_set_conv_nth by metis
  then show False using assms(4) by (auto simp: recorded_as_def)
qed

theorem new_table_cannot_be_recorded_witness:
  "\<exists>e s'. complete_drift_scan [] 0 3 ''warehouse'' [] [sample_drop ''public'' ''users''] 0 sample_session = (Inl e, s')"
  by (rule new_table_cannot_be_recorded [where source = sample_source and c = "sample_drop ''public'' ''users''"])
    (simp_all add: sample_source_found, simp_all add: sample_defs open_fingerprints_def row_ref_def)

section \<open>An example run\<close>

definition sample_env :: scan_env where
  "sample_env = \<lparr>env_acquired = True, env_channels = [SLACK], env_started = 0, env_now = 0, env_collate = id\<rparr>"

definition sample_collect :: "bool \<Rightarrow> string \<Rightarrow> py_error + column_definition list" where
  "sample_collect nullable key = Inr [sample_column ''id'' ''bigint'' nullable]"

definition sample_change :: schema_change where
  "sample_change = build_change (ColumnRef (DatasetRef ''public'' ''orders'') ''id'') NULLABILITY_CHANGE WARNING
     (Some (sample_column ''id'' ''bigint'' False)) (Some (sample_column ''id'' ''bigint'' True))"

definition sample_running :: session where
  "sample_running = sample_session\<lparr>work := sample_tables\<lparr>t_scans := t_scans sample_tables @
     [\<lparr>sc_id = 10, sc_source = 0, sc_trigger = MANUAL, sc_status = RUNNING, sc_started = 0,
       sc_finished = None, sc_duration = None, sc_error_code = None, sc_error_message = None\<rparr>]\<rparr>,
     id_supply := 11\<rparr>"

lemma sample_create: "create_running_scan ''warehouse'' MANUAL 0 sample_session = (Inr 10, sample_running)"
  by (simp add: create_running_scan_def run_defs sample_running_def sample_defs constraint_defs at_most_def int32_def)

lemma sample_running_usable: "usable sample_running"
  by (simp add: usable_def sample_running_def sample_defs constraint_defs at_most_def int32_def)

lemma sample_load_expected:
  "load_expected_columns id ''warehouse'' sample_running = (Inr [sample_column ''id'' ''bigint'' False], sample_running)"
  by (simp add: load_expected_Inr sample_running_usable)
    (simp add: sample_running_def sample_defs expected_rows_def column_of_row_def row_ref_def sample_column_def)

lemma sample_load_dependencies:
  "load_dependency_columns id ''warehouse'' sample_running = (Inr [], sample_running)"
  by (simp add: load_dependencies_Inr sample_running_usable)
    (simp add: sample_running_def sample_defs dependency_rows_def)

lemma sample_diff:
  "diff_columns [sample_column ''id'' ''bigint'' False] [sample_column ''id'' ''bigint'' True] [] = Inr [sample_change]"
  by (simp add: diff_columns_def columns_by_ref_def sample_column_def col_ref_def Let_def
      compare_column_def make_change_def build_change_def sample_change_def)

lemma sample_change_simps [simp]:
  "change_dataset sample_change = DatasetRef ''public'' ''orders''" "change_column sample_change = ''id''"
  "change_severity sample_change = WARNING"
  by (simp_all add: sample_change_def build_change_def)

lemma sample_observed:
  "col_dataset (sample_column n t b) = DatasetRef ''public'' ''orders''" "col_name (sample_column n t b) = n"
  "col_default (sample_column n t b) = None" "col_ordinal (sample_column n t b) = 1"
  by (simp_all add: sample_column_def)

lemma sample_drift:
  "\<exists>s'. complete_drift_scan [SLACK] 0 10 ''warehouse'' [sample_column ''id'' ''bigint'' True] [sample_change] 0
     sample_running = (Inr (), s')"
  by (simp add: sample_run_defs sample_running_def observed_row_of_def sample_observed at_most_def [of 1000])

lemma sample_session_usable: "usable sample_session"
  by (simp add: usable_def sample_defs constraint_defs at_most_def int32_def)

lemma sample_run:
  obtains s' where "run_scan (sql_scan_repository sample_env) (sample_collect True) 0 0 ''warehouse'' MANUAL sample_session =
    (Inr \<lparr>report_scan_id = 10, report_source_key = ''warehouse'', report_trigger = MANUAL,
          report_baseline_created = False, report_observed_count = 1, report_changes = [sample_change]\<rparr>, s')"
proof -
  let ?repo = "sql_scan_repository sample_env"
  have lock: "op_try_lock ?repo ''warehouse'' sample_session = (Inr True, sample_session)"
    by (simp add: sql_scan_repository_def sample_env_def try_source_lock_def usable_run sample_session_usable)
  have create: "op_create ?repo ''warehouse'' MANUAL sample_session = (Inr 10, sample_running)"
    by (simp add: sql_scan_repository_def sample_env_def sample_create)
  have reads: "op_expected ?repo ''warehouse'' sample_running = (Inr [sample_column ''id'' ''bigint'' False], sample_running)"
    "op_dependencies ?repo ''warehouse'' sample_running = (Inr [], sample_running)"
    by (simp_all add: sql_scan_repository_def sample_env_def sample_load_expected sample_load_dependencies)
  obtain s' where "op_drift ?repo 10 ''warehouse'' [sample_column ''id'' ''bigint'' True] [sample_change] 0 sample_running = (Inr (), s')"
    using sample_drift by (auto simp: sql_scan_repository_def sample_env_def)
  then have body: "scan_body ?repo (sample_collect True) 0 ''warehouse'' MANUAL 10 sample_running =
      (Inr \<lparr>report_scan_id = 10, report_source_key = ''warehouse'', report_trigger = MANUAL,
          report_baseline_created = False, report_observed_count = 1, report_changes = [sample_change]\<rparr>, s')"
    by (simp add: scan_body_def sample_collect_def bindA_def thenA_def reads sample_diff)
  show thesis
    by (rule that [of s']) (simp add: run_scan_def bindA_def lock create exceptA_def body)
qed

theorem run_scan_completes_witness:
  "\<exists>s'. scan_status_of s' = (scan_status_of sample_session)(10 \<mapsto> COMPLETED)"
proof -
  obtain s' where "run_scan (sql_scan_repository sample_env) (sample_collect True) 0 0 ''warehouse'' MANUAL sample_session =
    (Inr \<lparr>report_scan_id = 10, report_source_key = ''warehouse'', report_trigger = MANUAL,
          report_baseline_created = False, report_observed_count = 1, report_changes = [sample_change]\<rparr>, s')"
    by (rule sample_run)
  from run_scan_completes [OF this] show ?thesis by auto
qed

theorem run_scan_reports_drift_witness:
  "\<exists>s' :: session. open_fingerprints 0 (work s') = {change_fingerprint ''warehouse'' sample_change}"
proof -
  obtain s' where run: "run_scan (sql_scan_repository sample_env) (sample_collect True) 0 0 ''warehouse'' MANUAL sample_session =
    (Inr \<lparr>report_scan_id = 10, report_source_key = ''warehouse'', report_trigger = MANUAL,
          report_baseline_created = False, report_observed_count = 1, report_changes = [sample_change]\<rparr>, s')"
    by (rule sample_run)
  have "open_fingerprints (src_id sample_source) (work s') = {change_fingerprint ''warehouse'' sample_change}"
    using run_scan_reports_drift [OF run _ sample_source_found] by auto
  then show ?thesis by (auto simp: sample_source_def)
qed

lemma sample_empty_run:
  "\<exists>s'. run_scan (sql_scan_repository sample_env) (\<lambda>_. Inr []) 0 0 ''warehouse'' MANUAL sample_session =
     (Inl (EmptySchemaSnapshot ''warehouse''), s') \<and> \<not> poisoned s'"
proof -
  let ?repo = "sql_scan_repository sample_env"
  have lock: "op_try_lock ?repo ''warehouse'' sample_session = (Inr True, sample_session)"
    by (simp add: sql_scan_repository_def sample_env_def try_source_lock_def usable_run sample_session_usable)
  have create: "op_create ?repo ''warehouse'' MANUAL sample_session = (Inr 10, sample_running)"
    by (simp add: sql_scan_repository_def sample_env_def sample_create)
  have body: "scan_body ?repo (\<lambda>_. Inr []) 0 ''warehouse'' MANUAL 10 sample_running =
      (Inl (EmptySchemaSnapshot ''warehouse''), sample_running)"
    by (simp add: scan_body_def bindA_def)
  have "\<exists>s'. fail_scan [SLACK] 0 10 ''EmptySchemaSnapshot'' ''schema collection failed'' 0 sample_running = (Inr (), s') \<and>
      \<not> poisoned s'"
    by (simp add: fail_scan_def run_defs sample_running_def sample_defs constraint_defs at_most_def int32_def
        delivery_row_of_def)
  then obtain s' where "op_fail ?repo 10 ''EmptySchemaSnapshot'' ''schema collection failed'' 0 sample_running = (Inr (), s')"
    "\<not> poisoned s'"
    by (auto simp: sql_scan_repository_def sample_env_def)
  then show ?thesis
    by (intro exI [of _ s']) (simp add: run_scan_def bindA_def lock create exceptA_def body thenA_def)
qed

theorem run_scan_raises_witness:
  "\<exists>s' i. scan_status_of s' = (scan_status_of sample_session)(i \<mapsto> scan_status.FAILED)"
proof -
  obtain s' where "run_scan (sql_scan_repository sample_env) (\<lambda>_. Inr []) 0 0 ''warehouse'' MANUAL sample_session =
     (Inl (EmptySchemaSnapshot ''warehouse''), s')" "\<not> poisoned s'"
    using sample_empty_run by blast
  from run_scan_raises [OF this] show ?thesis by auto
qed

theorem run_scan_locked_witness:
  "run_scan (sql_scan_repository (sample_env\<lparr>env_acquired := False\<rparr>)) (sample_collect True) 0 0 ''warehouse'' MANUAL
     sample_session = (Inl (ScanAlreadyRunning ''warehouse''), sample_session)"
  by (rule run_scan_locked) (simp_all add: sample_session_usable)

end
