(* ===== verification/ChangeService.thy ===== *)
theory ChangeService
  imports Prelude
begin

text \<open>
  \<open>application/change_service.py\<close>: accepting a schema change into the baseline, guarded by the
  version of the baseline the operator has seen. \<open>ChangeService.accept\<close> is written against the
  persistence port; \<open>spec_accept\<close> is the abstract step it implements, and the locale
  \<open>acceptance_protocol\<close> proves the refinement from the laws of the port.
\<close>

section \<open>The service\<close>

text \<open>What \<open>acceptance_transaction\<close> yields: the version of the locked source and the operation that
  applies the change and returns the new version.\<close>

record 's locked_acceptance =
  la_baseline_version :: int
  la_apply :: "('s, int) action"

record 's change_persistence =
  op_acceptance :: "uuid \<Rightarrow> ('s, 's locked_acceptance option) action"

record acceptance_result =
  accepted_change :: uuid
  accepted_version :: int

definition accept :: "'s change_persistence \<Rightarrow> uuid \<Rightarrow> int \<Rightarrow> ('s, acceptance_result) action" where
  "accept repo change_id expected_baseline_version =
     bindA (op_acceptance repo change_id) (\<lambda>locked.
       case locked of
         None \<Rightarrow> raiseA (ChangeNotFound change_id)
       | Some l \<Rightarrow>
           if la_baseline_version l \<noteq> expected_baseline_version then
             raiseA (BaselineVersionConflict expected_baseline_version (la_baseline_version l))
           else
             bindA (la_apply l) (\<lambda>v.
               returnA \<lparr>accepted_change = change_id, accepted_version = v\<rparr>))"

section \<open>The abstract step\<close>

text \<open>
  The open changes, each with its source and the version of that source's baseline. Accepting one
  takes it out and increments the version all other open changes of its source carry.
\<close>

type_synonym open_changes = "uuid \<Rightarrow> (uuid \<times> int) option"

definition take_accepted :: "uuid \<Rightarrow> uuid \<Rightarrow> open_changes \<Rightarrow> open_changes" where
  "take_accepted c source m = (\<lambda>c'. if c' = c then None
     else map_option (\<lambda>(source', v). (source', if source' = source then v + 1 else v)) (m c'))"

definition spec_accept :: "uuid \<Rightarrow> int \<Rightarrow> open_changes \<Rightarrow> py_error + (int \<times> open_changes)" where
  "spec_accept c expected m = (case m c of
       None \<Rightarrow> Inl (ChangeNotFound c)
     | Some (source, v) \<Rightarrow>
         if v \<noteq> expected then Inl (BaselineVersionConflict expected v)
         else Inr (v + 1, take_accepted c source m))"

lemma spec_accept_Inr:
  "spec_accept c e m = Inr (v, m') \<longleftrightarrow>
     (\<exists>source. m c = Some (source, e) \<and> v = e + 1 \<and> m' = take_accepted c source m)"
  by (auto simp: spec_accept_def split: option.splits)

section \<open>Refinement\<close>

locale acceptance_protocol =
  fixes repo :: "'s change_persistence"
    and opens :: "'s \<Rightarrow> open_changes"
    and alive :: "'s \<Rightarrow> bool"
  assumes finds: "alive s \<Longrightarrow> \<exists>l. op_acceptance repo c s = (Inr l, s)"
    and none: "op_acceptance repo c s = (Inr None, s') \<Longrightarrow> opens s c = None"
    and some: "op_acceptance repo c s = (Inr (Some l), s') \<Longrightarrow>
      \<exists>source. opens s c = Some (source, la_baseline_version l)"
    and applies: "op_acceptance repo c s = (Inr (Some l), s1) \<Longrightarrow> la_apply l s1 = (Inr v, s') \<Longrightarrow>
      opens s c = Some (source, w) \<Longrightarrow> v = w + 1 \<and> opens s' = take_accepted c source (opens s)"
begin

lemma refines_return:
  assumes "accept repo c e s = (Inr r, s')"
  shows "spec_accept c e (opens s) = Inr (accepted_version r, opens s') \<and> accepted_change r = c"
proof -
  obtain l s1 v where l: "op_acceptance repo c s = (Inr (Some l), s1)" and e: "la_baseline_version l = e"
    and a: "la_apply l s1 = (Inr v, s')" and r: "r = \<lparr>accepted_change = c, accepted_version = v\<rparr>"
    using assms by (auto simp: accept_def action_simps split: option.splits if_splits)
  obtain source where o: "opens s c = Some (source, e)" using some [OF l] e by auto
  then show ?thesis using applies [OF l a o] r by (simp add: spec_accept_def)
qed

lemma refines_refusal:
  assumes "alive s" and "spec_accept c e (opens s) = Inl err"
  shows "accept repo c e s = (Inl err, s)"
proof -
  obtain l where l: "op_acceptance repo c s = (Inr l, s)" using finds [OF assms(1)] by blast
  show ?thesis
  proof (cases l)
    case None
    then have "opens s c = None" using l none [of c s s] by simp
    then have "err = ChangeNotFound c" using assms(2) by (simp add: spec_accept_def)
    then show ?thesis using l None by (simp add: accept_def bindA_def)
  next
    case (Some l')
    then obtain source where o: "opens s c = Some (source, la_baseline_version l')"
      using some [of c s l' s] l by auto
    then have "la_baseline_version l' \<noteq> e" "err = BaselineVersionConflict e (la_baseline_version l')"
      using assms(2) by (auto simp: spec_accept_def split: if_splits)
    then show ?thesis using l Some by (simp add: accept_def bindA_def)
  qed
qed

lemma accept_once:
  assumes "accept repo c e s = (Inr r, s')" and "alive s'"
  shows "accept repo c e' s' = (Inl (ChangeNotFound c), s')"
proof (rule refines_refusal [OF assms(2)])
  obtain source where "opens s' = take_accepted c source (opens s)"
    using refines_return [OF assms(1)] by (auto simp: spec_accept_Inr)
  then have "opens s' c = None" by (simp add: take_accepted_def)
  then show "spec_accept c e' (opens s') = Inl (ChangeNotFound c)" by (simp add: spec_accept_def)
qed

end

end
