(* ===== verification/ChangeRepo.thy ===== *)
theory ChangeRepo
  imports ScanRuns ChangeService
begin

text \<open>
  \<open>SqlAlchemyLockedAcceptance\<close> and the operations of \<open>ChangeRepository\<close> on schema changes
  (\<open>repositories/changes.py\<close>), and the proof that they provide the acceptance protocol. The lock of
  the source row serialises acceptances; one session is modelled here, interleaved ones in
  \<open>AcceptRace\<close>.
\<close>

section \<open>Reading the stored metadata\<close>

definition payload_get :: "json \<Rightarrow> string \<Rightarrow> py_error + json option" where
  "payload_get payload key = (case payload of
       JObj kvs \<Rightarrow> Inr (map_of kvs key)
     | _ \<Rightarrow> Inl (AttributeError ''get''))"

definition payload_item :: "json \<Rightarrow> string \<Rightarrow> py_error + json" where
  "payload_item payload key = (case payload of
       JObj kvs \<Rightarrow> (case map_of kvs key of None \<Rightarrow> Inl (KeyError key) | Some j \<Rightarrow> Inr j)
     | _ \<Rightarrow> Inl (TypeError ''indices''))"

fun py_bool :: "json \<Rightarrow> bool" where
  "py_bool JNull = False"
| "py_bool (JBool b) = b"
| "py_bool (JInt i) = (i \<noteq> 0)"
| "py_bool (JStr s) = (s \<noteq> [])"
| "py_bool (JArr js) = (js \<noteq> [])"
| "py_bool (JObj kvs) = (kvs \<noteq> [])"

fun py_int_of :: "json \<Rightarrow> py_error + int" where
  "py_int_of (JInt i) = Inr i"
| "py_int_of (JBool b) = Inr (if b then 1 else 0)"
| "py_int_of (JStr s) = (case py_int s of None \<Rightarrow> Inl (ValueError ''int'') | Some i \<Rightarrow> Inr i)"
| "py_int_of _ = Inl (TypeError ''int'')"

definition data_type_of :: "json \<Rightarrow> py_error + json" where
  "data_type_of payload = bindR (payload_get payload ''data_type'') (\<lambda>data_type.
     case data_type of
       Some (JObj kvs) \<Rightarrow> Inr (JObj kvs)
     | _ \<Rightarrow> Inl (ValueError ''column metadata is missing data_type''))"

definition optional_string :: "json option \<Rightarrow> string option" where
  "optional_string value = (case value of Some (JStr s) \<Rightarrow> Some s | _ \<Rightarrow> None)"

section \<open>Applying a change\<close>

definition find_expected :: "change_row \<Rightarrow> tables \<Rightarrow> expected_row option" where
  "find_expected change t =
     List.find (\<lambda>e. ex_dataset e = ch_dataset change \<and> ex_name e = ch_column change) (t_expected t)"

definition added_row :: "change_row \<Rightarrow> json \<Rightarrow> uuid \<Rightarrow> py_error + expected_row" where
  "added_row change after i =
     bindR (data_type_of after) (\<lambda>data_type.
     bindR (payload_item after ''nullable'') (\<lambda>nullable.
     bindR (payload_get after ''default'') (\<lambda>default.
     bindR (payload_get after ''ordinal'') (\<lambda>ordinal.
     bindR (py_int_of (case ordinal of None \<Rightarrow> JInt 0 | Some j \<Rightarrow> j)) (\<lambda>n.
       Inr \<lparr>ex_id = i, ex_dataset = ch_dataset change, ex_name = ch_column change, ex_type = data_type,
            ex_nullable = py_bool nullable, ex_default = optional_string default, ex_ordinal = n\<rparr>)))))"

definition set_expected :: "expected_row \<Rightarrow> (expected_row \<Rightarrow> expected_row) \<Rightarrow> unit db" where
  "set_expected e f = modify (\<lambda>t. t\<lparr>t_expected := update_where (\<lambda>r. ex_id r = ex_id e) f (t_expected t)\<rparr>)"

definition apply_to_baseline :: "change_row \<Rightarrow> expected_row option \<Rightarrow> unit db" where
  "apply_to_baseline change expected =
     (case ch_kind change of
        ADD_COLUMN \<Rightarrow>
          (case ch_after change of
             None \<Rightarrow> raiseA (ValueError ''added column change is missing after metadata'')
           | Some after \<Rightarrow>
               (case expected of
                  None \<Rightarrow> bindA new_id (\<lambda>i. bindA (liftA (added_row change after i)) (\<lambda>row.
                    modify (\<lambda>t. t\<lparr>t_expected := t_expected t @ [row]\<rparr>)))
                | Some _ \<Rightarrow> returnA ()))
      | DROP_COLUMN \<Rightarrow>
          (case expected of
             None \<Rightarrow> raiseA (ValueError ''dropped baseline column does not exist'')
           | Some e \<Rightarrow> modify (\<lambda>t. t\<lparr>t_expected := filter (\<lambda>r. ex_id r \<noteq> ex_id e) (t_expected t)\<rparr>))
      | _ \<Rightarrow>
          (case (expected, ch_after change) of
             (Some e, Some after) \<Rightarrow>
               bindA (liftA (data_type_of after)) (\<lambda>data_type.
               thenA (set_expected e (\<lambda>r. r\<lparr>ex_type := data_type\<rparr>))
               (bindA (liftA (payload_item after ''nullable'')) (\<lambda>nullable.
               thenA (set_expected e (\<lambda>r. r\<lparr>ex_nullable := py_bool nullable\<rparr>))
               (bindA (liftA (payload_get after ''default'')) (\<lambda>default.
                  set_expected e (\<lambda>r. r\<lparr>ex_default := optional_string default\<rparr>))))))
           | _ \<Rightarrow> raiseA (ValueError ''changed baseline column metadata is incomplete'')))"

definition bump_version :: "source_row \<Rightarrow> source_row" where
  "bump_version r = r\<lparr>src_version := src_version r + 1\<rparr>"

definition mark_accepted :: "time \<Rightarrow> change_row \<Rightarrow> change_row" where
  "mark_accepted now r = r\<lparr>ch_state := ACCEPTED, ch_accepted := Some now\<rparr>"

definition apply_change :: "time \<Rightarrow> source_row \<Rightarrow> change_row \<Rightarrow> int db" where
  "apply_change now source change =
     bindA (query (find_expected change)) (\<lambda>expected.
     thenA (apply_to_baseline change expected)
     (thenA (modify (\<lambda>t. t\<lparr>t_sources := update_where (\<lambda>r. src_id r = src_id source) bump_version (t_sources t)\<rparr>))
     (thenA (modify (\<lambda>t. t\<lparr>t_changes := update_where (\<lambda>r. ch_id r = ch_id change) (mark_accepted now) (t_changes t)\<rparr>))
     (thenA flush (returnA (src_version source + 1))))))"

section \<open>The repository\<close>

definition find_open :: "uuid \<Rightarrow> string \<Rightarrow> change_row option db" where
  "find_open source_id fingerprint =
     query (\<lambda>t. List.find (\<lambda>c. ch_source c = source_id \<and> ch_fingerprint c = fingerprint \<and> ch_state c = OPEN)
       (t_changes t))"

definition list_open_for_source :: "uuid \<Rightarrow> change_row list db" where
  "list_open_for_source source_id =
     query (\<lambda>t. sort_key (\<lambda>c. (ch_created c, ch_id c))
       (filter (\<lambda>c. ch_source c = source_id \<and> ch_state c = OPEN) (t_changes t)))"

definition find_open_change :: "uuid \<Rightarrow> tables \<Rightarrow> change_row option" where
  "find_open_change change_id t = List.find (\<lambda>c. ch_id c = change_id \<and> ch_state c = OPEN) (t_changes t)"

definition acceptance_transaction :: "time \<Rightarrow> uuid \<Rightarrow> session locked_acceptance option db" where
  "acceptance_transaction now change_id =
     bindA (query (find_open_change change_id)) (\<lambda>change.
       case change of
         None \<Rightarrow> returnA None
       | Some c \<Rightarrow>
           bindA (query (\<lambda>t. List.find (\<lambda>r. src_id r = ch_source c) (t_sources t))) (\<lambda>source.
             case source of
               None \<Rightarrow> returnA None
             | Some r \<Rightarrow> returnA (Some \<lparr>la_baseline_version = src_version r, la_apply = apply_change now r c\<rparr>)))"

definition sql_change_repository :: "time \<Rightarrow> session change_persistence" where
  "sql_change_repository now = \<lparr>op_acceptance = acceptance_transaction now\<rparr>"

section \<open>What applying a change does\<close>

lemma find_map_same:
  assumes "\<And>r. r \<in> set rows \<Longrightarrow> P (g r) = P r"
  shows "List.find P (map g rows) = map_option g (List.find P rows)"
  using assms by (induction rows) auto

text \<open>Only the expected columns change while the baseline is updated; afterwards the source and the
  change are marked.\<close>

lemma apply_to_baseline_frame:
  assumes "apply_to_baseline change expected s = (Inr u, s')"
  shows "\<exists>rows. work s' = (work s)\<lparr>t_expected := rows\<rparr> \<and> durable s' = durable s \<and> poisoned s' = poisoned s"
  using assms
  by (auto simp: apply_to_baseline_def set_expected_def action_simps split: change_type.splits option.splits)
    (rule exI [of _ "t_expected (work s)"], simp)

lemma apply_change_Inr:
  assumes "apply_change now source change s = (Inr v, s')"
  obtains s1 rows where "usable s" and "usable s'" and "durable s' = durable s" and "v = src_version source + 1"
    and "apply_to_baseline change (find_expected change (work s)) s = (Inr (), s1)"
    and "work s1 = (work s)\<lparr>t_expected := rows\<rparr>"
    and "work s' = (work s)\<lparr>t_expected := rows,
       t_sources := update_where (\<lambda>r. src_id r = src_id source) bump_version (t_sources (work s)),
       t_changes := update_where (\<lambda>r. ch_id r = ch_id change) (mark_accepted now) (t_changes (work s))\<rparr>"
proof -
  obtain s1 where a: "apply_to_baseline change (find_expected change (work s)) s = (Inr (), s1)"
    using assms by (auto simp: apply_change_def action_simps)
  obtain rows where f: "work s1 = (work s)\<lparr>t_expected := rows\<rparr>" "durable s1 = durable s"
    using apply_to_baseline_frame [OF a] by blast
  show thesis
    by (rule that [of s1 rows])
      (use assms a f in \<open>auto simp: apply_change_def action_simps usable_def\<close>)
qed

section \<open>The repository provides the protocol\<close>

definition open_versions :: "session \<Rightarrow> open_changes" where
  "open_versions s c = (case find_open_change c (work s) of
       None \<Rightarrow> None
     | Some chg \<Rightarrow> map_option (\<lambda>r. (src_id r, src_version r))
         (List.find (\<lambda>r. src_id r = ch_source chg) (t_sources (work s))))"

lemma acceptance_transaction_Inr:
  "acceptance_transaction now c s = (Inr l, s') \<longleftrightarrow> s' = s \<and> usable s \<and>
     l = (case find_open_change c (work s) of
            None \<Rightarrow> None
          | Some chg \<Rightarrow> map_option (\<lambda>r. \<lparr>la_baseline_version = src_version r, la_apply = apply_change now r chg\<rparr>)
              (List.find (\<lambda>r. src_id r = ch_source chg) (t_sources (work s))))"
  by (auto simp: acceptance_transaction_def action_simps usable_def split: option.splits)

lemma open_versions_after:
  assumes "apply_change now source change s = (Inr v, s')"
    and "find_open_change c (work s) = Some change"
    and "List.find (\<lambda>r. src_id r = ch_source change) (t_sources (work s)) = Some source"
  shows "open_versions s' = take_accepted c (src_id source) (open_versions s)"
proof
  fix c'
  obtain rows where w: "work s' = (work s)\<lparr>t_expected := rows,
       t_sources := update_where (\<lambda>r. src_id r = src_id source) bump_version (t_sources (work s)),
       t_changes := update_where (\<lambda>r. ch_id r = ch_id change) (mark_accepted now) (t_changes (work s))\<rparr>"
    by (rule apply_change_Inr [OF assms(1)])
  have id: "ch_id change = c" using assms(2) by (auto simp: find_open_change_def find_Some_iff)
  have changes: "t_changes (work s') =
      map (\<lambda>r. if ch_id r = ch_id change then mark_accepted now r else r) (t_changes (work s))"
    by (simp add: w update_where_def)
  have sources: "List.find (\<lambda>r. src_id r = x) (t_sources (work s')) =
      map_option (\<lambda>r. if src_id r = src_id source then bump_version r else r)
        (List.find (\<lambda>r. src_id r = x) (t_sources (work s)))" for x
    unfolding w update_where_def by (simp, rule find_map_same) (simp add: bump_version_def)
  show "open_versions s' c' = take_accepted c (src_id source) (open_versions s) c'"
  proof (cases "c' = c")
    case True
    have "\<not> (ch_id r = c \<and> ch_state r = OPEN)" if r: "r \<in> set (t_changes (work s'))" for r
    proof -
      from r obtain r0 where "r = (if ch_id r0 = c then mark_accepted now r0 else r0)"
        unfolding changes id set_map by (elim imageE)
      then show ?thesis by (cases "ch_id r0 = c") (simp_all add: mark_accepted_def)
    qed
    then have "find_open_change c (work s') = None" by (simp add: find_open_change_def find_None_iff)
    then show ?thesis by (simp add: True take_accepted_def open_versions_def)
  next
    case False
    have "find_open_change c' (work s') =
        map_option (\<lambda>r. if ch_id r = ch_id change then mark_accepted now r else r) (find_open_change c' (work s))"
      unfolding find_open_change_def changes using False id
      by (intro find_map_same) (auto simp: mark_accepted_def)
    moreover have "ch_id r \<noteq> ch_id change" if "find_open_change c' (work s) = Some r" for r
      using that False id by (auto simp: find_open_change_def find_Some_iff)
    ultimately have "find_open_change c' (work s') = find_open_change c' (work s)"
      by (cases "find_open_change c' (work s)") auto
    then show ?thesis using False
    proof (cases "find_open_change c' (work s)")
      case (Some chg)
      then show ?thesis
        using \<open>find_open_change c' (work s') = find_open_change c' (work s)\<close> False
        by (cases "List.find (\<lambda>r. src_id r = ch_source chg) (t_sources (work s))")
          (simp_all add: open_versions_def take_accepted_def sources bump_version_def)
    qed (simp add: open_versions_def take_accepted_def)
  qed
qed

interpretation sql_changes: acceptance_protocol "sql_change_repository now" open_versions usable
  for now
proof
  fix s c s' l s1 v source w
  show "usable s \<Longrightarrow> \<exists>l. op_acceptance (sql_change_repository now) c s = (Inr l, s)"
    by (auto simp: sql_change_repository_def acceptance_transaction_Inr)
  show "op_acceptance (sql_change_repository now) c s = (Inr None, s') \<Longrightarrow> open_versions s c = None"
    by (auto simp: sql_change_repository_def acceptance_transaction_Inr open_versions_def split: option.splits)
  show "op_acceptance (sql_change_repository now) c s = (Inr (Some l), s') \<Longrightarrow>
      \<exists>source. open_versions s c = Some (source, la_baseline_version l)"
    by (auto simp: sql_change_repository_def acceptance_transaction_Inr open_versions_def
        dest!: sym [of "Some _"] split: option.splits)
  assume op: "op_acceptance (sql_change_repository now) c s = (Inr (Some l), s1)"
    and ap: "la_apply l s1 = (Inr v, s')" and o: "open_versions s c = Some (source, w)"
  obtain chg r where f: "find_open_change c (work s) = Some chg"
    "List.find (\<lambda>r. src_id r = ch_source chg) (t_sources (work s)) = Some r"
    and l: "l = \<lparr>la_baseline_version = src_version r, la_apply = apply_change now r chg\<rparr>" "s1 = s"
    using op by (auto simp: sql_change_repository_def acceptance_transaction_Inr
        dest!: sym [of "Some _"] split: option.splits)
  then have "source = src_id r" "w = src_version r" using o by (auto simp: open_versions_def)
  then show "v = w + 1 \<and> open_versions s' = take_accepted c source (open_versions s)"
    using open_versions_after [OF _ f] ap l by (auto elim: apply_change_Inr)
qed

end
