(* ===== verification/Acceptance.thy ===== *)
theory Acceptance
  imports ChangeRepo
begin

text \<open>
  Accepting changes end to end: the repository implements the abstract step, a change is accepted at
  most once, and accepting a change that a scan reported removes from the comparison exactly the
  differences of its column.
\<close>

section \<open>The baseline as a set of entries\<close>

lemma mapR_map: "mapR f xs = Inr ys \<longleftrightarrow> map f xs = map Inr ys"
  by (induction xs arbitrary: ys) (auto simp: bindR_eq_Inr Cons_eq_map_conv)

lemma option_same: "(\<And>y. a = Some y \<longleftrightarrow> b = Some y) \<Longrightarrow> a = b"
  by (metis not_Some_eq)

definition entry_of :: "uuid \<Rightarrow> column_ref \<Rightarrow> column_definition \<Rightarrow> expected_row \<Rightarrow> dataset_row \<Rightarrow> bool" where
  "entry_of source_id ref col e d \<longleftrightarrow> ex_dataset e = ds_id d \<and> ds_source d = source_id \<and>
     row_ref d = ref_dataset ref \<and> ex_name e = ref_name ref \<and> column_of_row (e, d) = Inr col"

definition baseline_entry :: "tables \<Rightarrow> uuid \<Rightarrow> column_ref \<Rightarrow> column_definition \<Rightarrow> bool" where
  "baseline_entry t source_id ref col \<longleftrightarrow>
     (\<exists>e \<in> set (t_expected t). \<exists>d \<in> set (t_datasets t). entry_of source_id ref col e d)"

lemma entry_ofD:
  assumes "entry_of source_id ref col e d"
  shows "ds_source d = source_id" "ex_dataset e = ds_id d" "row_ref d = ref_dataset ref" "ex_name e = ref_name ref"
    "column_of_row (e, d) = Inr col"
  using assms by (simp_all add: entry_of_def)

lemma set_expected_rows:
  "(e, d) \<in> set (expected_rows collate source_id t) \<longleftrightarrow>
     e \<in> set (t_expected t) \<and> d \<in> set (t_datasets t) \<and> ex_dataset e = ds_id d \<and> ds_source d = source_id"
  by (auto simp: expected_rows_def)

lemma column_of_row_ref: "column_of_row (e, d) = Inr col \<Longrightarrow> col_ref col = ColumnRef (row_ref d) (ex_name e)"
  by (auto simp: column_of_row_def bindR_eq_Inr col_ref_def)

lemma row_ref_eq: "row_ref d = row_ref d' \<longleftrightarrow> ds_schema d = ds_schema d' \<and> ds_table d = ds_table d'"
  by (simp add: row_ref_def)

lemma same_dataset:
  assumes "integrity_ok t" and "d \<in> set (t_datasets t)" and "d' \<in> set (t_datasets t)"
    and "ds_id d = ds_id d' \<or> ds_source d = ds_source d' \<and> row_ref d = row_ref d'"
  shows "d = d'"
  using assms(4)
proof
  have "unique_on ds_id (t_datasets t)" using assms(1) by (simp add: integrity_ok_def catalog_constraints_def)
  then show "ds_id d = ds_id d' \<Longrightarrow> d = d'" by (rule unique_onD [OF _ assms(2,3)])
  have "unique_on (\<lambda>d. (ds_source d, ds_schema d, ds_table d)) (t_datasets t)"
    using assms(1) by (simp add: integrity_ok_def catalog_constraints_def)
  then show "ds_source d = ds_source d' \<and> row_ref d = row_ref d' \<Longrightarrow> d = d'"
    by (rule unique_onD [OF _ assms(2,3)]) (simp add: row_ref_eq)
qed

lemma same_expected:
  assumes "integrity_ok t" and "e \<in> set (t_expected t)" and "e' \<in> set (t_expected t)"
    and "ex_id e = ex_id e' \<or> ex_dataset e = ex_dataset e' \<and> ex_name e = ex_name e'"
  shows "e = e'"
  using assms(4)
proof
  have "unique_on ex_id (t_expected t)" using assms(1) by (simp add: integrity_ok_def catalog_constraints_def)
  then show "ex_id e = ex_id e' \<Longrightarrow> e = e'" by (rule unique_onD [OF _ assms(2,3)])
  have "unique_on (\<lambda>e. (ex_dataset e, ex_name e)) (t_expected t)"
    using assms(1) by (simp add: integrity_ok_def catalog_constraints_def)
  then show "ex_dataset e = ex_dataset e' \<and> ex_name e = ex_name e' \<Longrightarrow> e = e'"
    by (rule unique_onD [OF _ assms(2,3)]) simp
qed

lemma latest_baseline:
  assumes "integrity_ok t" and "mapR column_of_row (expected_rows collate source_id t) = Inr cs"
  shows "latest cs ref = Some col \<longleftrightarrow> baseline_entry t source_id ref col"
proof -
  have cs: "col \<in> set cs \<longleftrightarrow> (\<exists>e d. (e, d) \<in> set (expected_rows collate source_id t) \<and> column_of_row (e, d) = Inr col)"
    for col
  proof -
    have "col \<in> set cs \<longleftrightarrow> Inr col \<in> set (map column_of_row (expected_rows collate source_id t))"
      using assms(2) unfolding mapR_map by auto
    then show ?thesis by (auto simp: image_iff) (metis prod.exhaust)+
  qed
  have in_cs: "baseline_entry t source_id ref col \<longleftrightarrow> col \<in> set cs \<and> col_ref col = ref" for col
  proof -
    have "entry_of source_id ref col e d \<longleftrightarrow> (ex_dataset e = ds_id d \<and> ds_source d = source_id) \<and>
        column_of_row (e, d) = Inr col \<and> col_ref col = ref" for e d
      using column_of_row_ref [of e d col] by (cases ref) (auto simp: entry_of_def)
    then show ?thesis unfolding cs set_expected_rows baseline_entry_def by blast
  qed
  have unique: "col = col'" if "baseline_entry t source_id ref col" "baseline_entry t source_id ref col'" for col col'
  proof -
    from that obtain e d e' d' where e: "e \<in> set (t_expected t)" "d \<in> set (t_datasets t)" "entry_of source_id ref col e d"
      and e': "e' \<in> set (t_expected t)" "d' \<in> set (t_datasets t)" "entry_of source_id ref col' e' d'"
      unfolding baseline_entry_def by blast
    note D = entry_ofD [OF e(3)] and D' = entry_ofD [OF e'(3)]
    have "d = d'" by (rule same_dataset [OF assms(1) e(2) e'(2)]) (simp add: D(1,3) D'(1,3))
    moreover have "e = e'"
      by (rule same_expected [OF assms(1) e(1) e'(1)]) (simp add: D(2,4) D'(2,4) \<open>d = d'\<close>)
    ultimately show ?thesis using e(3) e'(3) by (simp add: entry_of_def)
  qed
  show ?thesis
  proof
    assume "latest cs ref = Some col"
    then have "col \<in> set cs" by (auto simp: latest_def dest!: map_of_SomeD)
    then show "baseline_entry t source_id ref col" using latest_ref \<open>latest cs ref = Some col\<close> in_cs by blast
  next
    assume b: "baseline_entry t source_id ref col"
    then have "ref \<in> dom (latest cs)" unfolding dom_latest in_cs by blast
    then obtain col' where l: "latest cs ref = Some col'" by blast
    then have "col' \<in> set cs" by (auto simp: latest_def dest!: map_of_SomeD)
    then have "baseline_entry t source_id ref col'" using latest_ref [OF l] in_cs by blast
    then show "latest cs ref = Some col" using unique [OF b] l by blast
  qed
qed

section \<open>Replacing the entry of one column\<close>

text \<open>The rows of \<open>t'\<close> are those of \<open>t\<close> except that the row of column \<open>name\<close> of dataset \<open>d\<close> is now
  \<open>new\<close>.\<close>

definition entry_replaced :: "tables \<Rightarrow> tables \<Rightarrow> dataset_row \<Rightarrow> string \<Rightarrow> expected_row option \<Rightarrow> bool" where
  "entry_replaced t t' d name new \<longleftrightarrow> t_datasets t' = t_datasets t \<and>
     (\<forall>e. new = Some e \<longrightarrow> ex_dataset e = ds_id d \<and> ex_name e = name) \<and>
     (\<forall>e. e \<in> set (t_expected t') \<longleftrightarrow>
        e \<in> set (t_expected t) \<and> \<not> (ex_dataset e = ds_id d \<and> ex_name e = name) \<or> new = Some e)"

lemma entry_replaced_baseline:
  assumes "integrity_ok t" and "entry_replaced t t' d name new" and d: "d \<in> set (t_datasets t)" "ds_source d = source_id"
  shows "baseline_entry t' source_id ref col \<longleftrightarrow>
    (if ref = ColumnRef (row_ref d) name then \<exists>e. new = Some e \<and> column_of_row (e, d) = Inr col
     else baseline_entry t source_id ref col)"
proof -
  note same = same_dataset [OF assms(1)]
  show ?thesis
  proof (cases "ref = ColumnRef (row_ref d) name")
    case True
    have key: "d' = d \<and> ex_dataset e = ds_id d \<and> ex_name e = name"
      if "d' \<in> set (t_datasets t)" "entry_of source_id ref col e d'" for e d'
    proof -
      have "d' = d" by (rule same [OF that(1) d(1)]) (simp add: entry_ofD [OF that(2)] True d(2))
      then show ?thesis using entry_ofD [OF that(2)] True by simp
    qed
    have "entry_of source_id ref col e d \<longleftrightarrow> column_of_row (e, d) = Inr col" if "new = Some e" for e
      using assms(2) d that True by (auto simp: entry_of_def entry_replaced_def)
    then have "(\<exists>e. new = Some e \<and> column_of_row (e, d) = Inr col) \<longleftrightarrow> (\<exists>e. new = Some e \<and> entry_of source_id ref col e d)"
      by blast
    moreover have "baseline_entry t' source_id ref col \<longleftrightarrow> (\<exists>e. new = Some e \<and> entry_of source_id ref col e d)"
    proof
      assume "baseline_entry t' source_id ref col"
      then obtain e d' where e: "e \<in> set (t_expected t')" "d' \<in> set (t_datasets t)" "entry_of source_id ref col e d'"
        using assms(2) unfolding baseline_entry_def entry_replaced_def by auto
      then have "new = Some e" using key [OF e(2,3)] assms(2) unfolding entry_replaced_def by blast
      then show "\<exists>e. new = Some e \<and> entry_of source_id ref col e d" using e key by blast
    next
      assume "\<exists>e. new = Some e \<and> entry_of source_id ref col e d"
      then show "baseline_entry t' source_id ref col"
        using assms(2) d(1) unfolding baseline_entry_def entry_replaced_def by auto
    qed
    ultimately show ?thesis using True by simp
  next
    case False
    have "e \<in> set (t_expected t') \<longleftrightarrow> e \<in> set (t_expected t)"
      if e: "d' \<in> set (t_datasets t)" "entry_of source_id ref col e d'" for e d'
    proof -
      have "\<not> (ex_dataset e = ds_id d \<and> ex_name e = name)"
      proof
        assume k: "ex_dataset e = ds_id d \<and> ex_name e = name"
        then have "d' = d" using entry_ofD(2) [OF e(2)] by (intro same [OF e(1) d(1)]) simp
        then show False using False entry_ofD(3,4) [OF e(2)] k by (cases ref) simp
      qed
      then show ?thesis using assms(2) unfolding entry_replaced_def by blast
    qed
    moreover have "t_datasets t' = t_datasets t" using assms(2) by (simp add: entry_replaced_def)
    ultimately show ?thesis using False unfolding baseline_entry_def by auto
  qed
qed

lemma entry_replaced_loads:
  assumes "integrity_ok t" and "mapR column_of_row (expected_rows collate source_id t) = Inr cs"
    and "entry_replaced t t' d name new" and "d \<in> set (t_datasets t)"
    and "\<And>e. new = Some e \<Longrightarrow> \<exists>col. column_of_row (e, d) = Inr col"
  shows "\<exists>cs'. mapR column_of_row (expected_rows collate source_id t') = Inr cs'"
proof -
  have "\<exists>col. column_of_row x = Inr col" if x: "x \<in> set (expected_rows collate source_id t')" for x
  proof -
    obtain e d' where x_def: "x = (e, d')" by fastforce
    have e: "e \<in> set (t_expected t')" "d' \<in> set (t_datasets t)" "ex_dataset e = ds_id d'" "ds_source d' = source_id"
    proof -
      have "t_datasets t' = t_datasets t" using assms(3) by (simp add: entry_replaced_def)
      then show "e \<in> set (t_expected t')" "d' \<in> set (t_datasets t)" "ex_dataset e = ds_id d'" "ds_source d' = source_id"
        using x unfolding x_def set_expected_rows by simp_all
    qed
    consider "e \<in> set (t_expected t)" | "new = Some e" using e(1) assms(3) by (auto simp: entry_replaced_def)
    then show ?thesis
    proof cases
      case 1
      then have "column_of_row x \<in> set (map column_of_row (expected_rows collate source_id t))"
        using e by (auto simp: x_def set_expected_rows)
      then show ?thesis using assms(2) unfolding mapR_map by auto
    next
      case 2
      then have "d' = d" using e assms(3) by (intro same_dataset [OF assms(1) _ assms(4)]) (auto simp: entry_replaced_def)
      then show ?thesis using assms(5) [OF 2] x_def by simp
    qed
  qed
  then have "\<forall>x \<in> set (expected_rows collate source_id t'). column_of_row x = Inr (projr (column_of_row x))"
    by fastforce
  then show ?thesis using mapR_Inr [of _ column_of_row "\<lambda>x. projr (column_of_row x)"] by blast
qed

section \<open>Accepting a recorded change\<close>

lemma canonical_payload:
  "data_type_of (column_canonical_dict x) = Inr (type_canonical_dict (col_type x))"
  "payload_item (column_canonical_dict x) ''nullable'' = Inr (JBool (col_nullable x))"
  "payload_get (column_canonical_dict x) ''default'' = Inr (Some (json_str_opt (col_default x)))"
  "payload_get (column_canonical_dict x) ''ordinal'' = Inr (Some (JInt (col_ordinal x)))"
  by (simp_all add: data_type_of_def payload_get_def payload_item_def column_canonical_dict_def type_canonical_dict_def)

lemma optional_string_json [simp]: "optional_string (Some (json_str_opt v)) = v"
  by (cases v) (simp_all add: optional_string_def json_str_opt_def)

lemma column_of_canonical_row:
  "ex_type e = type_canonical_dict ty \<Longrightarrow> \<exists>col. column_of_row (e, d) = Inr col \<and> col_type col = ty \<and>
     col_nullable col = ex_nullable e"
  by (simp add: column_of_row_def)

definition update_row :: "column_definition \<Rightarrow> expected_row \<Rightarrow> expected_row" where
  "update_row x r = r\<lparr>ex_type := type_canonical_dict (col_type x), ex_nullable := col_nullable x,
     ex_default := col_default x\<rparr>"

text \<open>The rows of the baseline after a recorded change has been applied.\<close>

lemma apply_recorded:
  assumes r: "r = change_row_of key source scan created d i c"
    and a: "apply_to_baseline r expected s = (Inr (), s1)"
  shows "case (change_kind c, expected) of
      (ADD_COLUMN, None) \<Rightarrow> \<exists>x e. change_after c = Some x \<and> t_expected (work s1) = t_expected (work s) @ [e] \<and>
        ex_dataset e = ds_id d \<and> ex_name e = change_column c \<and> ex_type e = type_canonical_dict (col_type x) \<and>
        ex_nullable e = col_nullable x
    | (ADD_COLUMN, Some e0) \<Rightarrow> t_expected (work s1) = t_expected (work s)
    | (DROP_COLUMN, None) \<Rightarrow> False
    | (DROP_COLUMN, Some e0) \<Rightarrow> t_expected (work s1) = filter (\<lambda>r. ex_id r \<noteq> ex_id e0) (t_expected (work s))
    | (_, None) \<Rightarrow> False
    | (_, Some e0) \<Rightarrow> \<exists>x. change_after c = Some x \<and>
        t_expected (work s1) = update_where (\<lambda>r. ex_id r = ex_id e0) (update_row x) (t_expected (work s))"
proof -
  have r': "ch_kind r = change_kind c" "ch_dataset r = ds_id d" "ch_column r = change_column c"
    "ch_after r = map_option column_canonical_dict (change_after c)"
    by (simp_all add: r change_row_of_def)
  have twice: "update_where (\<lambda>r. ex_id r = k) h (update_where (\<lambda>r. ex_id r = k) g (update_where (\<lambda>r. ex_id r = k) f rows)) =
      update_where (\<lambda>r. ex_id r = k) (\<lambda>r. h (g (f r))) rows"
    if "\<And>r. ex_id (f r) = ex_id r" "\<And>r. ex_id (g r) = ex_id r" for k f g h and rows :: "expected_row list"
    by (auto simp: update_where_def that)
  show ?thesis
  proof (cases "change_kind c")
    case ADD_COLUMN
    then show ?thesis using a
      by (cases expected)
        (auto simp: apply_to_baseline_def r' action_simps added_row_def canonical_payload split: option.splits)
  next
    case DROP_COLUMN
    then show ?thesis using a
      by (cases expected) (auto simp: apply_to_baseline_def r' action_simps)
  next
    case TYPE_CHANGE
    then show ?thesis using a
      by (cases expected; cases "change_after c")
        (auto simp: apply_to_baseline_def r' action_simps canonical_payload set_expected_def twice update_row_def [abs_def])
  next
    case NULLABILITY_CHANGE
    then show ?thesis using a
      by (cases expected; cases "change_after c")
        (auto simp: apply_to_baseline_def r' action_simps canonical_payload set_expected_def twice update_row_def [abs_def])
  qed
qed

lemma find_expected_Some:
  assumes "find_expected r t = Some e"
  shows "e \<in> set (t_expected t) \<and> ex_dataset e = ch_dataset r \<and> ex_name e = ch_column r"
  using assms by (auto simp: find_expected_def find_Some_iff)

lemma find_expected_None:
  "find_expected r t = None \<longleftrightarrow> (\<forall>e \<in> set (t_expected t). \<not> (ex_dataset e = ch_dataset r \<and> ex_name e = ch_column r))"
  by (auto simp: find_expected_def find_None_iff)

lemma expected_key:
  assumes "integrity_ok t" and "find_expected r t = Some e0" and "e \<in> set (t_expected t)"
  shows "ex_id e = ex_id e0 \<longleftrightarrow> ex_dataset e = ch_dataset r \<and> ex_name e = ch_column r"
proof -
  note e0 = find_expected_Some [OF assms(2)]
  have "e = e0" if "ex_id e = ex_id e0 \<or> ex_dataset e = ex_dataset e0 \<and> ex_name e = ex_name e0"
    by (rule same_expected [OF assms(1,3) _ that]) (simp add: e0)
  then show ?thesis using e0 by auto
qed

lemma recorded_replaces:
  assumes ok: "integrity_ok (work s)" and r: "r = change_row_of key source scan created d i c"
    and a: "apply_to_baseline r (find_expected r (work s)) s = (Inr (), s1)"
    and w: "work s1 = (work s)\<lparr>t_expected := rows\<rparr>"
    and add: "change_kind c = ADD_COLUMN \<Longrightarrow> find_expected r (work s) = None"
    and drop: "change_kind c = DROP_COLUMN \<Longrightarrow> change_after c = None"
  obtains new where "entry_replaced (work s) (work s1) d (change_column c) new"
    and "case change_after c of None \<Rightarrow> new = None
         | Some x \<Rightarrow> \<exists>e. new = Some e \<and> ex_type e = type_canonical_dict (col_type x) \<and> ex_nullable e = col_nullable x"
proof -
  note applied = apply_recorded [OF r a]
  have key: "ch_dataset r = ds_id d" "ch_column r = change_column c" by (simp_all add: r change_row_of_def)
  have ds: "t_datasets (work s1) = t_datasets (work s)" by (simp add: w)
  show thesis
  proof (cases "find_expected r (work s)")
    case None
    then obtain x e where e: "change_after c = Some x" "t_expected (work s1) = t_expected (work s) @ [e]"
      "ex_dataset e = ds_id d" "ex_name e = change_column c" "ex_type e = type_canonical_dict (col_type x)"
      "ex_nullable e = col_nullable x"
      using applied by (cases "change_kind c") auto
    have "entry_replaced (work s) (work s1) d (change_column c) (Some e)"
      using None e ds by (auto simp: entry_replaced_def find_expected_None key)
    then show thesis by (rule that) (simp add: e)
  next
    case (Some e0)
    note k = expected_key [OF ok Some, unfolded key]
    have not_add: "change_kind c \<noteq> ADD_COLUMN" using add Some by auto
    show thesis
    proof (cases "change_kind c = DROP_COLUMN")
      case True
      then have "t_expected (work s1) = filter (\<lambda>r. ex_id r \<noteq> ex_id e0) (t_expected (work s))"
        using applied Some by simp
      then have "entry_replaced (work s) (work s1) d (change_column c) None"
        using k ds by (auto simp: entry_replaced_def)
      then show thesis by (rule that) (simp add: drop True)
    next
      case False
      then obtain x where x: "change_after c = Some x" and
        rows: "t_expected (work s1) = update_where (\<lambda>r. ex_id r = ex_id e0) (update_row x) (t_expected (work s))"
        using applied Some not_add by (cases "change_kind c") auto
      have e0: "e0 \<in> set (t_expected (work s))" "ex_dataset e0 = ds_id d" "ex_name e0 = change_column c"
        using find_expected_Some [OF Some] by (simp_all add: key)
      have "e = e0" if "e \<in> set (t_expected (work s))" "ex_id e = ex_id e0" for e
        using same_expected [OF ok that(1) e0(1)] that(2) by blast
      then have "e \<in> set (t_expected (work s1)) \<longleftrightarrow>
          e \<in> set (t_expected (work s)) \<and> ex_id e \<noteq> ex_id e0 \<or> e = update_row x e0" for e
        using e0(1) unfolding rows update_where_def set_map image_iff
        by (cases "ex_id e = ex_id e0") (metis (full_types))+
      then have "entry_replaced (work s) (work s1) d (change_column c) (Some (update_row x e0))"
        using k e0 ds by (auto simp: entry_replaced_def update_row_def)
      then show thesis by (rule that) (simp add: x update_row_def)
    qed
  qed
qed

lemma strictly_sorted_unique:
  fixes f :: "'a \<Rightarrow> 'b :: linorder"
  assumes "sorted_wrt (\<lambda>x y. f x < f y) xs" and "sorted_wrt (\<lambda>x y. f x < f y) ys" and "set xs = set ys"
  shows "xs = ys"
proof -
  have strict: "sorted_wrt (<) (map f xs)" "sorted_wrt (<) (map f ys)" using assms by (simp_all add: sorted_wrt_map)
  then have "map f xs = map f ys" by (intro strict_sorted_equal) (simp_all add: assms(3))
  moreover have "inj_on f (set xs \<union> set ys)"
    using strict(1) assms(3) by (auto simp: strict_sorted_iff distinct_map)
  ultimately show ?thesis by (rule map_inj_on)
qed

lemma diff_after_accept:
  assumes cs: "diff_columns expected observed deps = Inr cs" and "c \<in> set cs"
    and same: "\<And>ref. ref \<noteq> change_ref c \<Longrightarrow> latest expected' ref = latest expected ref"
    and at: "map_option column_shape (latest expected' (change_ref c)) = map_option column_shape (change_after c)"
  shows "diff_columns expected' observed deps = Inr (filter (\<lambda>c'. change_ref c' \<noteq> change_ref c) cs)"
proof -
  obtain cs' where cs': "diff_columns expected' observed deps = Inr cs'" using diff_columns_total by blast
  have sorted: "sorted_wrt (\<lambda>c d. change_sort_key c < change_sort_key d) ds" if "diff_columns e observed deps = Inr ds" for e ds
    by (rule diff_columns_result [of e observed deps]) (use that in simp)
  have after: "change_after c = latest observed (change_ref c)" using diff_columns_mem [OF cs] assms(2) by blast
  have "c' \<in> set cs' \<longleftrightarrow> c' \<in> set cs \<and> change_ref c' \<noteq> change_ref c" for c'
  proof (cases "change_ref c' = change_ref c")
    case True
    have "required_severity (change_ref c \<in> set deps) (latest expected' (change_ref c)) (latest observed (change_ref c)) k = None" for k
      using nothing_required [THEN iffD2, OF at [unfolded after]] by simp
    then show ?thesis by (simp add: diff_columns_mem [OF cs'] True)
  next
    case False
    then show ?thesis by (simp add: diff_columns_mem [OF cs'] diff_columns_mem [OF cs] same)
  qed
  then have "cs' = filter (\<lambda>c'. change_ref c' \<noteq> change_ref c) cs"
    by (intro strictly_sorted_unique [OF sorted [OF cs'] sorted_wrt_filter [OF sorted [OF cs]]]) auto
  then show ?thesis using cs' by simp
qed

section \<open>Accepting a change\<close>

text \<open>C10. Accepting refines the abstract step: a call that returns has accepted the change, has
  incremented the version of its source, returned the new version and left every other open change
  open; a call that the abstract step refuses, because the change is not open or the version is
  not the current one, raises that refusal and changes nothing.\<close>

theorem accept_refines:
  assumes "usable s"
  shows "(\<forall>err. spec_accept c v (open_versions s) = Inl err \<longrightarrow>
      accept (sql_change_repository now) c v s = (Inl err, s)) \<and>
    (\<forall>r s'. accept (sql_change_repository now) c v s = (Inr r, s') \<longrightarrow>
      spec_accept c v (open_versions s) = Inr (accepted_version r, open_versions s') \<and> accepted_change r = c)"
  using sql_changes.refines_refusal [OF assms] sql_changes.refines_return by blast

lemma accept_Inr:
  assumes "accept (sql_change_repository now) c v s = (Inr r, s')"
  obtains chg source where "find_open_change c (work s) = Some chg"
    and "List.find (\<lambda>r. src_id r = ch_source chg) (t_sources (work s)) = Some source" and "src_version source = v"
    and "apply_change now source chg s = (Inr (v + 1), s')" and "accepted_version r = v + 1"
proof -
  obtain l where l: "acceptance_transaction now c s = (Inr (Some l), s)" and v: "la_baseline_version l = v"
    and a: "la_apply l s = (Inr (accepted_version r), s')"
    using assms by (auto simp: accept_def action_simps sql_change_repository_def acceptance_transaction_Inr
        split: option.splits if_splits)
  obtain chg source where f: "find_open_change c (work s) = Some chg"
    "List.find (\<lambda>r. src_id r = ch_source chg) (t_sources (work s)) = Some source"
    and l': "l = \<lparr>la_baseline_version = src_version source, la_apply = apply_change now source chg\<rparr>"
    using l by (auto simp: acceptance_transaction_Inr dest!: sym [of "Some _"] split: option.splits)
  have "accepted_version r = v + 1" using a v l' by (auto elim: apply_change_Inr)
  then show thesis using that f v a l' by simp
qed


text \<open>C32. Accepting a change that a scan recorded against the current baseline brings the baseline
  up to date in exactly its column: comparing the same observation again gives the other
  differences as before and none in that column. So a difference of the column's nullability is
  accepted together with a difference of its type, whether or not it was accepted itself.\<close>

theorem accept_clears_column:
  assumes "diff_columns expected observed deps = Inr cs" and "c \<in> set cs"
    and "mapR column_of_row (expected_rows collate source_id (work s)) = Inr expected"
    and "find_open_change change_id (work s) = Some (change_row_of key source scan created d i c)"
    and "d \<in> set (t_datasets (work s))" and "ds_source d = source_id" and "row_ref d = change_dataset c"
    and "accept (sql_change_repository now) change_id v s = (Inr result, s')"
  shows "\<exists>expected'. mapR column_of_row (expected_rows collate source_id (work s')) = Inr expected' \<and>
    diff_columns expected' observed deps = Inr (filter (\<lambda>c'. change_ref c' \<noteq> change_ref c) cs)"
proof -
  let ?r = "change_row_of key source scan created d i c"
  obtain source' where ap: "apply_change now source' ?r s = (Inr (v + 1), s')"
    by (rule accept_Inr [OF assms(8)]) (use assms(4) in auto)
  obtain s1 rows where us: "usable s" "usable s'" and a: "apply_to_baseline ?r (find_expected ?r (work s)) s = (Inr (), s1)"
    and w: "work s1 = (work s)\<lparr>t_expected := rows\<rparr>"
    and w': "t_expected (work s') = rows" "t_datasets (work s') = t_datasets (work s)"
    by (rule apply_change_Inr [OF ap]) auto
  have ok: "integrity_ok (work s)" "integrity_ok (work s')" using us by (simp_all add: usable_def)
  have ref: "ColumnRef (row_ref d) (change_column c) = change_ref c" by (simp add: change_ref_def assms(7))
  note mem = diff_columns_mem [OF assms(1), THEN iffD1, OF assms(2)]
  note entry = latest_baseline [OF ok(1) assms(3)]
  have kinds: "change_kind c = ADD_COLUMN \<Longrightarrow> latest expected (change_ref c) = None"
    "change_kind c = DROP_COLUMN \<Longrightarrow> change_after c = None"
    using mem by (cases "change_before c"; cases "change_after c"; auto)+
  have absent: "find_expected ?r (work s) = None" if "latest expected (change_ref c) = None"
  proof (rule ccontr)
    assume "find_expected ?r (work s) \<noteq> None"
    then obtain e where e: "e \<in> set (t_expected (work s))" "ex_dataset e = ds_id d" "ex_name e = change_column c"
      using find_expected_Some by (fastforce simp: change_row_of_def)
    then have "column_of_row (e, d) \<in> set (map column_of_row (expected_rows collate source_id (work s)))"
      using assms(5,6) by (auto simp: set_expected_rows)
    then obtain col where "column_of_row (e, d) = Inr col" using assms(3) unfolding mapR_map by auto
    then have "baseline_entry (work s) source_id (change_ref c) col"
      using e assms(5-7) by (auto simp: baseline_entry_def entry_of_def change_ref_def)
    then show False using that by (simp add: entry [symmetric])
  qed
  have add: "change_kind c = ADD_COLUMN \<Longrightarrow> find_expected ?r (work s) = None" using absent kinds(1) by simp
  obtain new where new: "entry_replaced (work s) (work s1) d (change_column c) new"
    and after: "case change_after c of None \<Rightarrow> new = None
         | Some x \<Rightarrow> \<exists>e. new = Some e \<and> ex_type e = type_canonical_dict (col_type x) \<and> ex_nullable e = col_nullable x"
    by (rule recorded_replaces [OF ok(1) refl a w add kinds(2)])
  have new': "entry_replaced (work s) (work s') d (change_column c) new"
    using new w w' by (simp add: entry_replaced_def)
  have "\<exists>col. column_of_row (e, d) = Inr col" if "new = Some e" for e
    using after that column_of_canonical_row by (fastforce split: option.splits)
  then obtain expected' where ex: "mapR column_of_row (expected_rows collate source_id (work s')) = Inr expected'"
    using entry_replaced_loads [OF ok(1) assms(3) new' assms(5)] by blast
  note entry' = latest_baseline [OF ok(2) ex]
  note replaced = entry_replaced_baseline [OF ok(1) new' assms(5,6), unfolded ref]
  have "latest expected' x = latest expected x" if "x \<noteq> change_ref c" for x
  proof -
    have "latest expected' x = Some col \<longleftrightarrow> latest expected x = Some col" for col
      unfolding entry entry' replaced using that by (simp only: if_False simp_thms)
    then show ?thesis by (rule option_same)
  qed
  moreover have "map_option column_shape (latest expected' (change_ref c)) = map_option column_shape (change_after c)"
  proof (cases "change_after c")
    case None
    then have "new = None" using after by simp
    then have "latest expected' (change_ref c) \<noteq> Some col" for col unfolding entry' replaced by simp
    then show ?thesis using None by (cases "latest expected' (change_ref c)") auto
  next
    case (Some x)
    then obtain e col where "new = Some e" "column_of_row (e, d) = Inr col" "col_type col = col_type x"
      "col_nullable col = col_nullable x"
      using after column_of_canonical_row by fastforce
    moreover from this have "latest expected' (change_ref c) = Some col" unfolding entry' replaced by simp
    ultimately show ?thesis using Some by (simp add: column_shape_def)
  qed
  ultimately show ?thesis using ex diff_after_accept [OF assms(1,2)] by blast
qed

section \<open>An example\<close>

text \<open>The drop that the example scan of \<open>DriftMerge\<close> recorded is accepted.\<close>

abbreviation sample_row :: change_row where
  "sample_row \<equiv> change_row_of ''warehouse'' sample_source (hd (t_scans sample_tables)) 0
     (hd (t_datasets sample_tables)) 10 (sample_drop ''public'' ''orders'')"

lemma sample_after_usable: "usable sample_after"
  by (simp add: usable_def sample_after_def sample_defs constraint_defs at_most_def [of 63]
      at_most_def [of 100] at_most_def [of 200] int32_def change_row_of_def delivery_row_of_def)

lemma sample_find: "find_open_change 10 (work sample_after) = Some sample_row"
  by (simp add: find_open_change_def sample_after_def change_row_of_def)

lemma sample_versions: "open_versions sample_after 10 = Some (0, 1)"
  by (simp add: open_versions_def sample_find) (simp add: sample_after_def sample_defs change_row_of_def)

lemma sample_apply: "\<exists>s'. apply_change 0 sample_source sample_row sample_after = (Inr 2, s')"
proof -
  let ?e = "hd (t_expected sample_tables)"
  have find: "query (find_expected sample_row) sample_after = (Inr (Some ?e), sample_after)"
    by (simp add: usable_run(2) [OF sample_after_usable]) (simp add: find_expected_def sample_after_def sample_defs change_row_of_def)
  have kind: "ch_kind sample_row = DROP_COLUMN" by (simp add: change_row_of_def sample_drop_def Let_def)
  have id: "ch_id sample_row = 10" by (simp add: change_row_of_def)
  show ?thesis
    unfolding apply_change_def bindA_step(1) [where m = "query (find_expected sample_row)", OF find]
    by (simp add: apply_to_baseline_def kind id thenA_def bindA_def modify_def flush_def update_where_def)
      (simp add: sample_after_def sample_defs constraint_defs at_most_def [of 63]
      at_most_def [of 100] at_most_def [of 200] int32_def change_row_of_def delivery_row_of_def
      bump_version_def mark_accepted_def)
qed

lemma sample_accept:
  obtains s' where "accept (sql_change_repository 0) 10 1 sample_after = (Inr \<lparr>accepted_change = 10, accepted_version = 2\<rparr>, s')"
proof -
  obtain s' where s': "apply_change 0 sample_source sample_row sample_after = (Inr 2, s')" using sample_apply by blast
  have "List.find (\<lambda>r. src_id r = ch_source sample_row) (t_sources (work sample_after)) = Some sample_source"
    by (simp add: sample_after_def sample_defs change_row_of_def)
  then have "acceptance_transaction 0 10 sample_after =
      (Inr (Some \<lparr>la_baseline_version = 1, la_apply = apply_change 0 sample_source sample_row\<rparr>), sample_after)"
    unfolding acceptance_transaction_Inr sample_find by (simp add: sample_after_usable) (simp add: sample_source_def)
  then show thesis
    by (intro that [of s']) (simp add: accept_def sql_change_repository_def bindA_def s')
qed

theorem accept_refines_witness:
  "accept (sql_change_repository 0) 10 7 sample_after = (Inl (BaselineVersionConflict 7 1), sample_after)"
  using accept_refines [OF sample_after_usable, of 10 7] by (simp add: spec_accept_def sample_versions)


lemma sample_expected:
  "mapR column_of_row (expected_rows id 0 (work sample_after)) = Inr [sample_column ''id'' ''bigint'' False]"
  by (simp add: sample_after_def sample_defs expected_rows_def column_of_row_def row_ref_def sample_column_def)

lemma sample_drop_reported:
  "diff_columns [sample_column ''id'' ''bigint'' False] [] [ColumnRef (DatasetRef ''public'' ''orders'') ''id''] =
     Inr [sample_drop ''public'' ''orders'']"
  by (simp add: diff_columns_def columns_by_ref_def sample_column_def col_ref_def Let_def
      compare_column_def make_change_def sample_drop_def)

theorem accept_clears_column_witness:
  "\<exists>(s' :: session) expected'. mapR column_of_row (expected_rows id 0 (work s')) = Inr expected' \<and>
     diff_columns expected' [] [ColumnRef (DatasetRef ''public'' ''orders'') ''id''] = Inr []"
proof -
  let ?d = "hd (t_datasets sample_tables)"
  obtain s' where s': "accept (sql_change_repository 0) 10 1 sample_after = (Inr \<lparr>accepted_change = 10, accepted_version = 2\<rparr>, s')"
    by (rule sample_accept)
  have d: "?d \<in> set (t_datasets (work sample_after))" "ds_source ?d = 0"
    "row_ref ?d = change_dataset (sample_drop ''public'' ''orders'')"
    by (simp_all add: sample_after_def sample_defs row_ref_def)
  from accept_clears_column [OF sample_drop_reported _ sample_expected sample_find d s']
  show ?thesis by auto
qed

end
