(* ===== verification/AcceptRace.thy ===== *)
theory AcceptRace
  imports Acceptance
begin

text \<open>
  Concurrent acceptances. Each request runs \<open>ChangeService.accept\<close> in a transaction of its own at
  the isolation level read committed: it reads its change, waits for the row lock of the source
  (\<open>with_for_update\<close>), which shows it the committed row, and writes and commits while it holds the
  lock. The steps of the requests interleave with each other and with the commits of other
  transactions; no other code writes a source row. The states reachable from the start give what
  the version check guarantees, and what it does not.
\<close>

section \<open>The transitions\<close>

datatype phase =
    Requested uuid int
  | Picked int change_row
  | Holding int change_row source_row
  | Finished "py_error + int"

record race =
  r_db :: tables
  r_lock :: "uuid \<Rightarrow> nat option"
  r_phase :: "nat \<Rightarrow> phase"
  r_log :: "(nat \<times> uuid \<times> int) list"
  r_ids :: uuid

definition find_source_row :: "uuid \<Rightarrow> tables \<Rightarrow> source_row option" where
  "find_source_row i t = List.find (\<lambda>r. src_id r = i) (t_sources t)"

definition pick_phase :: "tables \<Rightarrow> uuid \<Rightarrow> int \<Rightarrow> phase" where
  "pick_phase t c e = (case find_open_change c t of
       None \<Rightarrow> Finished (Inl (ChangeNotFound c))
     | Some chg \<Rightarrow> Picked e chg)"

inductive race_step :: "time \<Rightarrow> race \<Rightarrow> race \<Rightarrow> bool" for now :: time where
  pick: "r_phase r i = Requested c e \<Longrightarrow>
    race_step now r (r\<lparr>r_phase := (r_phase r)(i := pick_phase (r_db r) c e)\<rparr>)"
| gone: "r_phase r i = Picked e chg \<Longrightarrow> find_source_row (ch_source chg) (r_db r) = None \<Longrightarrow>
    race_step now r (r\<lparr>r_phase := (r_phase r)(i := Finished (Inl (ChangeNotFound (ch_id chg))))\<rparr>)"
| lock: "r_phase r i = Picked e chg \<Longrightarrow> find_source_row (ch_source chg) (r_db r) = Some src \<Longrightarrow>
    r_lock r (src_id src) = None \<Longrightarrow> src_version src = e \<Longrightarrow>
    race_step now r (r\<lparr>r_phase := (r_phase r)(i := Holding e chg src), r_lock := (r_lock r)(src_id src \<mapsto> i)\<rparr>)"
| conflict: "r_phase r i = Picked e chg \<Longrightarrow> find_source_row (ch_source chg) (r_db r) = Some src \<Longrightarrow>
    r_lock r (src_id src) = None \<Longrightarrow> src_version src \<noteq> e \<Longrightarrow>
    race_step now r (r\<lparr>r_phase := (r_phase r)(i := Finished (Inl (BaselineVersionConflict e (src_version src))))\<rparr>)"
| commits: "r_phase r i = Holding e chg src \<Longrightarrow>
    apply_change now src chg (fresh_session (r_db r) (r_ids r)) = (Inr v, s') \<Longrightarrow>
    race_step now r (r\<lparr>r_phase := (r_phase r)(i := Finished (Inr v)), r_lock := (r_lock r)(src_id src := None),
      r_db := work s', r_ids := id_supply s', r_log := r_log r @ [(i, src_id src, e)]\<rparr>)"
| aborts: "r_phase r i = Holding e chg src \<Longrightarrow>
    apply_change now src chg (fresh_session (r_db r) (r_ids r)) = (Inl err, s') \<Longrightarrow>
    race_step now r (r\<lparr>r_phase := (r_phase r)(i := Finished (Inl err)), r_lock := (r_lock r)(src_id src := None)\<rparr>)"
| other: "t_sources t' = t_sources (r_db r) \<Longrightarrow> race_step now r (r\<lparr>r_db := t', r_ids := n\<rparr>)"

definition race_start :: "tables \<Rightarrow> (nat \<Rightarrow> uuid \<times> int) \<Rightarrow> uuid \<Rightarrow> race" where
  "race_start t requests n =
     \<lparr>r_db = t, r_lock = (\<lambda>_. None), r_phase = (\<lambda>i. Requested (fst (requests i)) (snd (requests i))),
      r_log = [], r_ids = n\<rparr>"

section \<open>The invariant\<close>

definition version_of :: "tables \<Rightarrow> uuid \<Rightarrow> int option" where
  "version_of t i = map_option src_version (find_source_row i t)"

definition versions_used :: "uuid \<Rightarrow> (nat \<times> uuid \<times> int) list \<Rightarrow> int list" where
  "versions_used source entries = map (\<lambda>(i, s, e). e) (filter (\<lambda>(i, s, e). s = source) entries)"

definition race_ok :: "tables \<Rightarrow> race \<Rightarrow> bool" where
  "race_ok t0 r \<longleftrightarrow>
     (\<forall>i e chg src. r_phase r i = Holding e chg src \<longrightarrow>
        r_lock r (src_id src) = Some i \<and> src_version src = e \<and> find_source_row (src_id src) (r_db r) = Some src) \<and>
     (\<forall>source v. version_of t0 source = Some v \<longrightarrow>
        versions_used source (r_log r) = map (\<lambda>k. v + int k) [0..<length (versions_used source (r_log r))] \<and>
        version_of (r_db r) source = Some (v + int (length (versions_used source (r_log r)))))"

lemma find_source_row_bump:
  "find_source_row i (t\<lparr>t_expected := rows, t_sources := update_where (\<lambda>r. src_id r = k) bump_version (t_sources t),
       t_changes := changes\<rparr>) =
     map_option (\<lambda>r. if i = k then bump_version r else r) (find_source_row i t)"
proof -
  have "List.find (\<lambda>r. src_id r = i) (map (\<lambda>r. if src_id r = k then bump_version r else r) rows) =
      map_option (\<lambda>r. if i = k then bump_version r else r) (List.find (\<lambda>r. src_id r = i) rows)" for rows :: "source_row list"
    by (induction rows) (auto simp: bump_version_def)
  then show ?thesis by (simp add: find_source_row_def update_where_def)
qed

lemma find_source_row_id: "find_source_row i t = Some src \<Longrightarrow> src_id src = i"
  by (auto simp: find_source_row_def find_Some_iff)

lemma versions_used_append:
  "versions_used source (entries @ [(i, s, e)]) = versions_used source entries @ (if s = source then [e] else [])"
  by (simp add: versions_used_def)

lemma race_ok_phase:
  assumes "race_ok t0 r" and "\<And>e chg src. ph \<noteq> Holding e chg src"
  shows "race_ok t0 (r\<lparr>r_phase := (r_phase r)(i := ph)\<rparr>)"
proof -
  have "(r_phase r)(i := ph) = (\<lambda>j. if j = i then ph else r_phase r j)" by (simp add: fun_eq_iff)
  then show ?thesis using assms unfolding race_ok_def by simp
qed

lemma race_step_ok:
  assumes "race_step now r r'" and "race_ok t0 r"
  shows "race_ok t0 r'"
  using assms
proof (induction rule: race_step.induct)
  case (pick r i c e)
  then show ?case by (intro race_ok_phase) (auto simp: pick_phase_def split: option.splits)
next
  case (gone r i e chg)
  then show ?case by (intro race_ok_phase) auto
next
  case (lock r i e chg src)
  have "find_source_row (src_id src) (r_db r) = Some src" using lock.hyps(2) find_source_row_id by metis
  moreover have "r_lock r (src_id src') = Some j \<and> src_version src' = e' \<and> find_source_row (src_id src') (r_db r) = Some src' \<and>
      src_id src' \<noteq> src_id src" if "r_phase r j = Holding e' chg' src'" for j e' chg' src'
  proof -
    have "r_lock r (src_id src') = Some j \<and> src_version src' = e' \<and> find_source_row (src_id src') (r_db r) = Some src'"
      using that lock.prems unfolding race_ok_def by blast
    then show ?thesis using lock.hyps(3) by auto
  qed
  ultimately show ?case
    using lock.hyps(4) lock.prems unfolding race_ok_def by (simp add: fun_upd_apply)
next
  case (conflict r i e chg src)
  then show ?case by (intro race_ok_phase) auto
next
  case (aborts r i e chg src err s')
  have "src_id src' \<noteq> src_id src" if "r_phase r j = Holding e' chg' src'" "j \<noteq> i" for j e' chg' src'
    using that aborts.hyps(1) aborts.prems unfolding race_ok_def by (metis option.inject)
  then show ?case using aborts.prems by (simp add: race_ok_def)
next
  case (other t' r n)
  then have "find_source_row i t' = find_source_row i (r_db r)" for i by (simp add: find_source_row_def)
  then show ?case using other.prems by (simp add: race_ok_def version_of_def)
next
  case (commits r i e chg src v s')
  let ?db = "r_db r"
  have hold: "r_lock r (src_id src) = Some i" "src_version src = e" "find_source_row (src_id src) ?db = Some src"
    using commits.hyps(1) commits.prems unfolding race_ok_def by blast+
  obtain rows where w: "work s' = ?db\<lparr>t_expected := rows,
       t_sources := update_where (\<lambda>r. src_id r = src_id src) bump_version (t_sources ?db),
       t_changes := update_where (\<lambda>r. ch_id r = ch_id chg) (mark_accepted now) (t_changes ?db)\<rparr>"
    by (rule apply_change_Inr [OF commits.hyps(2)]) (simp add: fresh_session_def)
  have src': "find_source_row k (work s') =
      map_option (\<lambda>r. if k = src_id src then bump_version r else r) (find_source_row k ?db)" for k
    unfolding w by (rule find_source_row_bump)
  have others: "src_id src' \<noteq> src_id src" if "r_phase r j = Holding e' chg' src'" "j \<noteq> i" for j e' chg' src'
    using that hold(1) commits.prems unfolding race_ok_def by (metis option.inject)
  have version: "version_of (work s') k = (if k = src_id src then Some (e + 1) else version_of ?db k)" for k
    using hold by (cases "find_source_row k ?db") (auto simp: version_of_def src' bump_version_def)
  have used: "versions_used k (r_log r @ [(i, src_id src, e)]) =
        map (\<lambda>j. u + int j) [0..<length (versions_used k (r_log r @ [(i, src_id src, e)]))] \<and>
      version_of (work s') k = Some (u + int (length (versions_used k (r_log r @ [(i, src_id src, e)]))))"
    if "version_of t0 k = Some u" for k u
  proof -
    have IH: "versions_used k (r_log r) = map (\<lambda>j. u + int j) [0..<length (versions_used k (r_log r))]"
      "version_of ?db k = Some (u + int (length (versions_used k (r_log r))))"
      using commits.prems that unfolding race_ok_def by blast+
    show ?thesis
    proof (cases "src_id src = k")
      case True
      then have "e = u + int (length (versions_used k (r_log r)))"
        using IH(2) hold by (auto simp: version_of_def)
      then show ?thesis using IH(1) True by (simp add: versions_used_append version)
    next
      case False
      then show ?thesis using IH by (simp add: versions_used_append version)
    qed
  qed
  have holding: "r_lock r (src_id src') = Some j \<and> src_version src' = e' \<and> find_source_row (src_id src') (work s') = Some src'"
    if "r_phase r j = Holding e' chg' src'" "j \<noteq> i" for j e' chg' src'
    using that others [OF that] commits.prems unfolding race_ok_def by (simp add: src')
  show ?case unfolding race_ok_def
    using used holding others by (simp add: fun_upd_apply)
qed

lemma race_reachable_ok:
  assumes "(race_step now)\<^sup>*\<^sup>* r r'" and "race_ok t0 r"
  shows "race_ok t0 r'"
  using assms by (induction rule: rtranclp_induct) (auto intro: race_step_ok)

lemma race_start_ok: "race_ok t (race_start t requests n)"
  by (simp add: race_ok_def race_start_def versions_used_def)

section \<open>What the version check guarantees\<close>

text \<open>C14. However the requests interleave with each other and with other transactions, the acceptances
  that succeed on one source name the versions of its baseline one after the other: each version is
  used by exactly one acceptance and the current version counts them. So no two operators accept on
  the same version of a baseline.\<close>

theorem acceptances_serialised:
  assumes "(race_step now)\<^sup>*\<^sup>* (race_start t requests n) r" and "version_of t source = Some v"
  shows "versions_used source (r_log r) = map (\<lambda>k. v + int k) [0..<length (versions_used source (r_log r))] \<and>
    version_of (r_db r) source = Some (v + int (length (versions_used source (r_log r))))"
  using race_reachable_ok [OF assms(1) race_start_ok] assms(2) unfolding race_ok_def by blast

section \<open>What it does not\<close>

abbreviation resolved_tables :: tables where
  "resolved_tables \<equiv> (work sample_after)\<lparr>t_changes := [mark_resolved 5 sample_row]\<rparr>"

lemma resolved_usable: "usable (fresh_session resolved_tables 12)"
  by (simp add: usable_def sample_after_def sample_defs constraint_defs at_most_def [of 63]
      at_most_def [of 100] at_most_def [of 200] int32_def change_row_of_def delivery_row_of_def mark_resolved_def)

lemma resolved_apply:
  "\<exists>s' :: session. apply_change 0 sample_source sample_row (fresh_session resolved_tables 12) = (Inr 2, s') \<and>
     (\<exists>c \<in> set (t_changes (work s')). ch_state c = ACCEPTED)"
proof -
  let ?s = "fresh_session resolved_tables 12"
  let ?e = "hd (t_expected sample_tables)"
  have find: "query (find_expected sample_row) ?s = (Inr (Some ?e), ?s)"
    by (simp add: usable_run(2) [OF resolved_usable])
      (simp add: find_expected_def sample_after_def sample_defs change_row_of_def)
  have kind: "ch_kind sample_row = DROP_COLUMN" by (simp add: change_row_of_def sample_drop_def Let_def)
  have id: "ch_id sample_row = 10" by (simp add: change_row_of_def)
  show ?thesis
    unfolding apply_change_def bindA_step(1) [where m = "query (find_expected sample_row)", OF find]
    by (simp add: apply_to_baseline_def kind id thenA_def bindA_def modify_def flush_def update_where_def)
      (simp add: sample_after_def sample_defs constraint_defs at_most_def [of 63]
      at_most_def [of 100] at_most_def [of 200] int32_def change_row_of_def delivery_row_of_def
      bump_version_def mark_accepted_def mark_resolved_def)
qed

lemma sample_trace:
  "\<exists>r r'. (race_step 0)\<^sup>*\<^sup>* (race_start (work sample_after) (\<lambda>_. (10, 1)) 12) r \<and> race_step 0 r r' \<and>
     map ch_state (t_changes (r_db r)) = [RESOLVED] \<and>
     r_phase r' 0 = Finished (Inr 2) \<and> (\<exists>c \<in> set (t_changes (r_db r')). ch_state c = ACCEPTED) \<and>
     r_log r' = [(0, 0, 1)]"
proof -
  define r0 where "r0 = race_start (work sample_after) (\<lambda>_. (10, 1)) 12"
  define r1 where "r1 = r0\<lparr>r_phase := (r_phase r0)(0 := Picked 1 sample_row)\<rparr>"
  define r2 where "r2 = r1\<lparr>r_db := resolved_tables, r_ids := 12\<rparr>"
  define r3 where "r3 = r2\<lparr>r_phase := (r_phase r2)(0 := Holding 1 sample_row sample_source),
    r_lock := (r_lock r2)(src_id sample_source \<mapsto> 0)\<rparr>"
  have "pick_phase (r_db r0) 10 1 = Picked 1 sample_row"
    by (simp add: pick_phase_def r0_def race_start_def sample_find)
  then have "race_step 0 r0 r1"
    using race_step.pick [of r0 0 10 1 0] by (simp add: r1_def) (simp add: r0_def race_start_def)
  moreover have "race_step 0 r1 r2"
    unfolding r2_def by (rule race_step.other) (simp add: r1_def r0_def race_start_def)
  moreover have "race_step 0 r2 r3"
    unfolding r3_def
  proof (rule race_step.lock)
    show "r_phase r2 0 = Picked 1 sample_row" by (simp add: r2_def r1_def)
    show "find_source_row (ch_source sample_row) (r_db r2) = Some sample_source"
      by (simp add: r2_def find_source_row_def sample_after_def sample_defs change_row_of_def)
    show "r_lock r2 (src_id sample_source) = None" by (simp add: r2_def r1_def r0_def race_start_def)
    show "src_version sample_source = 1" by (simp add: sample_source_def)
  qed
  ultimately have reach: "(race_step 0)\<^sup>*\<^sup>* r0 r3" by (meson converse_rtranclp_into_rtranclp rtranclp.rtrancl_refl)
  obtain s' where ap: "apply_change 0 sample_source sample_row (fresh_session resolved_tables 12) = (Inr 2, s')"
    and acc: "\<exists>c \<in> set (t_changes (work s')). ch_state c = ACCEPTED"
    using resolved_apply by blast
  have "r_phase r3 0 = Holding 1 sample_row sample_source" and db: "r_db r3 = resolved_tables" "r_ids r3 = 12"
    by (simp_all add: r3_def r2_def)
  then have "race_step 0 r3 (r3\<lparr>r_phase := (r_phase r3)(0 := Finished (Inr 2)), r_lock := (r_lock r3)(src_id sample_source := None),
      r_db := work s', r_ids := id_supply s', r_log := r_log r3 @ [(0, src_id sample_source, 1)]\<rparr>)"
    using ap by (intro race_step.commits) simp_all
  moreover have "map ch_state (t_changes (r_db r3)) = [RESOLVED]" by (simp add: db mark_resolved_def)
  moreover have "r_log r3 @ [(0, src_id sample_source, 1)] = [(0, 0, 1)]"
    by (simp add: r3_def r2_def r1_def r0_def race_start_def sample_source_def)
  ultimately show ?thesis using reach acc unfolding r0_def by (intro exI conjI) (assumption | simp)+
qed

text \<open>The change is read before the lock is held and not again: a change that a scan resolves in
  between is still accepted, and the baseline takes over what the scan no longer observed.\<close>

theorem resolved_change_accepted:
  "\<exists>r r'. (race_step 0)\<^sup>*\<^sup>* (race_start (work sample_after) (\<lambda>_. (10, 1)) 12) r \<and> race_step 0 r r' \<and>
     map ch_state (t_changes (r_db r)) = [RESOLVED] \<and>
     r_phase r' 0 = Finished (Inr 2) \<and> (\<exists>c \<in> set (t_changes (r_db r')). ch_state c = ACCEPTED)"
  using sample_trace by (elim exE conjE, intro exI conjI)

theorem acceptances_serialised_witness:
  "\<exists>r. (race_step 0)\<^sup>*\<^sup>* (race_start (work sample_after) (\<lambda>_. (10, 1)) 12) r \<and>
     versions_used 0 (r_log r) = [1] \<and> version_of (r_db r) 0 = Some 2"
proof -
  have v: "version_of (work sample_after) 0 = Some 1"
    by (simp add: version_of_def find_source_row_def sample_after_def sample_defs)
  obtain r where r: "(race_step 0)\<^sup>*\<^sup>* (race_start (work sample_after) (\<lambda>_. (10, 1)) 12) r" "r_log r = [(0, 0, 1)]"
    using sample_trace rtranclp.rtrancl_into_rtrancl by metis
  have "versions_used 0 (r_log r) = [1]" by (simp add: r(2) versions_used_def)
  with acceptances_serialised [OF r(1) v] show ?thesis using r(1) by auto
qed

end
