(* ===== verification/Notification.thy ===== *)
theory Notification
  imports Store
begin

text \<open>
  \<open>application/notification_service.py\<close>: the alert message, and \<open>NotificationService\<close> with its limit of
  three attempts and its retry delays, written against the persistence port and the notifiers. The
  locale \<open>delivery_protocol\<close> states what the port promises about deliveries; the outcome of an
  attempt and the invariant of deliveries are proved from it. Messages contain the characters
  U+2205 and U+2192, so their text is a list of code points.
\<close>

section \<open>Messages\<close>

type_synonym ustring = "nat list"

definition utext :: "string \<Rightarrow> ustring" where
  "utext s = map code s"

record alert_message =
  msg_subject :: ustring
  msg_text :: ustring
  msg_html :: ustring
  msg_dashboard_url :: ustring

record alert_change_context =
  ac_column :: string
  ac_before_type :: "string option"
  ac_after_type :: "string option"
  ac_severity :: severity
  ac_affected :: "string list"

record scan_alert_context =
  sa_scan :: uuid
  sa_source_key :: string
  sa_error_code :: "string option"
  sa_changes :: "alert_change_context list"

text \<open>\<open>html.escape\<close> with its default of quoting both quotation marks.\<close>

definition escape_char :: "nat \<Rightarrow> ustring" where
  "escape_char c =
     (if c = 38 then utext ''&amp;'' else if c = 60 then utext ''&lt;'' else if c = 62 then utext ''&gt;''
      else if c = 34 then utext ''&quot;'' else if c = 39 then utext ''&#x27;'' else [c])"

definition html_escape :: "ustring \<Rightarrow> ustring" where
  "html_escape s = concat (map escape_char s)"

fun ujoin :: "ustring \<Rightarrow> ustring list \<Rightarrow> ustring" where
  "ujoin sep [] = []"
| "ujoin sep [w] = w"
| "ujoin sep (w # ws) = w @ sep @ ujoin sep ws"

definition rstrip_slash :: "string \<Rightarrow> string" where
  "rstrip_slash s = rev (dropWhile (\<lambda>c. c = CHR ''/'') (rev s))"

definition type_or_empty :: "string option \<Rightarrow> ustring" where
  "type_or_empty t = (case t of None \<Rightarrow> [8709] | Some s \<Rightarrow> if s = [] then [8709] else utext s)"

definition change_line :: "alert_change_context \<Rightarrow> ustring" where
  "change_line c =
     (let transition = type_or_empty (ac_before_type c) @ utext '' '' @ [8594] @ utext '' '' @ type_or_empty (ac_after_type c);
          dags = (let j = join '', '' (ac_affected c) in if j = [] then ''no registered DAG'' else j)
      in utext (''['' @ severity_value (ac_severity c) @ ''] '' @ ac_column c @ '': '') @ transition @ utext (''; affected: '' @ dags))"

definition message_lines :: "scan_alert_context \<Rightarrow> string \<Rightarrow> ustring list" where
  "message_lines context dashboard_url =
     (case sa_error_code context of
        Some e \<Rightarrow>
          if e \<noteq> [] then
            [utext (''Schema Sentry source failure: '' @ sa_source_key context), utext (''scan #'' @ show_uuid (sa_scan context)),
             utext (''error: '' @ e), utext (''dashboard: '' @ dashboard_url)]
          else [utext (''Schema Sentry drift detected: '' @ sa_source_key context), utext (''scan #'' @ show_uuid (sa_scan context))]
            @ map change_line (sa_changes context) @ [utext (''dashboard: '' @ dashboard_url)]
      | None \<Rightarrow>
          [utext (''Schema Sentry drift detected: '' @ sa_source_key context), utext (''scan #'' @ show_uuid (sa_scan context))]
            @ map change_line (sa_changes context) @ [utext (''dashboard: '' @ dashboard_url)])"

definition build_alert_message :: "scan_alert_context \<Rightarrow> string \<Rightarrow> alert_message" where
  "build_alert_message context dashboard_base_url =
     (let dashboard_url = rstrip_slash dashboard_base_url @ ''/''; lines = message_lines context dashboard_url in
      \<lparr>msg_subject = hd lines, msg_text = ujoin [10] lines, msg_html = ujoin (utext ''<br>'') (map html_escape lines),
       msg_dashboard_url = utext dashboard_url\<rparr>)"

section \<open>The service\<close>

record delivery_record =
  dr_id :: uuid
  dr_scan :: uuid
  dr_channel :: alert_channel
  dr_status :: alert_status
  dr_attempts :: int
  dr_retry :: "time option"

record delivery_result =
  res_delivery :: uuid
  res_channel :: alert_channel
  res_success :: bool
  res_attempts :: int
  res_retry :: "time option"

record 's alert_persistence =
  op_dispatchable :: "uuid \<Rightarrow> ('s, uuid list) action"
  op_lock_delivery :: "uuid \<Rightarrow> ('s, delivery_record option) action"
  op_scan_context :: "uuid \<Rightarrow> ('s, scan_alert_context option) action"
  op_latest_failed :: "string \<Rightarrow> ('s, uuid option) action"
  op_started :: "uuid \<Rightarrow> time \<Rightarrow> ('s, delivery_record) action"
  op_sent :: "uuid \<Rightarrow> string option \<Rightarrow> time \<Rightarrow> ('s, unit) action"
  op_failed :: "uuid \<Rightarrow> string \<Rightarrow> time option \<Rightarrow> ('s, unit) action"

type_synonym 's notifier = "alert_message \<Rightarrow> ('s, string option) action"

definition max_attempts :: int where
  "max_attempts = 3"

text \<open>\<open>RETRY_DELAYS[n]\<close>, in microseconds, with Python's negative indices.\<close>

definition retry_delay :: "int \<Rightarrow> py_error + int" where
  "retry_delay n =
     (if n = 0 \<or> n = - 2 then Inr (60 * 1000000)
      else if n = 1 \<or> n = - 1 then Inr (300 * 1000000)
      else Inl IndexError)"

definition next_retry_at :: "int \<Rightarrow> time \<Rightarrow> py_error + time option" where
  "next_retry_at attempt_count now =
     (if attempt_count < max_attempts then bindR (retry_delay (attempt_count - 1)) (\<lambda>d. Inr (Some (now + d)))
      else Inr None)"

text \<open>\<open>try: receipt = notifier.send(message) except DeliveryFailure as exc\<close>\<close>

definition try_delivery :: "('s, 'a) action \<Rightarrow> ('s, string + 'a) action" where
  "try_delivery m s = (case m s of
       (Inl (DeliveryFailure e), s') \<Rightarrow> (Inr (Inl e), s')
     | (Inl e, s') \<Rightarrow> (Inl e, s')
     | (Inr x, s') \<Rightarrow> (Inr (Inr x), s'))"

definition finish_attempt ::
  "'s alert_persistence \<Rightarrow> 's notifier \<Rightarrow> alert_message \<Rightarrow> delivery_record \<Rightarrow> delivery_record \<Rightarrow> time
     \<Rightarrow> ('s, delivery_result) action" where
  "finish_attempt repo send message delivery attempted now =
     bindA (try_delivery (send message)) (\<lambda>outcome.
       case outcome of
         Inl e \<Rightarrow>
           bindA (liftA (next_retry_at (dr_attempts attempted) now)) (\<lambda>retry.
           thenA (op_failed repo (dr_id delivery) e retry)
           (returnA \<lparr>res_delivery = dr_id delivery, res_channel = dr_channel delivery, res_success = False,
                     res_attempts = dr_attempts attempted, res_retry = retry\<rparr>))
       | Inr receipt \<Rightarrow>
           thenA (op_sent repo (dr_id delivery) receipt now)
           (returnA \<lparr>res_delivery = dr_id delivery, res_channel = dr_channel delivery, res_success = True,
                     res_attempts = dr_attempts attempted, res_retry = None\<rparr>))"

definition attempt ::
  "'s alert_persistence \<Rightarrow> (alert_channel \<Rightarrow> 's notifier option) \<Rightarrow> string \<Rightarrow> time \<Rightarrow> uuid
     \<Rightarrow> ('s, delivery_result) action" where
  "attempt repo notifiers dashboard_base_url now delivery_id =
     bindA (op_lock_delivery repo delivery_id) (\<lambda>locked.
       case locked of
         None \<Rightarrow> raiseA (DeliveryNotFound delivery_id)
       | Some delivery \<Rightarrow>
           if dr_attempts delivery \<ge> max_attempts then raiseA (MaxAttemptsExceeded delivery_id)
           else if (case dr_retry delivery of None \<Rightarrow> False | Some t \<Rightarrow> now < t) then
             raiseA (RetryNotDue (the (dr_retry delivery)))
           else
             bindA (op_scan_context repo (dr_scan delivery)) (\<lambda>context.
               case context of
                 None \<Rightarrow> raiseA (DeliveryNotFound delivery_id)
               | Some ctx \<Rightarrow>
                   (case notifiers (dr_channel delivery) of
                      None \<Rightarrow> raiseA (DeliveryFailure ''notification_channel_not_configured'')
                    | Some send \<Rightarrow>
                        bindA (op_started repo delivery_id now) (\<lambda>attempted.
                          finish_attempt repo send (build_alert_message ctx dashboard_base_url) delivery attempted now))))"

definition append_attempt ::
  "'s alert_persistence \<Rightarrow> (alert_channel \<Rightarrow> 's notifier option) \<Rightarrow> string \<Rightarrow> time \<Rightarrow> uuid \<Rightarrow> delivery_result list
     \<Rightarrow> ('s, delivery_result list) action" where
  "append_attempt repo notifiers dashboard_base_url now i results =
     bindA (attempt repo notifiers dashboard_base_url now i) (\<lambda>r. returnA (results @ [r]))"

definition dispatch_scan ::
  "'s alert_persistence \<Rightarrow> (alert_channel \<Rightarrow> 's notifier option) \<Rightarrow> string \<Rightarrow> time \<Rightarrow> uuid
     \<Rightarrow> ('s, delivery_result list) action" where
  "dispatch_scan repo notifiers dashboard_base_url now scan_id =
     bindA (op_dispatchable repo scan_id) (\<lambda>ids.
       forA ids [] (append_attempt repo notifiers dashboard_base_url now))"

definition retry ::
  "'s alert_persistence \<Rightarrow> (alert_channel \<Rightarrow> 's notifier option) \<Rightarrow> string \<Rightarrow> time \<Rightarrow> uuid
     \<Rightarrow> ('s, delivery_result) action" where
  "retry repo notifiers dashboard_base_url now delivery_id =
     attempt repo notifiers dashboard_base_url now delivery_id"

section \<open>What an attempt does\<close>

text \<open>A delivery that is at rest, between two attempts.\<close>

definition delivery_ok :: "delivery_record \<Rightarrow> bool" where
  "delivery_ok d \<longleftrightarrow> (case dr_status d of
       PENDING \<Rightarrow> dr_attempts d = 0 \<and> dr_retry d = None
     | SENT \<Rightarrow> 1 \<le> dr_attempts d \<and> dr_attempts d \<le> 3 \<and> dr_retry d = None
     | alert_status.FAILED \<Rightarrow> 1 \<le> dr_attempts d \<and> dr_attempts d \<le> 3 \<and> (dr_retry d = None \<longleftrightarrow> dr_attempts d = 3))"

lemma delivery_ok_bounds: "delivery_ok d \<Longrightarrow> 0 \<le> dr_attempts d \<and> dr_attempts d \<le> 3"
  by (cases "dr_status d") (auto simp: delivery_ok_def)

definition attempted :: "delivery_record \<Rightarrow> delivery_record" where
  "attempted d = d\<lparr>dr_attempts := dr_attempts d + 1, dr_status := PENDING, dr_retry := None\<rparr>"

definition settled :: "delivery_result \<Rightarrow> delivery_record \<Rightarrow> delivery_record" where
  "settled r d = (attempted d)\<lparr>dr_status := (if res_success r then SENT else alert_status.FAILED), dr_retry := res_retry r\<rparr>"

definition due :: "time \<Rightarrow> delivery_record \<Rightarrow> bool" where
  "due now d \<longleftrightarrow> dr_attempts d < 3 \<and> (case dr_retry d of None \<Rightarrow> True | Some t \<Rightarrow> t \<le> now)"

definition retry_time :: "int \<Rightarrow> time \<Rightarrow> time option" where
  "retry_time n now = (if n = 1 then Some (now + 60 * 1000000) else if n = 2 then Some (now + 300 * 1000000) else None)"

locale delivery_protocol =
  fixes repo :: "'s alert_persistence"
    and notifiers :: "alert_channel \<Rightarrow> 's notifier option"
    and view :: "'s \<Rightarrow> uuid \<Rightarrow> delivery_record option"
  assumes lock: "op_lock_delivery repo i s = (Inr d, s') \<Longrightarrow> s' = s \<and> d = view s i"
    and view_id: "view s i = Some d1 \<Longrightarrow> dr_id d1 = i"
    and context_reads: "op_scan_context repo i s = (Inr ctx, s') \<Longrightarrow> s' = s"
    and started: "op_started repo i now s = (Inr a, s') \<Longrightarrow> view s i = Some d0 \<Longrightarrow>
      a = attempted d0 \<and> view s' = (view s)(i \<mapsto> attempted d0)"
    and sent: "op_sent repo i p now s = (Inr x, s') \<Longrightarrow> view s i = Some d0 \<Longrightarrow>
      view s' = (view s)(i \<mapsto> d0\<lparr>dr_status := SENT, dr_retry := None\<rparr>)"
    and failed: "op_failed repo i e rt s = (Inr y, s') \<Longrightarrow> view s i = Some d0 \<Longrightarrow>
      view s' = (view s)(i \<mapsto> d0\<lparr>dr_status := alert_status.FAILED, dr_retry := rt\<rparr>)"
    and sends: "notifiers c = Some send \<Longrightarrow> send m s = (r, s') \<Longrightarrow> view s' = view s"
    and lists: "op_dispatchable repo sc s = (Inr ids, s') \<Longrightarrow> s' = s"
begin

lemma finish_returns:
  assumes "finish_attempt repo send message d a now s = (Inr r, s')" and "notifiers c = Some send"
    and "view s (dr_id d) = Some a" and "a = attempted d" and "0 \<le> dr_attempts d"
  shows "res_delivery r = dr_id d \<and> res_channel r = dr_channel d \<and> res_attempts r = dr_attempts d + 1 \<and>
    res_retry r = (if res_success r then None else retry_time (dr_attempts d + 1) now) \<and>
    view s' = (view s)(dr_id d \<mapsto> settled r d)"
proof -
  obtain outcome s1 where o: "try_delivery (send message) s = (Inr outcome, s1)"
    using assms(1) by (auto simp: finish_attempt_def action_simps)
  have "\<exists>x. send message s = (x, s1)"
    using o by (auto simp: try_delivery_def split: prod.splits sum.splits py_error.splits)
  then have v1: "view s1 = view s" using sends [OF assms(2)] by blast
  show ?thesis
  proof (cases outcome)
    case (Inl e)
    then obtain rt where rt: "next_retry_at (dr_attempts a) now = Inr rt" and f: "op_failed repo (dr_id d) e rt s1 = (Inr (), s')"
      and r: "r = \<lparr>res_delivery = dr_id d, res_channel = dr_channel d, res_success = False,
                     res_attempts = dr_attempts a, res_retry = rt\<rparr>"
      using assms(1) o by (auto simp: finish_attempt_def action_simps)
    have "rt = retry_time (dr_attempts d + 1) now"
      using rt assms(4,5)
      by (auto simp: next_retry_at_def retry_delay_def retry_time_def attempted_def max_attempts_def split: if_splits)
    moreover have "view s' = (view s)(dr_id d \<mapsto> a\<lparr>dr_status := alert_status.FAILED, dr_retry := rt\<rparr>)"
      using failed [OF f] v1 assms(3) by simp
    ultimately show ?thesis using r assms(4) by (simp add: settled_def attempted_def)
  next
    case (Inr receipt)
    then have f: "op_sent repo (dr_id d) receipt now s1 = (Inr (), s')"
      and r: "r = \<lparr>res_delivery = dr_id d, res_channel = dr_channel d, res_success = True,
                     res_attempts = dr_attempts a, res_retry = None\<rparr>"
      using assms(1) o by (auto simp: finish_attempt_def action_simps)
    have "view s' = (view s)(dr_id d \<mapsto> a\<lparr>dr_status := SENT, dr_retry := None\<rparr>)"
      using sent [OF f] v1 assms(3) by simp
    then show ?thesis using r assms(4) by (simp add: settled_def attempted_def)
  qed
qed

text \<open>An attempt that returns had a due delivery, counted the attempt and settled the delivery.\<close>

lemma attempt_returns:
  assumes "attempt repo notifiers base now i s = (Inr r, s')"
    and "\<And>d. view s i = Some d \<Longrightarrow> 0 \<le> dr_attempts d"
  obtains d where "view s i = Some d" and "due now d" and "res_attempts r = dr_attempts d + 1"
    and "res_retry r = (if res_success r then None else retry_time (dr_attempts d + 1) now)"
    and "view s' = (view s)(i \<mapsto> settled r d)"
proof -
  obtain locked s1 where l: "op_lock_delivery repo i s = (Inr locked, s1)"
    using assms(1) by (auto simp: attempt_def action_simps)
  then have [simp]: "s1 = s" "locked = view s i" using lock by blast+
  obtain d where d: "view s i = Some d"
    using assms(1) l by (auto simp: attempt_def action_simps split: option.splits)
  have id: "dr_id d = i" using view_id [OF d] .
  have small: "\<not> dr_attempts d \<ge> max_attempts"
    using assms(1) l d by (auto simp: attempt_def action_simps split: if_splits)
  have not_early: "\<not> (case dr_retry d of None \<Rightarrow> False | Some t \<Rightarrow> now < t)"
    using assms(1) l d small by (auto simp: attempt_def action_simps split: if_splits)
  have "due now d" using small not_early by (auto simp: due_def max_attempts_def split: option.splits)
  obtain ctx s2 where c: "op_scan_context repo (dr_scan d) s = (Inr ctx, s2)"
    using assms(1) l d small not_early by (auto simp: attempt_def action_simps)
  then have [simp]: "s2 = s" using context_reads by blast
  obtain ctx' send where ctx: "ctx = Some ctx'" and send: "notifiers (dr_channel d) = Some send"
    using assms(1) l d small not_early c by (auto simp: attempt_def action_simps split: option.splits)
  obtain a s3 where a: "op_started repo i now s = (Inr a, s3)"
    and f: "finish_attempt repo send (build_alert_message ctx' base) d a now s3 = (Inr r, s')"
    using assms(1) l d small not_early c ctx send by (auto simp: attempt_def action_simps)
  have s3: "a = attempted d" "view s3 = (view s)(i \<mapsto> attempted d)" using started [OF a d] by blast+
  have "view s3 (dr_id d) = Some a" using s3 id by simp
  from finish_returns [OF f send this s3(1) assms(2) [OF d]] show thesis
    using that [OF d \<open>due now d\<close>] s3(2) id by simp
qed

lemma attempt_keeps_ok:
  assumes "attempt repo notifiers base now i s = (Inr r, s')" and "\<forall>j d. view s j = Some d \<longrightarrow> delivery_ok d"
  shows "\<forall>j d. view s' j = Some d \<longrightarrow> delivery_ok d"
proof -
  have nonneg: "0 \<le> dr_attempts d" if "view s i = Some d" for d
    using assms(2) that delivery_ok_bounds by blast
  obtain d where d: "view s i = Some d" "due now d" and rt: "res_retry r = (if res_success r then None else retry_time (dr_attempts d + 1) now)"
    and v: "view s' = (view s)(i \<mapsto> settled r d)"
    by (rule attempt_returns [OF assms(1) nonneg]) 
  have "delivery_ok (settled r d)"
    using nonneg [OF d(1)] d(2) rt by (auto simp: delivery_ok_def settled_def attempted_def due_def retry_time_def)
  then show ?thesis using assms(2) v by simp
qed

lemma dispatch_keeps_ok:
  assumes "dispatch_scan repo notifiers base now scan_id s = (Inr rs, s')" and "\<forall>j d. view s j = Some d \<longrightarrow> delivery_ok d"
  shows "\<forall>j d. view s' j = Some d \<longrightarrow> delivery_ok d"
proof -
  obtain ids s1 where ids: "op_dispatchable repo scan_id s = (Inr ids, s1)"
    and loop: "forA ids [] (append_attempt repo notifiers base now) s1 = (Inr rs, s')"
    using assms(1) by (auto simp: dispatch_scan_def action_simps)
  have ok1: "\<forall>j d. view s1 j = Some d \<longrightarrow> delivery_ok d" using lists [OF ids] assms(2) by simp
  have "\<forall>j d. view t' j = Some d \<longrightarrow> delivery_ok d"
    if "forA ids acc (append_attempt repo notifiers base now) t = (Inr rs', t')"
      "\<forall>j d. view t j = Some d \<longrightarrow> delivery_ok d" for ids acc t rs' t'
    using that
  proof (induction ids arbitrary: acc t)
    case (Cons i ids)
    obtain results t1 where step: "append_attempt repo notifiers base now i acc t = (Inr results, t1)"
      and rest: "forA ids results (append_attempt repo notifiers base now) t1 = (Inr rs', t')"
      using Cons.prems(1) by (auto simp only: forA.simps bindA_eq_Inr)
    obtain r where a: "attempt repo notifiers base now i t = (Inr r, t1)"
      using step by (auto simp: append_attempt_def bindA_eq_Inr)
    show ?case by (rule Cons.IH [OF rest attempt_keeps_ok [OF a Cons.prems(2)]])
  qed simp
  from this [OF loop ok1] show ?thesis .
qed

end

end
