(* ===== verification/AlertRepo.thy ===== *)
theory AlertRepo
  imports Notification Acceptance
begin

text \<open>
  \<open>repositories/alerts.py\<close> on the metadata tables, and the proof that it provides the delivery
  protocol. A notifier acts on the outside world, which no rollback undoes: the state of the
  service is the session together with the log of what was sent and how the provider answered.
\<close>

section \<open>Reading\<close>

definition delivery_record_of :: "delivery_row \<Rightarrow> delivery_record" where
  "delivery_record_of r =
     \<lparr>dr_id = dl_id r, dr_scan = dl_scan r, dr_channel = dl_channel r, dr_status = dl_status r,
      dr_attempts = dl_attempts r, dr_retry = dl_retry r\<rparr>"

definition list_for_scan :: "uuid \<Rightarrow> delivery_row list db" where
  "list_for_scan scan_id =
     query (\<lambda>t. sort_key (\<lambda>r. (dl_created r, dl_id r)) (filter (\<lambda>r. dl_scan r = scan_id) (t_deliveries t)))"

definition list_dispatchable_for_scan :: "uuid \<Rightarrow> uuid list db" where
  "list_dispatchable_for_scan scan_id =
     query (\<lambda>t. map dl_id (sort_key (\<lambda>r. (dl_created r, dl_id r))
       (filter (\<lambda>r. dl_scan r = scan_id \<and> dl_status r = PENDING) (t_deliveries t))))"

definition find_delivery :: "uuid \<Rightarrow> tables \<Rightarrow> delivery_row option" where
  "find_delivery i t = List.find (\<lambda>r. dl_id r = i) (t_deliveries t)"

definition lock_delivery :: "uuid \<Rightarrow> delivery_record option db" where
  "lock_delivery delivery_id =
     bindA (query (find_delivery delivery_id)) (\<lambda>delivery. returnA (map_option delivery_record_of delivery))"

definition get_delivery :: "uuid \<Rightarrow> delivery_row db" where
  "get_delivery delivery_id =
     bindA (query (find_delivery delivery_id)) (\<lambda>delivery.
       case delivery of
         None \<Rightarrow> raiseA (LookupError (''alert delivery not found: '' @ show_uuid delivery_id))
       | Some r \<Rightarrow> returnA r)"

definition affected_dags :: "(string \<Rightarrow> string) \<Rightarrow> change_row \<Rightarrow> tables \<Rightarrow> string list" where
  "affected_dags collate change t =
     sort_key collate [pl_dag p. p \<leftarrow> t_pipelines t, e \<leftarrow> t_edges t,
       le_pipeline e = pl_id p \<and> le_up_dataset e = ch_dataset change \<and> le_up_column e = ch_column change]"

definition render_payload_type :: "json option \<Rightarrow> py_error + string option" where
  "render_payload_type payload = (case payload of
       None \<Rightarrow> Inr None
     | Some p \<Rightarrow> bindR (payload_get p ''data_type'') (\<lambda>data_type.
         case data_type of
           Some (JObj kvs) \<Rightarrow> bindR (canonical_type_of_json (JObj kvs)) (\<lambda>ty. Inr (Some (render_type ty)))
         | _ \<Rightarrow> Inr None))"

definition alert_change_rows :: "(string \<Rightarrow> string) \<Rightarrow> uuid \<Rightarrow> tables \<Rightarrow> (change_row \<times> dataset_row) list" where
  "alert_change_rows collate scan_id t =
     sort_key (\<lambda>(c, d). (collate (ds_schema d), collate (ds_table d), collate (ch_column c)))
       [(c, d). c \<leftarrow> t_changes t, d \<leftarrow> t_datasets t,
          ch_dataset c = ds_id d \<and> ch_scan c = scan_id \<and> ch_severity c \<noteq> INFO]"

definition alert_change_of ::
  "(string \<Rightarrow> string) \<Rightarrow> tables \<Rightarrow> change_row \<times> dataset_row \<Rightarrow> py_error + alert_change_context" where
  "alert_change_of collate t = (\<lambda>(c, d).
     bindR (render_payload_type (ch_before c)) (\<lambda>before.
     bindR (render_payload_type (ch_after c)) (\<lambda>after.
       Inr \<lparr>ac_column = ds_schema d @ ''.'' @ ds_table d @ ''.'' @ ch_column c, ac_before_type = before,
            ac_after_type = after, ac_severity = ch_severity c, ac_affected = affected_dags collate c t\<rparr>)))"

definition scan_with_source :: "uuid \<Rightarrow> tables \<Rightarrow> (scan_row \<times> source_row) option" where
  "scan_with_source scan_id t =
     List.find (\<lambda>_. True) [(sc, src). sc \<leftarrow> t_scans t, src \<leftarrow> t_sources t, sc_source sc = src_id src \<and> sc_id sc = scan_id]"

definition get_scan_context :: "(string \<Rightarrow> string) \<Rightarrow> uuid \<Rightarrow> scan_alert_context option db" where
  "get_scan_context collate scan_id =
     bindA (query (scan_with_source scan_id)) (\<lambda>row.
       case row of
         None \<Rightarrow> returnA None
       | Some (scan, source) \<Rightarrow>
           bindA (query (alert_change_rows collate scan_id)) (\<lambda>rows.
           bindA (query (\<lambda>t. mapR (alert_change_of collate t) rows)) (\<lambda>contexts.
           bindA (liftA contexts) (\<lambda>changes.
             returnA (Some \<lparr>sa_scan = sc_id scan, sa_source_key = src_key source,
               sa_error_code = (if sc_status scan = scan_status.FAILED then sc_error_code scan else None),
               sa_changes = changes\<rparr>)))))"

definition latest_failed_scan_id :: "string \<Rightarrow> uuid option db" where
  "latest_failed_scan_id source_key =
     query (\<lambda>t. map_option sc_id (List.find (\<lambda>_. True) (sort_key (\<lambda>r. - sc_started r)
       [sc. sc \<leftarrow> t_scans t, src \<leftarrow> t_sources t,
          sc_source sc = src_id src \<and> src_key src = source_key \<and> sc_status sc = scan_status.FAILED])))"

section \<open>Writing\<close>

definition set_delivery :: "uuid \<Rightarrow> (delivery_row \<Rightarrow> delivery_row) \<Rightarrow> unit db" where
  "set_delivery i f = modify (\<lambda>t. t\<lparr>t_deliveries := update_where (\<lambda>r. dl_id r = i) f (t_deliveries t)\<rparr>)"

definition start_row :: "delivery_row \<Rightarrow> delivery_row" where
  "start_row r = r\<lparr>dl_attempts := dl_attempts r + 1, dl_status := PENDING, dl_retry := None\<rparr>"

definition mark_attempt_started :: "uuid \<Rightarrow> time \<Rightarrow> delivery_record db" where
  "mark_attempt_started delivery_id attempted_at =
     bindA (get_delivery delivery_id) (\<lambda>delivery.
     thenA (set_delivery (dl_id delivery) start_row)
     (thenA flush (returnA (delivery_record_of (start_row delivery)))))"

definition mark_sent :: "uuid \<Rightarrow> string option \<Rightarrow> time \<Rightarrow> unit db" where
  "mark_sent delivery_id provider_message_id sent_at =
     bindA (get_delivery delivery_id) (\<lambda>delivery.
     thenA (set_delivery (dl_id delivery) (\<lambda>r. r\<lparr>dl_status := SENT, dl_provider_id := provider_message_id,
       dl_error := None, dl_retry := None, dl_sent := Some sent_at\<rparr>))
     flush)"

definition mark_failed :: "uuid \<Rightarrow> string \<Rightarrow> time option \<Rightarrow> unit db" where
  "mark_failed delivery_id error next_retry =
     bindA (get_delivery delivery_id) (\<lambda>delivery.
     thenA (set_delivery (dl_id delivery) (\<lambda>r. r\<lparr>dl_status := alert_status.FAILED, dl_error := Some error,
       dl_retry := next_retry\<rparr>))
     flush)"

section \<open>The outside world\<close>

type_synonym world = "(alert_channel \<times> alert_message \<times> (py_error + string option)) list"
type_synonym 'a world_db = "(session \<times> world, 'a) action"

definition on_db :: "'a db \<Rightarrow> 'a world_db" where
  "on_db m = (\<lambda>(s, w). case m s of (r, s') \<Rightarrow> (r, (s', w)))"

text \<open>A provider's answer may depend on everything sent before.\<close>

type_synonym provider = "world \<Rightarrow> alert_message \<Rightarrow> py_error + string option"

definition send_to :: "alert_channel \<Rightarrow> provider \<Rightarrow> (session \<times> world) notifier" where
  "send_to channel answer message = (\<lambda>(s, w). let r = answer w message in (r, (s, w @ [(channel, message, r)])))"

text \<open>\<open>{notifier.channel: notifier for notifier in notifiers}\<close>\<close>

definition notifiers_by_channel ::
  "(alert_channel \<times> provider) list \<Rightarrow> alert_channel \<Rightarrow> (session \<times> world) notifier option" where
  "notifiers_by_channel notifiers channel = map_option (send_to channel) (map_of (rev notifiers) channel)"

definition sql_alert_repository :: "(string \<Rightarrow> string) \<Rightarrow> (session \<times> world) alert_persistence" where
  "sql_alert_repository collate =
     \<lparr>op_dispatchable = (\<lambda>i. on_db (list_dispatchable_for_scan i)),
      op_lock_delivery = (\<lambda>i. on_db (lock_delivery i)),
      op_scan_context = (\<lambda>i. on_db (get_scan_context collate i)),
      op_latest_failed = (\<lambda>k. on_db (latest_failed_scan_id k)),
      op_started = (\<lambda>i now. on_db (mark_attempt_started i now)),
      op_sent = (\<lambda>i p now. on_db (mark_sent i p now)),
      op_failed = (\<lambda>i e r. on_db (mark_failed i e r))\<rparr>"

section \<open>The repository provides the protocol\<close>

lemma on_db_eq [action_simps]: "on_db m sw = (r, sw') \<longleftrightarrow> m (fst sw) = (r, fst sw') \<and> snd sw' = snd sw"
  by (cases sw; cases sw') (auto simp: on_db_def split: prod.splits)

lemma on_db_read:
  assumes "on_db m sw = (Inr x, sw')" and "\<And>t t'. m t = (Inr x, t') \<Longrightarrow> t' = t"
  shows "sw' = sw \<and> m (fst sw) = (Inr x, fst sw)"
  using assms by (cases sw; cases sw') (auto simp: on_db_eq)

definition deliveries_in :: "tables \<Rightarrow> uuid \<Rightarrow> delivery_record option" where
  "deliveries_in t i = map_option delivery_record_of (find_delivery i t)"

definition delivery_view :: "session \<times> world \<Rightarrow> uuid \<Rightarrow> delivery_record option" where
  "delivery_view sw = deliveries_in (work (fst sw))"

lemma get_delivery_Inr [action_simps]:
  "get_delivery i s = (Inr r, s') \<longleftrightarrow> s' = s \<and> usable s \<and> find_delivery i (work s) = Some r"
  by (auto simp: get_delivery_def action_simps usable_def split: option.splits)

lemma find_delivery_id: "find_delivery i t = Some r \<Longrightarrow> dl_id r = i"
  by (auto simp: find_delivery_def find_Some_iff)

lemma deliveries_in_update:
  assumes "find_delivery i t = Some d" and "\<And>r. dl_id (f r) = dl_id r"
  shows "deliveries_in (t\<lparr>t_deliveries := update_where (\<lambda>r. dl_id r = i) f (t_deliveries t)\<rparr>) =
    (deliveries_in t)(i \<mapsto> delivery_record_of (f d))"
proof
  fix j
  have "find_delivery j (t\<lparr>t_deliveries := update_where (\<lambda>r. dl_id r = i) f (t_deliveries t)\<rparr>) =
      map_option (\<lambda>r. if dl_id r = i then f r else r) (find_delivery j t)"
    unfolding find_delivery_def update_where_def by (simp, rule find_map_same) (simp add: assms(2))
  then show "deliveries_in (t\<lparr>t_deliveries := update_where (\<lambda>r. dl_id r = i) f (t_deliveries t)\<rparr>) j =
      ((deliveries_in t)(i \<mapsto> delivery_record_of (f d))) j"
    using assms(1) find_delivery_id [of j t] by (cases "find_delivery j t") (auto simp: deliveries_in_def)
qed

lemma mark_view:
  assumes "bindA (get_delivery i) (\<lambda>delivery. thenA (set_delivery (dl_id delivery) f) (thenA flush (k delivery))) s = (Inr x, s')"
    and "\<And>d t. k d t = (Inr (g d), t)" and "\<And>r. dl_id (f r) = dl_id r"
  obtains d where "find_delivery i (work s) = Some d" and "x = g d"
    and "deliveries_in (work s') = (deliveries_in (work s))(i \<mapsto> delivery_record_of (f d))"
    and "durable s' = durable s" and "usable s'" and "usable s"
proof -
  obtain d where d: "find_delivery i (work s) = Some d" "usable s"
    and rest: "thenA (set_delivery (dl_id d) f) (thenA flush (k d)) s = (Inr x, s')"
    using assms(1) by (auto simp: action_simps)
  have id: "dl_id d = i" using find_delivery_id [OF d(1)] .
  have s': "s' = s\<lparr>work := (work s)\<lparr>t_deliveries := update_where (\<lambda>r. dl_id r = i) f (t_deliveries (work s))\<rparr>\<rparr>"
    and x: "x = g d" and us: "usable s'"
    using rest by (auto simp: action_simps set_delivery_def id assms(2) usable_def)
  show thesis
    by (rule that [OF d(1) x _ _ us d(2)]) (simp_all add: s' deliveries_in_update [OF d(1) assms(3)])
qed

lemma thenA_flush_unit: "thenA flush (returnA ()) = flush"
  by (auto simp: fun_eq_iff thenA_def bindA_def flush_def)

lemma mark_view_unit:
  assumes "bindA (get_delivery i) (\<lambda>delivery. thenA (set_delivery (dl_id delivery) f) flush) s = (Inr x, s')"
    and "\<And>r. dl_id (f r) = dl_id r"
  obtains d where "find_delivery i (work s) = Some d"
    and "deliveries_in (work s') = (deliveries_in (work s))(i \<mapsto> delivery_record_of (f d))"
    and "durable s' = durable s" and "usable s'" and "usable s"
proof -
  have "bindA (get_delivery i) (\<lambda>delivery. thenA (set_delivery (dl_id delivery) f) (thenA flush (returnA ()))) s = (Inr x, s')"
    unfolding thenA_flush_unit by (rule assms(1))
  then show thesis by (rule mark_view [where g = "\<lambda>_. ()"]) (use assms(2) that in simp_all)
qed

lemma started_view:
  assumes "mark_attempt_started i now s = (Inr a, s')" and "deliveries_in (work s) i = Some d0"
  shows "a = attempted d0 \<and> deliveries_in (work s') = (deliveries_in (work s))(i \<mapsto> attempted d0)"
proof -
  obtain d where d: "find_delivery i (work s) = Some d" and a: "a = delivery_record_of (start_row d)"
    and v: "deliveries_in (work s') = (deliveries_in (work s))(i \<mapsto> delivery_record_of (start_row d))"
    by (rule mark_view [OF assms(1) [unfolded mark_attempt_started_def], of "\<lambda>d. delivery_record_of (start_row d)"])
      (simp_all add: start_row_def)
  have "delivery_record_of (start_row d) = attempted d0"
    using d assms(2) by (auto simp: deliveries_in_def delivery_record_of_def start_row_def attempted_def)
  then show ?thesis using a v by simp
qed

lemma sent_view:
  assumes "mark_sent i p now s = (Inr x, s')" and "deliveries_in (work s) i = Some d0"
  shows "deliveries_in (work s') = (deliveries_in (work s))(i \<mapsto> d0\<lparr>dr_status := SENT, dr_retry := None\<rparr>)"
proof -
  let ?f = "\<lambda>r. r\<lparr>dl_status := SENT, dl_provider_id := p, dl_error := None, dl_retry := None, dl_sent := Some now\<rparr>"
  obtain d where d: "find_delivery i (work s) = Some d"
    and v: "deliveries_in (work s') = (deliveries_in (work s))(i \<mapsto> delivery_record_of (?f d))"
    by (rule mark_view_unit [OF assms(1) [unfolded mark_sent_def]]) simp_all
  have "delivery_record_of (?f d) = d0\<lparr>dr_status := SENT, dr_retry := None\<rparr>"
    using d assms(2) by (auto simp: deliveries_in_def delivery_record_of_def)
  then show ?thesis using v by simp
qed

lemma failed_view:
  assumes "mark_failed i e rt s = (Inr x, s')" and "deliveries_in (work s) i = Some d0"
  shows "deliveries_in (work s') = (deliveries_in (work s))(i \<mapsto> d0\<lparr>dr_status := alert_status.FAILED, dr_retry := rt\<rparr>)"
proof -
  let ?f = "\<lambda>r. r\<lparr>dl_status := alert_status.FAILED, dl_error := Some e, dl_retry := rt\<rparr>"
  obtain d where d: "find_delivery i (work s) = Some d"
    and v: "deliveries_in (work s') = (deliveries_in (work s))(i \<mapsto> delivery_record_of (?f d))"
    by (rule mark_view_unit [OF assms(1) [unfolded mark_failed_def]]) simp_all
  have "delivery_record_of (?f d) = d0\<lparr>dr_status := alert_status.FAILED, dr_retry := rt\<rparr>"
    using d assms(2) by (auto simp: deliveries_in_def delivery_record_of_def)
  then show ?thesis using v by simp
qed

lemma get_scan_context_Inr: "get_scan_context collate i s = (Inr c, s') \<Longrightarrow> s' = s"
  by (auto simp: get_scan_context_def action_simps split: option.splits)

lemma lock_delivery_Inr: "lock_delivery i s = (Inr d, s') \<longleftrightarrow> s' = s \<and> usable s \<and> d = deliveries_in (work s) i"
  by (auto simp: lock_delivery_def deliveries_in_def bindA_eq_Inr query_eq_Inr usable_def)

interpretation sql_alerts: delivery_protocol "sql_alert_repository collate" "notifiers_by_channel providers" delivery_view
  for collate providers
proof
  fix i s d s' d1 ctx now a d0 p x e rt y c send m r sc ids
  let ?repo = "sql_alert_repository collate"
  show "op_lock_delivery ?repo i s = (Inr d, s') \<Longrightarrow> s' = s \<and> d = delivery_view s i"
    using on_db_read [of "lock_delivery i" s d s']
    by (simp add: sql_alert_repository_def) (auto simp: lock_delivery_Inr delivery_view_def)
  show "delivery_view s i = Some d1 \<Longrightarrow> dr_id d1 = i"
    using find_delivery_id by (auto simp: delivery_view_def deliveries_in_def delivery_record_of_def)
  show "op_scan_context ?repo i s = (Inr ctx, s') \<Longrightarrow> s' = s"
    using on_db_read [of "get_scan_context collate i" s ctx s'] get_scan_context_Inr
    by (simp add: sql_alert_repository_def)
  show "op_started ?repo i now s = (Inr a, s') \<Longrightarrow> delivery_view s i = Some d0 \<Longrightarrow>
      a = attempted d0 \<and> delivery_view s' = (delivery_view s)(i \<mapsto> attempted d0)"
    by (simp add: sql_alert_repository_def on_db_eq delivery_view_def, elim conjE, drule (1) started_view) simp
  show "op_sent ?repo i p now s = (Inr x, s') \<Longrightarrow> delivery_view s i = Some d0 \<Longrightarrow>
      delivery_view s' = (delivery_view s)(i \<mapsto> d0\<lparr>dr_status := SENT, dr_retry := None\<rparr>)"
    by (simp add: sql_alert_repository_def on_db_eq delivery_view_def, elim conjE, drule (1) sent_view) simp
  show "op_failed ?repo i e rt s = (Inr y, s') \<Longrightarrow> delivery_view s i = Some d0 \<Longrightarrow>
      delivery_view s' = (delivery_view s)(i \<mapsto> d0\<lparr>dr_status := alert_status.FAILED, dr_retry := rt\<rparr>)"
    by (simp add: sql_alert_repository_def on_db_eq delivery_view_def, elim conjE, drule (1) failed_view) simp
  show "notifiers_by_channel providers c = Some send \<Longrightarrow> send m s = (r, s') \<Longrightarrow> delivery_view s' = delivery_view s"
    by (cases s) (auto simp: notifiers_by_channel_def send_to_def Let_def delivery_view_def)
  show "op_dispatchable ?repo sc s = (Inr ids, s') \<Longrightarrow> s' = s"
    using on_db_read [of "list_dispatchable_for_scan sc" s ids s']
    by (auto simp: sql_alert_repository_def list_dispatchable_for_scan_def query_eq_Inr)
qed

end
