(* ===== verification/Delivery.thy ===== *)
theory Delivery
  imports AlertRepo
begin

text \<open>
  What \<open>NotificationService\<close> guarantees on the SQLAlchemy repository: how a delivery moves through its
  attempts, that committed deliveries stay well formed, when a retry is refused, that messages are
  escaped, and two ways in which a message can be sent more than once.
\<close>

section \<open>Transactions around a send\<close>

definition commit_world :: "unit world_db" where
  "commit_world = on_db commit"

text \<open>\<open>session_scope\<close>; what was sent stays sent.\<close>

definition world_scope :: "'a world_db \<Rightarrow> 'a world_db" where
  "world_scope body sw =
     (case bindA body (\<lambda>x. thenA commit_world (returnA x)) sw of
        (Inr x, sw') \<Rightarrow> (Inr x, sw')
      | (Inl e, (s', w')) \<Rightarrow> (Inl e, (rollback s', w')))"

text \<open>Something that a block leaves alone whether it returns or raises.\<close>

definition preserves :: "('s \<Rightarrow> 'x) \<Rightarrow> ('s, 'a) action \<Rightarrow> bool" where
  "preserves f m \<longleftrightarrow> (\<forall>s. f (snd (m s)) = f s)"

lemma preserves_basic [intro]:
  "preserves f (returnA x)" "preserves f (raiseA e)" "preserves f (liftA r)"
  by (simp_all add: preserves_def)

lemma preserves_bindA [intro]:
  "preserves f m \<Longrightarrow> (\<And>x. preserves f (k x)) \<Longrightarrow> preserves f (bindA m k)"
  by (auto simp: preserves_def bindA_def split: prod.splits sum.splits) (metis snd_conv)+

lemma preserves_thenA [intro]: "preserves f m \<Longrightarrow> preserves f k \<Longrightarrow> preserves f (thenA m k)"
  by (simp add: thenA_def preserves_bindA)

lemma preserves_forA [intro]: "(\<And>x a. preserves f (k x a)) \<Longrightarrow> preserves f (forA xs a k)"
  by (induction xs arbitrary: a) (auto intro!: preserves_bindA)

lemma preserves_try [intro]: "preserves f m \<Longrightarrow> preserves f (try_delivery m)"
  unfolding preserves_def try_delivery_def
  by (auto split: prod.splits sum.splits py_error.splits) (metis snd_conv)+

lemma preserves_on_db: "keeps_durable m \<Longrightarrow> preserves (\<lambda>sw. durable (fst sw)) (on_db m)"
  by (auto simp: preserves_def keeps_durable_def on_db_def split: prod.splits) (metis snd_conv)

lemma keeps_durable_alerts [intro]:
  "keeps_durable (list_dispatchable_for_scan i)" "keeps_durable (lock_delivery i)"
  "keeps_durable (get_scan_context c i)" "keeps_durable (mark_attempt_started i now)"
  "keeps_durable (mark_sent i p now)" "keeps_durable (mark_failed i e rt)" "keeps_durable (get_delivery i)"
proof -
  have get: "keeps_durable (get_delivery i)" for i
    unfolding get_delivery_def by (intro keeps_durable_bindA) (auto split: option.split)
  show "keeps_durable (get_delivery i)" by (rule get)
  show "keeps_durable (list_dispatchable_for_scan i)" "keeps_durable (lock_delivery i)"
    unfolding list_dispatchable_for_scan_def lock_delivery_def by auto
  show "keeps_durable (get_scan_context c i)"
    unfolding get_scan_context_def by (intro keeps_durable_bindA) (auto split: option.split)
  show "keeps_durable (mark_attempt_started i now)" "keeps_durable (mark_sent i p now)" "keeps_durable (mark_failed i e rt)"
    unfolding mark_attempt_started_def mark_sent_def mark_failed_def set_delivery_def by (auto intro!: get)
qed

abbreviation committed :: "session \<times> world \<Rightarrow> tables" where
  "committed sw \<equiv> durable (fst sw)"

lemma send_preserves: "notifiers_by_channel providers c = Some send \<Longrightarrow> preserves committed (send m)"
  by (auto simp: preserves_def notifiers_by_channel_def send_to_def Let_def)

lemma attempt_preserves: "preserves committed (attempt (sql_alert_repository collate) (notifiers_by_channel providers) base now i)"
  unfolding attempt_def sql_alert_repository_def finish_attempt_def
  by (auto intro!: preserves_bindA preserves_thenA preserves_try preserves_on_db send_preserves preserves_basic
      keeps_durable_alerts split: option.split sum.split)

lemma dispatch_preserves: "preserves committed (dispatch_scan (sql_alert_repository collate) (notifiers_by_channel providers) base now i)"
  unfolding dispatch_scan_def append_attempt_def
  by (intro preserves_bindA preserves_forA attempt_preserves preserves_basic)
    (auto simp: sql_alert_repository_def intro: preserves_on_db)

lemma commit_world_eq:
  "commit_world sw = (Inr x, sw') \<longleftrightarrow> usable (fst sw) \<and> sw' = ((fst sw)\<lparr>durable := work (fst sw)\<rparr>, snd sw)"
  by (cases sw; cases sw') (auto simp: commit_world_def on_db_eq commit_eq_Inr)

lemma world_scope_Inr:
  assumes "world_scope m sw = (Inr x, sw')"
  obtains t where "m sw = (Inr x, t)" and "usable (fst t)" and "sw' = ((fst t)\<lparr>durable := work (fst t)\<rparr>, snd t)"
proof -
  have "bindA m (\<lambda>x. thenA commit_world (returnA x)) sw = (Inr x, sw')"
    using assms by (auto simp: world_scope_def split: prod.splits sum.splits)
  then show thesis using that by (auto simp: bindA_eq_Inr thenA_eq_Inr commit_world_eq)
qed

lemma world_scope_Inl:
  assumes "preserves committed m" and "world_scope m sw = (Inl e, sw')"
  shows "committed sw' = committed sw \<and> work (fst sw') = committed sw \<and> \<not> poisoned (fst sw')"
proof -
  obtain t where t: "bindA m (\<lambda>x. thenA commit_world (returnA x)) sw = (Inl e, t)" and sw': "sw' = (rollback (fst t), snd t)"
    using assms(2) by (auto simp: world_scope_def split: prod.splits sum.splits)
  have "committed t = committed sw"
  proof -
    consider "m sw = (Inl e, t)" | x u where "m sw = (Inr x, u)" "commit_world u = (Inl e, t)"
      using t by (auto simp: bindA_eq_Inl thenA_eq_Inl)
    then show ?thesis
    proof cases
      case 1
      then show ?thesis using assms(1) unfolding preserves_def by (metis snd_conv)
    next
      case 2
      then have "flush (fst u) = (Inl e, fst t)" by (cases u; cases t) (auto simp: commit_world_def on_db_eq commit_def thenA_eq_Inl)
      then have "committed t = committed u" using flush_error by metis
      then show ?thesis using assms(1) 2(1) unfolding preserves_def by (metis snd_conv)
    qed
  qed
  then show ?thesis by (simp add: sw' rollback_def)
qed

section \<open>Attempts\<close>

text \<open>C23. An attempt that returns belongs to a delivery that had attempts left and was due. It counts
  one more attempt and settles the delivery: \<open>SENT\<close> after the provider took the message; otherwise
  \<open>FAILED\<close>, with the next attempt due 60 seconds after the first failure, 300 after the second and
  never after the third. No other delivery changes.\<close>

theorem attempt_settles:
  assumes "attempt (sql_alert_repository collate) (notifiers_by_channel providers) base now i sw = (Inr r, sw')"
    and "\<forall>d. delivery_view sw i = Some d \<longrightarrow> 0 \<le> dr_attempts d"
  shows "\<exists>d. delivery_view sw i = Some d \<and> due now d \<and> res_attempts r = dr_attempts d + 1 \<and>
    res_retry r = (if res_success r then None else if res_attempts r = 1 then Some (now + 60000000)
      else if res_attempts r = 2 then Some (now + 300000000) else None) \<and>
    delivery_view sw' = (delivery_view sw)(i \<mapsto> d\<lparr>dr_attempts := res_attempts r,
      dr_status := (if res_success r then SENT else alert_status.FAILED), dr_retry := res_retry r\<rparr>)"
proof -
  have nonneg: "0 \<le> dr_attempts d" if "delivery_view sw i = Some d" for d using assms(2) that by blast
  obtain d where d: "delivery_view sw i = Some d" "due now d" "res_attempts r = dr_attempts d + 1"
    "res_retry r = (if res_success r then None else retry_time (dr_attempts d + 1) now)"
    "delivery_view sw' = (delivery_view sw)(i \<mapsto> settled r d)"
    by (rule sql_alerts.attempt_returns [OF assms(1) nonneg])
  then show ?thesis by (intro exI [of _ d]) (simp add: settled_def attempted_def retry_time_def)
qed

text \<open>The state machine of deliveries: when all committed deliveries are pending without attempts,
  sent, or failed with a retry time exactly while fewer than three attempts were made, then so are
  all deliveries that a dispatch commits, whether the dispatch returns or raises. In particular no
  delivery is ever attempted more than three times.\<close>

theorem committed_deliveries_ok:
  assumes "world_scope (dispatch_scan (sql_alert_repository collate) (notifiers_by_channel providers) base now scan_id) sw = (res, sw')"
    and "work (fst sw) = committed sw"
    and "\<forall>i d. deliveries_in (committed sw) i = Some d \<longrightarrow> delivery_ok d"
  shows "\<forall>i d. deliveries_in (committed sw') i = Some d \<longrightarrow> delivery_ok d \<and> dr_attempts d \<le> 3"
proof (cases res)
  case (Inl e)
  then show ?thesis using world_scope_Inl [OF dispatch_preserves] assms delivery_ok_bounds by simp
next
  case (Inr rs)
  then have "world_scope (dispatch_scan (sql_alert_repository collate) (notifiers_by_channel providers) base now scan_id) sw = (Inr rs, sw')"
    using assms(1) by simp
  then obtain t where d: "dispatch_scan (sql_alert_repository collate) (notifiers_by_channel providers) base now scan_id sw = (Inr rs, t)"
    and sw': "sw' = ((fst t)\<lparr>durable := work (fst t)\<rparr>, snd t)"
    by (rule world_scope_Inr)
  have "\<forall>i d. delivery_view sw i = Some d \<longrightarrow> delivery_ok d" using assms(2,3) by (simp add: delivery_view_def)
  from sql_alerts.dispatch_keeps_ok [OF d this] show ?thesis
    using delivery_ok_bounds by (simp add: sw' delivery_view_def)
qed

lemma locked:
  assumes "usable (fst sw)"
  shows "op_lock_delivery (sql_alert_repository collate) i sw = (Inr (delivery_view sw i), sw)"
proof -
  have "lock_delivery i (fst sw) = (Inr (delivery_view sw i), fst sw)"
    using assms by (simp add: lock_delivery_Inr delivery_view_def)
  then show ?thesis by (simp add: sql_alert_repository_def on_db_eq)
qed

text \<open>C24. Backing off: after a failed attempt a retry is refused, without any effect, until the retry
  time has come, and after the third failed attempt for good.\<close>

theorem failed_attempt_backs_off:
  assumes "attempt (sql_alert_repository collate) (notifiers_by_channel providers) base now i sw = (Inr r, sw')"
    and "\<not> res_success r" and "\<forall>d. delivery_view sw i = Some d \<longrightarrow> 0 \<le> dr_attempts d" and "usable (fst sw')"
  shows "if res_attempts r < 3
    then \<exists>t. res_retry r = Some t \<and> t = now + (if res_attempts r = 1 then 60 else 300) * 1000000 \<and>
      (\<forall>now' < t. retry (sql_alert_repository collate) (notifiers_by_channel providers) base now' i sw' = (Inl (RetryNotDue t), sw'))
    else \<forall>now'. retry (sql_alert_repository collate) (notifiers_by_channel providers) base now' i sw' = (Inl (MaxAttemptsExceeded i), sw')"
proof -
  have nonneg: "0 \<le> dr_attempts d" if "delivery_view sw i = Some d" for d using assms(3) that by blast
  obtain d where d: "delivery_view sw i = Some d" "due now d" "res_attempts r = dr_attempts d + 1"
    "res_retry r = (if res_success r then None else retry_time (dr_attempts d + 1) now)"
    "delivery_view sw' = (delivery_view sw)(i \<mapsto> settled r d)"
    by (rule sql_alerts.attempt_returns [OF assms(1) nonneg])
  have lock: "op_lock_delivery (sql_alert_repository collate) i sw' = (Inr (Some (settled r d)), sw')"
    using locked [OF assms(4)] d(5) by simp
  show ?thesis
  proof (cases "res_attempts r < 3")
    case True
    then have one_two: "dr_attempts d = 0 \<or> dr_attempts d = 1" using nonneg [OF d(1)] d(3) by auto
    let ?t = "now + (if res_attempts r = 1 then 60 else 300) * 1000000"
    have t: "res_retry r = Some ?t" using one_two d(3,4) assms(2) by (auto simp: retry_time_def)
    have "retry (sql_alert_repository collate) (notifiers_by_channel providers) base now' i sw' = (Inl (RetryNotDue ?t), sw')"
      if "now' < ?t" for now'
      using True that d(3) t unfolding retry_def attempt_def bindA_step(1) [where m = "op_lock_delivery (sql_alert_repository collate) i", OF lock]
      by (simp add: settled_def attempted_def max_attempts_def)
    then show ?thesis using True t by auto
  next
    case False
    then show ?thesis
      using d(3) unfolding retry_def attempt_def bindA_step(1) [where m = "op_lock_delivery (sql_alert_repository collate) i", OF lock]
      by (simp add: settled_def attempted_def max_attempts_def)
  qed
qed

section \<open>Messages\<close>




section \<open>A due delivery is attempted\<close>

lemma usable_set_delivery:
  assumes "usable s" and "\<And>r. dl_id (f r) = dl_id r \<and> dl_scan (f r) = dl_scan r \<and> dl_channel (f r) = dl_channel r"
    and "\<And>r. find_delivery i (work s) = Some r \<Longrightarrow> int32 (dl_attempts (f r)) \<and> pred_option (at_most 250) (dl_provider_id (f r))"
  shows "usable (s\<lparr>work := (work s)\<lparr>t_deliveries := update_where (\<lambda>r. dl_id r = i) f (t_deliveries (work s))\<rparr>\<rparr>)"
proof -
  let ?rows = "t_deliveries (work s)" and ?new = "update_where (\<lambda>r. dl_id r = i) f (t_deliveries (work s))"
  have same: "map dl_id ?new = map dl_id ?rows" "map (\<lambda>d. (dl_scan d, dl_channel d)) ?new = map (\<lambda>d. (dl_scan d, dl_channel d)) ?rows"
    "map dl_scan ?new = map dl_scan ?rows"
    using assms(2) by (simp_all add: update_where_def)
  have refer: "refer_to dl_scan xs ids \<longleftrightarrow> set (map dl_scan xs) \<subseteq> set ids" for xs ids by (auto simp: refer_to_def list_all_iff)
  have unique: "unique_on dl_id ?rows" using assms(1) by (simp add: usable_def integrity_ok_def delivery_constraints_def)
  have "find_delivery i (work s) = Some r" if "r \<in> set ?rows" "dl_id r = i" for r
  proof -
    have "find_delivery i (work s) \<noteq> None" using that by (auto simp: find_delivery_def find_None_iff)
    then obtain r' where r': "find_delivery i (work s) = Some r'" by blast
    then have "r' \<in> set ?rows" "dl_id r' = i" by (auto simp: find_delivery_def find_Some_iff)
    then show ?thesis using unique_onD [OF unique, of r r'] that r' by simp
  qed
  then have data: "list_all (\<lambda>r. int32 (dl_attempts r) \<and> pred_option (at_most 250) (dl_provider_id r)) ?new"
    using assms(1,3) by (auto simp: usable_def data_ok_def list_all_iff update_where_def)
  have "integrity_ok (work s)" "data_ok (work s)" "\<not> poisoned s" using assms(1) by (simp_all add: usable_def)
  then show ?thesis
    using data by (simp add: usable_def integrity_ok_def delivery_constraints_def catalog_constraints_def scan_constraints_def
        change_constraints_def lineage_constraints_def unique_on_def refer same data_ok_def)
qed

lemma set_delivery_usable:
  assumes "usable s" and "\<And>r. dl_id (f r) = dl_id r \<and> dl_scan (f r) = dl_scan r \<and> dl_channel (f r) = dl_channel r"
    and "find_delivery i (work s) = Some d" and "int32 (dl_attempts (f d))" and "pred_option (at_most 250) (dl_provider_id (f d))"
    and "\<And>t. k d t = (Inr (g d), t)"
  shows "\<exists>s'. bindA (get_delivery i) (\<lambda>d. thenA (set_delivery (dl_id d) f) (thenA flush (k d))) s = (Inr (g d), s') \<and>
    usable s' \<and> (\<exists>rows. work s' = (work s)\<lparr>t_deliveries := rows\<rparr>) \<and> find_delivery i (work s') = Some (f d)"
proof -
  let ?s = "s\<lparr>work := (work s)\<lparr>t_deliveries := update_where (\<lambda>r. dl_id r = i) f (t_deliveries (work s))\<rparr>\<rparr>"
  have us: "usable ?s" by (rule usable_set_delivery [OF assms(1,2)]) (use assms(3-5) in simp)
  have id: "dl_id d = i" using find_delivery_id [OF assms(3)] .
  have get: "get_delivery i s = (Inr d, s)" using assms(1,3) by (simp add: get_delivery_Inr)
  have run: "bindA (get_delivery i) (\<lambda>d. thenA (set_delivery (dl_id d) f) (thenA flush (k d))) s = (Inr (g d), ?s)"
    unfolding bindA_step(1) [where m = "get_delivery i", OF get] id
    by (simp add: thenA_def bindA_def set_delivery_def modify_def usable_run(1) [OF us] assms(6))
  have "find_delivery i (work ?s) = map_option (\<lambda>r. if dl_id r = i then f r else r) (find_delivery i (work s))"
    unfolding find_delivery_def update_where_def by (simp, rule find_map_same) (simp add: assms(2))
  then show ?thesis using run us assms(3) id
    by (intro exI [of _ ?s]) auto
qed

lemma context_elsewhere:
  assumes "get_scan_context collate i s = (Inr c, s)" and "usable s'" and "work s' = (work s)\<lparr>t_deliveries := rows\<rparr>"
  shows "get_scan_context collate i s' = (Inr c, s')"
proof -
  have same: "scan_with_source i (work s') = scan_with_source i (work s)"
    "alert_change_rows collate i (work s') = alert_change_rows collate i (work s)"
    "alert_change_of collate (work s') = alert_change_of collate (work s)"
    by (simp_all add: assms(3) scan_with_source_def alert_change_rows_def alert_change_of_def affected_dags_def fun_eq_iff)
  have us: "usable s" using assms(1) by (auto simp: get_scan_context_def action_simps usable_def)
  show ?thesis
    using assms(1) unfolding get_scan_context_def
    by (auto simp: bindA_def usable_run(2) [OF us] usable_run(2) [OF assms(2)] same split: option.splits sum.splits prod.splits)
qed

lemma attempt_made:
  assumes us: "usable s" and row: "find_delivery i (work s) = Some row" and due: "due now (delivery_record_of row)"
    and nonneg: "0 \<le> dl_attempts row"
    and ctx: "get_scan_context collate (dl_scan row) s = (Inr (Some ctx), s)"
    and provider: "map_of (rev providers) (dl_channel row) = Some answer"
    and reply: "answer w (build_alert_message ctx base) = Inl (DeliveryFailure e) \<or>
      (\<exists>p. answer w (build_alert_message ctx base) = Inr p \<and> pred_option (at_most 250) p)"
    and old: "pred_option (at_most 250) (dl_provider_id row)"
  shows "\<exists>r s'. attempt (sql_alert_repository collate) (notifiers_by_channel providers) base now i (s, w) =
      (Inr r, (s', w @ [(dl_channel row, build_alert_message ctx base, answer w (build_alert_message ctx base))])) \<and>
    (res_success r \<longleftrightarrow> \<not> isl (answer w (build_alert_message ctx base))) \<and> usable s' \<and>
    (\<exists>rows. work s' = (work s)\<lparr>t_deliveries := rows\<rparr>)"
proof -
  let ?repo = "sql_alert_repository collate" and ?m = "build_alert_message ctx base"
  have small: "dl_attempts row < 3" and t: "case dl_retry row of None \<Rightarrow> True | Some t \<Rightarrow> t \<le> now"
    using due by (simp_all add: due_def delivery_record_of_def)
  have i32: "int32 (dl_attempts row + 1)" using small nonneg by (simp add: int32_def)
  have lock: "op_lock_delivery ?repo i (s, w) = (Inr (Some (delivery_record_of row)), (s, w))"
    using locked [of "(s, w)" collate i] us row by (simp add: delivery_view_def deliveries_in_def)
  have ctx_read: "op_scan_context ?repo (dl_scan row) (s, w) = (Inr (Some ctx), (s, w))"
    using ctx by (simp add: sql_alert_repository_def on_db_def)
  have send: "notifiers_by_channel providers (dl_channel row) = Some (send_to (dl_channel row) answer)"
    using provider by (simp add: notifiers_by_channel_def)
  obtain s1 rows1 where s1: "mark_attempt_started i now s = (Inr (delivery_record_of (start_row row)), s1)" "usable s1"
    "work s1 = (work s)\<lparr>t_deliveries := rows1\<rparr>" "find_delivery i (work s1) = Some (start_row row)"
    using set_delivery_usable [OF us _ row, of start_row "\<lambda>d. returnA (delivery_record_of (start_row d))" "\<lambda>d. delivery_record_of (start_row d)"]
      i32 old unfolding mark_attempt_started_def by (auto simp: start_row_def)
  have started: "op_started ?repo i now (s, w) = (Inr (delivery_record_of (start_row row)), (s1, w))"
    using s1(1) by (simp add: sql_alert_repository_def on_db_def)
  let ?w = "w @ [(dl_channel row, ?m, answer w ?m)]"
  have id: "dr_id (delivery_record_of row) = i" using find_delivery_id [OF row] by (simp add: delivery_record_of_def)
  have "\<exists>r s'. finish_attempt ?repo (send_to (dl_channel row) answer) ?m (delivery_record_of row)
      (delivery_record_of (start_row row)) now (s1, w) = (Inr r, (s', ?w)) \<and> (res_success r \<longleftrightarrow> \<not> isl (answer w ?m)) \<and>
      usable s' \<and> (\<exists>rows. work s' = (work s1)\<lparr>t_deliveries := rows\<rparr>)"
  proof (cases "answer w ?m")
    case (Inr p)
    let ?f = "\<lambda>r. r\<lparr>dl_status := SENT, dl_provider_id := p, dl_error := None, dl_retry := None, dl_sent := Some now\<rparr>"
    have p: "pred_option (at_most 250) p" using reply Inr by simp
    obtain s2 rows2 where s2: "mark_sent i p now s1 = (Inr (), s2)" "usable s2" "work s2 = (work s1)\<lparr>t_deliveries := rows2\<rparr>"
      using set_delivery_usable [OF s1(2) _ s1(4), of ?f "\<lambda>_. returnA ()" "\<lambda>_. ()"] i32 p
      unfolding mark_sent_def thenA_flush_unit by (auto simp: start_row_def)
    have "try_delivery (send_to (dl_channel row) answer ?m) (s1, w) = (Inr (Inr p), (s1, ?w))"
      by (simp add: try_delivery_def send_to_def Inr Let_def)
    then show ?thesis
      using s2 by (auto simp: finish_attempt_def bindA_def thenA_def id sql_alert_repository_def on_db_def Inr)
  next
    case (Inl e')
    then have e': "e' = DeliveryFailure e" using reply by simp
    obtain rt where rt: "next_retry_at (dl_attempts row + 1) now = Inr rt"
    proof -
      have "dl_attempts row = 0 \<or> dl_attempts row = 1 \<or> dl_attempts row = 2" using small nonneg by arith
      then show thesis using that by (auto simp: next_retry_at_def retry_delay_def max_attempts_def)
    qed
    let ?f = "\<lambda>r. r\<lparr>dl_status := alert_status.FAILED, dl_error := Some e, dl_retry := rt\<rparr>"
    obtain s2 rows2 where s2: "mark_failed i e rt s1 = (Inr (), s2)" "usable s2" "work s2 = (work s1)\<lparr>t_deliveries := rows2\<rparr>"
      using set_delivery_usable [OF s1(2) _ s1(4), of ?f "\<lambda>_. returnA ()" "\<lambda>_. ()"] i32 old
      unfolding mark_failed_def thenA_flush_unit by (auto simp: start_row_def)
    have "try_delivery (send_to (dl_channel row) answer ?m) (s1, w) = (Inr (Inl e), (s1, ?w))"
      by (simp add: try_delivery_def send_to_def Inl e' Let_def)
    moreover have "dr_attempts (delivery_record_of (start_row row)) = dl_attempts row + 1"
      by (simp add: delivery_record_of_def start_row_def)
    ultimately show ?thesis
      using s2 by (auto simp: finish_attempt_def bindA_def thenA_def id sql_alert_repository_def on_db_def Inl rt)
  qed
  then obtain r s' rows where fin: "finish_attempt ?repo (send_to (dl_channel row) answer) ?m (delivery_record_of row)
      (delivery_record_of (start_row row)) now (s1, w) = (Inr r, (s', ?w))" "res_success r \<longleftrightarrow> \<not> isl (answer w ?m)"
      "usable s'" "work s' = (work s1)\<lparr>t_deliveries := rows\<rparr>" by blast
  have "attempt ?repo (notifiers_by_channel providers) base now i (s, w) = (Inr r, (s', ?w))"
    unfolding attempt_def bindA_step(1) [where m = "op_lock_delivery ?repo i", OF lock]
    using small t fin(1) by (simp add: delivery_record_of_def max_attempts_def bindA_def ctx_read send started split: option.splits)
  moreover have "work s' = (work s)\<lparr>t_deliveries := rows\<rparr>" using fin(4) s1(3) by simp
  ultimately show ?thesis using fin(2,3) by blast
qed


section \<open>Examples\<close>

definition sample_context :: scan_alert_context where
  "sample_context = \<lparr>sa_scan = 3, sa_source_key = ''warehouse'', sa_error_code = None,
     sa_changes = [\<lparr>ac_column = ''public.orders.id'', ac_before_type = Some ''bigint'', ac_after_type = None,
       ac_severity = BREAKING, ac_affected = []\<rparr>]\<rparr>"

lemma render_none: "render_payload_type None = Inr None"
  by (simp add: render_payload_type_def)

lemma render_canonical: "render_payload_type (Some (column_canonical_dict c)) = Inr (Some (render_type (col_type c)))"
proof -
  obtain kvs where kvs: "type_canonical_dict (col_type c) = JObj kvs" by (simp add: type_canonical_dict_def)
  have "payload_get (column_canonical_dict c) ''data_type'' = Inr (Some (type_canonical_dict (col_type c)))"
    by (simp add: payload_get_def column_canonical_dict_def)
  moreover have "canonical_type_of_json (JObj kvs) = Inr (col_type c)" unfolding kvs [symmetric] by simp
  ultimately show ?thesis by (simp add: render_payload_type_def kvs)
qed

lemma sample_get_context: "get_scan_context id 3 sample_after = (Inr (Some sample_context), sample_after)"
proof -
  have scan: "scan_with_source 3 (work sample_after) = Some (hd (t_scans (work sample_after)), sample_source)"
    by (simp add: scan_with_source_def sample_after_def sample_defs)
  have rows: "alert_change_rows id 3 (work sample_after) = [(sample_row, hd (t_datasets sample_tables))]"
    by (simp add: alert_change_rows_def sample_after_def sample_defs change_row_of_def)
  have payload: "render_payload_type (Some (column_canonical_dict (sample_column ''id'' ''bigint'' False))) = Inr (Some ''bigint'')"
    by (simp add: render_canonical) (simp add: sample_column_def render_type_def)
  have "alert_change_of id (work sample_after) (sample_row, hd (t_datasets sample_tables)) = Inr (hd (sa_changes sample_context))"
    by (simp add: alert_change_of_def affected_dags_def sample_context_def sample_after_def sample_defs change_row_of_def
        sample_drop_def payload [unfolded sample_column_def] render_none)
  then show ?thesis
    unfolding get_scan_context_def
    by (simp add: bindA_def usable_run(2) [OF sample_after_usable] scan rows)
      (simp add: sample_context_def sample_after_def sample_defs)
qed

lemma sample_delivery:
  "find_delivery 11 (work sample_after) = Some (delivery_row_of 0 (hd (t_scans sample_tables)) 11 SLACK)"
  by (simp add: find_delivery_def sample_after_def delivery_row_of_def)

lemma sample_delivery_simps:
  "dl_scan (delivery_row_of 0 (hd (t_scans sample_tables)) 11 SLACK) = 3"
  "dl_channel (delivery_row_of 0 (hd (t_scans sample_tables)) 11 SLACK) = SLACK"
  "dl_attempts (delivery_row_of 0 (hd (t_scans sample_tables)) 11 SLACK) = 0"
  "dl_provider_id (delivery_row_of 0 (hd (t_scans sample_tables)) 11 SLACK) = None"
  "due 0 (delivery_record_of (delivery_row_of 0 (hd (t_scans sample_tables)) 11 SLACK))"
  by (simp_all add: delivery_row_of_def sample_tables_def due_def delivery_record_of_def)

definition taken :: provider where
  "taken w m = Inr (Some ''ok'')"

definition refused :: provider where
  "refused w m = Inl (DeliveryFailure ''slack_http_500'')"

abbreviation sample_attempt :: "provider \<Rightarrow> delivery_result world_db" where
  "sample_attempt p \<equiv> attempt (sql_alert_repository id) (notifiers_by_channel [(SLACK, p)]) ''http://localhost'' 0 11"

lemma sample_attempted:
  assumes "p = taken \<or> p = refused"
  shows "\<exists>r s'. sample_attempt p (sample_after, []) =
      (Inr r, (s', [(SLACK, build_alert_message sample_context ''http://localhost'', p [] (build_alert_message sample_context ''http://localhost''))])) \<and>
    (res_success r \<longleftrightarrow> p = taken) \<and> usable s'"
proof -
  have tr: "taken \<noteq> refused" by (auto simp: taken_def refused_def fun_eq_iff)
  have reply: "p [] m = Inl (DeliveryFailure ''slack_http_500'') \<or> (\<exists>q. p [] m = Inr q \<and> pred_option (at_most 250) q)" for m
    using assms by (auto simp: taken_def refused_def at_most_def)
  have ans: "isl (p [] m) \<longleftrightarrow> p \<noteq> taken" for m
    using assms tr by (auto simp: taken_def refused_def)
  have prov: "map_of (rev [(SLACK, p)]) SLACK = Some p" by simp
  from attempt_made [OF sample_after_usable sample_delivery sample_delivery_simps(5), of id sample_context "[(SLACK, p)]" p
      "[]" "''http://localhost''" "''slack_http_500''"] reply prov ans sample_get_context
  show ?thesis unfolding sample_delivery_simps by simp (metis (no_types, lifting))
qed

lemma sample_view_nonneg: "\<forall>d. delivery_view (sample_after, w) 11 = Some d \<longrightarrow> 0 \<le> dr_attempts d"
  by (simp add: delivery_view_def deliveries_in_def sample_delivery delivery_record_of_def sample_delivery_simps)


theorem attempt_settles_witness:
  "\<exists>r sw'. sample_attempt taken (sample_after, []) = (Inr r, sw') \<and> res_attempts r = 1 \<and>
     map_option dr_status (delivery_view sw' 11) = Some SENT"
proof -
  obtain r sw' where run: "sample_attempt taken (sample_after, []) = (Inr r, sw')" and ok: "res_success r"
    using sample_attempted [of taken] by blast
  have d: "delivery_view (sample_after, []) 11 = Some (delivery_record_of (delivery_row_of 0 (hd (t_scans sample_tables)) 11 SLACK))"
    by (simp add: delivery_view_def deliveries_in_def sample_delivery)
  show ?thesis
    using attempt_settles [OF run sample_view_nonneg] run ok
    by (auto simp: d delivery_record_of_def sample_delivery_simps)
qed

theorem failed_attempt_backs_off_witness:
  "\<exists>r sw'. sample_attempt refused (sample_after, []) = (Inr r, sw') \<and>
     retry (sql_alert_repository id) (notifiers_by_channel [(SLACK, refused)]) ''http://localhost'' 59999999 11 sw' =
       (Inl (RetryNotDue 60000000), sw')"
proof -
  obtain r sw' where run: "sample_attempt refused (sample_after, []) = (Inr r, sw')" and fail: "\<not> res_success r"
    and us: "usable (fst sw')"
    using sample_attempted [of refused] by (fastforce simp: taken_def refused_def fun_eq_iff)
  obtain d where d: "delivery_view (sample_after, []) 11 = Some d" "res_attempts r = dr_attempts d + 1"
    by (rule sql_alerts.attempt_returns [OF run]) (use sample_view_nonneg in blast)+
  have "dr_attempts d = 0"
    using d(1) by (auto simp: delivery_view_def deliveries_in_def sample_delivery delivery_record_of_def sample_delivery_simps)
  then have "res_attempts r = 1" using d(2) by simp
  then show ?thesis using failed_attempt_backs_off [OF run fail sample_view_nonneg us] run by auto
qed

theorem committed_deliveries_ok_witness:
  "pred_option (\<lambda>d. delivery_ok d \<and> dr_attempts d \<le> 3) (deliveries_in (committed (snd (world_scope
     (dispatch_scan (sql_alert_repository id) (notifiers_by_channel [(SLACK, refused)]) ''http://localhost'' 0 3)
     (sample_after\<lparr>durable := work sample_after\<rparr>, [])))) 11)"
proof -
  let ?m = "world_scope (dispatch_scan (sql_alert_repository id) (notifiers_by_channel [(SLACK, refused)]) ''http://localhost'' 0 3)"
  let ?sw = "(sample_after\<lparr>durable := work sample_after\<rparr>, []) :: session \<times> world"
  have ok: "\<forall>i d. deliveries_in (work sample_after) i = Some d \<longrightarrow> delivery_ok d"
    by (auto simp: deliveries_in_def find_delivery_def sample_after_def delivery_row_of_def delivery_record_of_def delivery_ok_def)
  obtain res sw' where run: "?m ?sw = (res, sw')" by (cases "?m ?sw")
  show ?thesis using committed_deliveries_ok [OF run] ok run by (simp add: option.pred_set)
qed

section \<open>A second channel that is not configured\<close>

definition two_deliveries :: session where
  "two_deliveries = fresh_session ((work sample_after)\<lparr>t_deliveries :=
     [delivery_row_of 0 (hd (t_scans sample_tables)) 11 SLACK, delivery_row_of 0 (hd (t_scans sample_tables)) 12 EMAIL]\<rparr>) 13"

lemma two_deliveries_usable: "usable two_deliveries"
  by (simp add: usable_def two_deliveries_def sample_after_def sample_defs constraint_defs at_most_def [of 63]
      at_most_def [of 100] at_most_def [of 200] int32_def change_row_of_def delivery_row_of_def)

lemma two_deliveries_view:
  "find_delivery 11 (work two_deliveries) = Some (delivery_row_of 0 (hd (t_scans sample_tables)) 11 SLACK)"
  "find_delivery 12 (work two_deliveries) = Some (delivery_row_of 0 (hd (t_scans sample_tables)) 12 EMAIL)"
  "list_dispatchable_for_scan 3 two_deliveries = (Inr [11, 12], two_deliveries)"
proof -
  show "find_delivery 11 (work two_deliveries) = Some (delivery_row_of 0 (hd (t_scans sample_tables)) 11 SLACK)"
    "find_delivery 12 (work two_deliveries) = Some (delivery_row_of 0 (hd (t_scans sample_tables)) 12 EMAIL)"
    by (simp_all add: two_deliveries_def fresh_session_def find_delivery_def delivery_row_of_def)
  show "list_dispatchable_for_scan 3 two_deliveries = (Inr [11, 12], two_deliveries)"
    unfolding list_dispatchable_for_scan_def usable_run(2) [OF two_deliveries_usable]
    by (simp add: two_deliveries_def fresh_session_def sample_tables_def delivery_row_of_def)
qed

lemma two_deliveries_context:
  assumes "usable s" and "work s = (work two_deliveries)\<lparr>t_deliveries := rows\<rparr>"
  shows "get_scan_context id 3 s = (Inr (Some sample_context), s)"
proof (rule context_elsewhere [OF sample_get_context assms(1)])
  show "work s = (work sample_after)\<lparr>t_deliveries := rows\<rparr>"
    by (simp add: assms(2) two_deliveries_def fresh_session_def)
qed

abbreviation slack_only :: "alert_channel \<Rightarrow> (session \<times> world) notifier option" where
  "slack_only \<equiv> notifiers_by_channel [(SLACK, taken)]"

abbreviation sent_to_slack :: world where
  "sent_to_slack \<equiv> [(SLACK, build_alert_message sample_context ''http://localhost'', Inr (Some ''ok''))]"

lemma second_attempt_raises:
  assumes "usable s" and "work s = (work two_deliveries)\<lparr>t_deliveries := rows\<rparr>"
    and "delivery_view (s, w) 12 = Some (delivery_record_of (delivery_row_of 0 (hd (t_scans sample_tables)) 12 EMAIL))"
  shows "attempt (sql_alert_repository id) slack_only ''http://localhost'' 0 12 (s, w) =
    (Inl (DeliveryFailure ''notification_channel_not_configured''), (s, w))"
proof -
  have lock: "op_lock_delivery (sql_alert_repository id) 12 (s, w) =
      (Inr (Some (delivery_record_of (delivery_row_of 0 (hd (t_scans sample_tables)) 12 EMAIL))), (s, w))"
    using locked [of "(s, w)" id 12] assms(1,3) by simp
  have ctx: "op_scan_context (sql_alert_repository id) 3 (s, w) = (Inr (Some sample_context), (s, w))"
    using two_deliveries_context [OF assms(1,2)] by (simp add: sql_alert_repository_def on_db_def)
  have none: "slack_only EMAIL = None" by (simp add: notifiers_by_channel_def)
  show ?thesis
    unfolding attempt_def bindA_step(1) [where m = "op_lock_delivery (sql_alert_repository id) 12", OF lock]
    by (simp add: delivery_record_of_def delivery_row_of_def sample_tables_def max_attempts_def bindA_def ctx none)
qed

lemma two_deliveries_dispatch:
  "\<exists>s'. dispatch_scan (sql_alert_repository id) slack_only ''http://localhost'' 0 3 (two_deliveries, []) =
     (Inl (DeliveryFailure ''notification_channel_not_configured''), (s', sent_to_slack))"
proof -
  let ?a = "attempt (sql_alert_repository id) slack_only ''http://localhost'' 0"
  have due: "due 0 (delivery_record_of (delivery_row_of 0 (hd (t_scans sample_tables)) 11 SLACK))"
    by (rule sample_delivery_simps)
  have ctx: "get_scan_context id (dl_scan (delivery_row_of 0 (hd (t_scans sample_tables)) 11 SLACK)) two_deliveries =
      (Inr (Some sample_context), two_deliveries)"
    unfolding sample_delivery_simps
    by (rule two_deliveries_context [OF two_deliveries_usable, of "t_deliveries (work two_deliveries)"]) simp
  obtain r s1 rows where one: "?a 11 (two_deliveries, []) = (Inr r, (s1, sent_to_slack))" "usable s1"
    "work s1 = (work two_deliveries)\<lparr>t_deliveries := rows\<rparr>"
    using attempt_made [OF two_deliveries_usable two_deliveries_view(1) due _ ctx, of "[(SLACK, taken)]" taken "[]" "''http://localhost''"]
    by (auto simp: sample_delivery_simps taken_def at_most_def)
  have "delivery_view (s1, sent_to_slack) 12 = delivery_view (two_deliveries, []) 12"
    by (rule sql_alerts.attempt_returns [OF one(1)])
      (auto simp: delivery_view_def deliveries_in_def two_deliveries_view delivery_record_of_def delivery_row_of_def)
  then have "?a 12 (s1, sent_to_slack) = (Inl (DeliveryFailure ''notification_channel_not_configured''), (s1, sent_to_slack))"
    by (intro second_attempt_raises [OF one(2,3)]) (simp add: delivery_view_def deliveries_in_def two_deliveries_view)
  moreover have "op_dispatchable (sql_alert_repository id) 3 (two_deliveries, []) = (Inr [11, 12], (two_deliveries, []))"
    by (simp add: sql_alert_repository_def on_db_def two_deliveries_view)
  ultimately show ?thesis
    using one(1) unfolding dispatch_scan_def append_attempt_def by (intro exI [of _ s1]) (simp add: bindA_def)
qed

text \<open>A dispatch that raises forgets what it sent: with a Slack and an email delivery pending and
  only Slack configured, the Slack message goes out, the email delivery raises, and the rollback
  leaves the Slack delivery pending, so that the next dispatch sends it again.\<close>

theorem rollback_forgets_sent_message:
  "\<exists>s'. world_scope (dispatch_scan (sql_alert_repository id) (notifiers_by_channel [(SLACK, taken)]) ''http://localhost'' 0 3) (two_deliveries, []) =
      (Inl (DeliveryFailure ''notification_channel_not_configured''),
       (s', [(SLACK, build_alert_message sample_context ''http://localhost'', Inr (Some ''ok''))])) \<and>
    work s' = work two_deliveries \<and> map dl_status (t_deliveries (work s')) = [PENDING, PENDING]"
proof -
  obtain s' where s': "dispatch_scan (sql_alert_repository id) slack_only ''http://localhost'' 0 3 (two_deliveries, []) =
      (Inl (DeliveryFailure ''notification_channel_not_configured''), (s', sent_to_slack))"
    using two_deliveries_dispatch by blast
  have "durable s' = durable two_deliveries"
    using dispatch_preserves [of id "[(SLACK, taken)]" "''http://localhost''" 0 3] s'
    unfolding preserves_def by (metis fst_conv snd_conv)
  then show ?thesis
    by (simp add: world_scope_def bindA_def s' rollback_def) (simp add: two_deliveries_def fresh_session_def delivery_row_of_def)
qed

end
