(* ===== verification/Settings.thy ===== *)
theory Settings
  imports Models
begin

text \<open>
  \<open>config.py\<close> and \<open>api/security.py\<close>: the settings with their defaults and the guard on production,
  and who counts as an operator. Reading the environment and the \<open>.env\<close> file is the settings library:
  the values it found are the argument of \<open>get_settings\<close>. A header value is a string of code points
  below 256, as the server decodes it.
\<close>

section \<open>Settings\<close>

datatype environment = Development | Test | Production

record settings =
  cfg_environment :: environment
  cfg_metadata_url :: string
  cfg_source_url :: string
  cfg_api_key :: string
  cfg_auth_disabled :: bool
  cfg_trust_proxy :: bool
  cfg_log_level :: string
  cfg_slack_webhook :: "string option"
  cfg_smtp_host :: string
  cfg_smtp_port :: int
  cfg_email_from :: string
  cfg_email_to :: "string list"
  cfg_dashboard_url :: string

text \<open>The fields without a default are required; all others are set by the update \<open>found\<close>.\<close>

definition default_settings :: "string \<Rightarrow> string \<Rightarrow> string \<Rightarrow> settings" where
  "default_settings metadata source key =
     \<lparr>cfg_environment = Development, cfg_metadata_url = metadata, cfg_source_url = source, cfg_api_key = key,
      cfg_auth_disabled = False, cfg_trust_proxy = False, cfg_log_level = ''INFO'', cfg_slack_webhook = None,
      cfg_smtp_host = ''mailpit'', cfg_smtp_port = 1025, cfg_email_from = ''schema-sentry@localhost'',
      cfg_email_to = [], cfg_dashboard_url = ''http://localhost:8000/''\<rparr>"

definition protect_production_authentication :: "settings \<Rightarrow> py_error + settings" where
  "protect_production_authentication cfg =
     (if cfg_environment cfg = Production \<and> cfg_auth_disabled cfg then
        Inl (ValueError ''AUTH_DISABLED cannot be true in production'')
      else Inr cfg)"

definition get_settings :: "string \<Rightarrow> string \<Rightarrow> string \<Rightarrow> (settings \<Rightarrow> settings) \<Rightarrow> py_error + settings" where
  "get_settings metadata source key found =
     (case protect_production_authentication (found (default_settings metadata source key)) of
        Inl (ValueError e) \<Rightarrow> Inl (ValidationError e)
      | r \<Rightarrow> r)"

section \<open>Operators\<close>

datatype mechanism = ApiKey | Proxy | Bypass

record operator_identity =
  identity_subject :: string
  identity_mechanism :: mechanism

definition is_ascii :: "string \<Rightarrow> bool" where
  "is_ascii s \<longleftrightarrow> list_all (\<lambda>c. code c < 128) s"

text \<open>\<open>secrets.compare_digest\<close> on strings compares them in constant time, and refuses strings that are
  not ASCII.\<close>

definition compare_digest :: "string \<Rightarrow> string \<Rightarrow> py_error + bool" where
  "compare_digest a b =
     (if is_ascii a \<and> is_ascii b then Inr (a = b)
      else Inl (TypeError ''comparing strings with non-ASCII characters is not supported''))"

definition present :: "string option \<Rightarrow> bool" where
  "present v = (case v of None \<Rightarrow> False | Some s \<Rightarrow> s \<noteq> [])"

definition proxy_operator :: "settings \<Rightarrow> string option \<Rightarrow> py_error + operator_identity" where
  "proxy_operator cfg x_authenticated_user =
     (if cfg_trust_proxy cfg \<and> present x_authenticated_user then
        Inr \<lparr>identity_subject = the x_authenticated_user, identity_mechanism = Proxy\<rparr>
      else Inl (HTTPException 401 (DetailText ''operator authentication required'')))"

definition require_operator ::
  "settings \<Rightarrow> string option \<Rightarrow> string option \<Rightarrow> py_error + operator_identity" where
  "require_operator cfg x_api_key x_authenticated_user =
     (if cfg_environment cfg = Development \<and> cfg_auth_disabled cfg then
        Inr \<lparr>identity_subject = ''local-development'', identity_mechanism = Bypass\<rparr>
      else if present x_api_key then
        bindR (compare_digest (the x_api_key) (cfg_api_key cfg)) (\<lambda>equal.
          if equal then Inr \<lparr>identity_subject = ''api-client'', identity_mechanism = ApiKey\<rparr>
          else proxy_operator cfg x_authenticated_user)
      else proxy_operator cfg x_authenticated_user)"

lemma proxy_operator_Inr:
  "proxy_operator cfg user = Inr ident \<longleftrightarrow> cfg_trust_proxy cfg \<and> present user \<and>
     ident = \<lparr>identity_subject = the user, identity_mechanism = Proxy\<rparr>"
  by (auto simp: proxy_operator_def)

text \<open>Every identity has its credential.\<close>

lemma operator_credential:
  assumes "require_operator cfg key user = Inr ident"
  shows "case identity_mechanism ident of
      Bypass \<Rightarrow> cfg_environment cfg = Development \<and> cfg_auth_disabled cfg
    | ApiKey \<Rightarrow> key = Some (cfg_api_key cfg) \<and> cfg_api_key cfg \<noteq> [] \<and> is_ascii (cfg_api_key cfg)
    | Proxy \<Rightarrow> cfg_trust_proxy cfg \<and> user = Some (identity_subject ident) \<and> identity_subject ident \<noteq> []"
  using assms
  by (auto simp: require_operator_def compare_digest_def proxy_operator_Inr present_def bindR_eq_Inr
      split: if_splits option.splits)

lemma operator_refused:
  assumes "require_operator cfg key user = Inl e"
  shows "e = HTTPException 401 (DetailText ''operator authentication required'') \<or>
    e = TypeError ''comparing strings with non-ASCII characters is not supported'' \<and>
      (\<not> is_ascii (the key) \<or> \<not> is_ascii (cfg_api_key cfg))"
  using assms
  by (auto simp: require_operator_def compare_digest_def proxy_operator_def bindR_eq_Inl split: if_splits)

text \<open>Outside of a development system with authentication switched off, a request is let in if and
  only if it carries the API key, or comes through a trusted proxy with a user and without a key that
  cannot be compared.\<close>

lemma operator_iff:
  assumes "\<not> (cfg_environment cfg = Development \<and> cfg_auth_disabled cfg)"
  shows "(\<exists>ident. require_operator cfg key user = Inr ident) \<longleftrightarrow>
      (key = Some (cfg_api_key cfg) \<and> cfg_api_key cfg \<noteq> [] \<and> is_ascii (cfg_api_key cfg)) \<or>
      (cfg_trust_proxy cfg \<and> present user \<and> (present key \<longrightarrow> is_ascii (the key) \<and> is_ascii (cfg_api_key cfg)))"
  using assms
  by (cases key) (auto simp: require_operator_def compare_digest_def proxy_operator_def present_def)

lemma production_settings:
  "get_settings metadata source key found = Inr cfg \<Longrightarrow> cfg_environment cfg = Production \<Longrightarrow> \<not> cfg_auth_disabled cfg"
  by (auto simp: get_settings_def protect_production_authentication_def split: if_splits)

end
