(* ===== verification/Notifiers.thy ===== *)
theory Notifiers
  imports Delivery Settings
begin

text \<open>
  \<open>infrastructure/notifications/slack.py\<close> and \<open>email.py\<close>: the two providers of the notification service,
  and their choice from the settings (\<open>_enabled_channels\<close>, \<open>_notifiers\<close> of \<open>api/dependencies.py\<close>). The HTTP
  client and the SMTP session are libraries: \<open>post\<close> and \<open>smtp\<close> stand for them. They see everything sent
  before, so a provider may answer differently each time.
\<close>

section \<open>Slack\<close>

datatype payload = PStr ustring | PArr "payload list" | PObj "(string \<times> payload) list"

definition build_slack_blocks :: "alert_message \<Rightarrow> payload" where
  "build_slack_blocks m = PObj
     [(''text'', PStr (msg_subject m)),
      (''blocks'', PArr
        [PObj [(''type'', PStr (utext ''header'')),
               (''text'', PObj [(''type'', PStr (utext ''plain_text'')), (''text'', PStr (msg_subject m))])],
         PObj [(''type'', PStr (utext ''section'')),
               (''text'', PObj [(''type'', PStr (utext ''mrkdwn'')), (''text'', PStr (msg_text m))])],
         PObj [(''type'', PStr (utext ''actions'')),
               (''elements'', PArr
                 [PObj [(''type'', PStr (utext ''button'')),
                        (''text'', PObj [(''type'', PStr (utext ''plain_text'')), (''text'', PStr (utext ''Open Schema Sentry''))]),
                        (''url'', PStr (msg_dashboard_url m))]])]])]"

record http_reply =
  reply_status :: nat
  reply_request_id :: "string option"

type_synonym http_client = "world \<Rightarrow> string \<Rightarrow> payload \<Rightarrow> py_error + http_reply"

definition raise_for_status :: "http_reply \<Rightarrow> py_error + http_reply" where
  "raise_for_status r = (if 200 \<le> reply_status r \<and> reply_status r < 300 then Inr r else Inl (HttpxError ''status''))"

definition slack_send :: "http_client \<Rightarrow> string \<Rightarrow> provider" where
  "slack_send post webhook_url w message =
     (case bindR (post w webhook_url (build_slack_blocks message)) raise_for_status of
        Inl (HttpxError _) \<Rightarrow> Inl (DeliveryFailure ''slack_delivery_failed'')
      | Inl e \<Rightarrow> Inl e
      | Inr response \<Rightarrow> Inr (reply_request_id response))"

section \<open>Email\<close>

record email_message =
  mail_subject :: ustring
  mail_from :: ustring
  mail_to :: ustring
  mail_id :: string
  mail_text :: ustring
  mail_html :: ustring

text \<open>\<open>EmailMessage\<close> refuses a header with a line break.\<close>

definition mail_header :: "ustring \<Rightarrow> py_error + ustring" where
  "mail_header v =
     (if 10 \<in> set v \<or> 13 \<in> set v then
        Inl (ValueError ''Header values may not contain linefeed or carriage return characters'')
      else Inr v)"

definition build_multipart_email :: "string \<Rightarrow> alert_message \<Rightarrow> string \<Rightarrow> string list \<Rightarrow> py_error + email_message" where
  "build_multipart_email msgid message sender recipients =
     bindR (mail_header (msg_subject message)) (\<lambda>subject.
     bindR (mail_header (utext sender)) (\<lambda>from_header.
     bindR (mail_header (utext (join '', '' recipients))) (\<lambda>to_header.
       Inr \<lparr>mail_subject = subject, mail_from = from_header, mail_to = to_header, mail_id = msgid,
            mail_text = msg_text message, mail_html = msg_html message\<rparr>)))"

text \<open>A session with the server yields the recipients that it refused.\<close>

type_synonym smtp_server = "world \<Rightarrow> string \<Rightarrow> int \<Rightarrow> email_message \<Rightarrow> py_error + string list"

definition email_send ::
  "smtp_server \<Rightarrow> (world \<Rightarrow> string) \<Rightarrow> string \<Rightarrow> int \<Rightarrow> string \<Rightarrow> string list \<Rightarrow> provider" where
  "email_send smtp make_msgid host port sender recipients w message =
     bindR (build_multipart_email (make_msgid w) message sender recipients) (\<lambda>mime.
     (case smtp w host port mime of
        Inl (OSError _) \<Rightarrow> Inl (DeliveryFailure ''email_delivery_failed'')
      | Inl (SMTPException _) \<Rightarrow> Inl (DeliveryFailure ''email_delivery_failed'')
      | Inl e \<Rightarrow> Inl e
      | Inr rejected \<Rightarrow>
          if rejected \<noteq> [] then Inl (DeliveryFailure ''smtp_recipients_refused'')
          else Inr (Some (mail_id mime))))"

section \<open>The configured channels\<close>

definition enabled_channels :: "settings \<Rightarrow> alert_channel list" where
  "enabled_channels cfg =
     (if present (cfg_slack_webhook cfg) then [SLACK] else []) @ (if cfg_email_to cfg \<noteq> [] then [EMAIL] else [])"

record outside =
  out_post :: http_client
  out_smtp :: smtp_server
  out_msgid :: "world \<Rightarrow> string"

definition configured_notifiers :: "outside \<Rightarrow> settings \<Rightarrow> (alert_channel \<times> provider) list" where
  "configured_notifiers out cfg =
     (if present (cfg_slack_webhook cfg) then [(SLACK, slack_send (out_post out) (the (cfg_slack_webhook cfg)))] else []) @
     (if cfg_email_to cfg \<noteq> [] then
        [(EMAIL, email_send (out_smtp out) (out_msgid out) (cfg_smtp_host cfg) (cfg_smtp_port cfg) (cfg_email_from cfg)
            (cfg_email_to cfg))]
      else [])"

text \<open>Alerts are queued for exactly the channels that have a notifier.\<close>

lemma channels_configured:
  "channel \<in> set (enabled_channels cfg) \<longleftrightarrow> notifiers_by_channel (configured_notifiers out cfg) channel \<noteq> None"
  by (cases channel) (auto simp: enabled_channels_def notifiers_by_channel_def configured_notifiers_def)

text \<open>Line breaks in the subject, which holds the key of the source, are the one way in which a working
  client leaves an error other than \<open>DeliveryFailure\<close>.\<close>

definition clients_ok :: "outside \<Rightarrow> bool" where
  "clients_ok out \<longleftrightarrow>
     (\<forall>w url p e. out_post out w url p = Inl e \<longrightarrow> (\<exists>x. e = HttpxError x)) \<and>
     (\<forall>w h p m e. out_smtp out w h p m = Inl e \<longrightarrow> (\<exists>x. e = OSError x \<or> e = SMTPException x))"

definition headers_ok :: "settings \<Rightarrow> alert_message \<Rightarrow> bool" where
  "headers_ok cfg m \<longleftrightarrow> (\<forall>v \<in> {msg_subject m, utext (cfg_email_from cfg), utext (join '', '' (cfg_email_to cfg))}.
     10 \<notin> set v \<and> 13 \<notin> set v)"

lemma slack_raises:
  assumes "clients_ok out" and "slack_send (out_post out) url w m = Inl e"
  shows "e = DeliveryFailure ''slack_delivery_failed''"
proof (cases "bindR (out_post out w url (build_slack_blocks m)) raise_for_status")
  case (Inl f)
  then consider "out_post out w url (build_slack_blocks m) = Inl f" | "f = HttpxError ''status''"
    by (auto simp: bindR_eq_Inl raise_for_status_def split: if_splits)
  then obtain x where "f = HttpxError x"
    by cases (use assms(1) in \<open>auto simp only: clients_ok_def\<close>, blast)
  then show ?thesis using assms(2) Inl by (simp add: slack_send_def)
next
  case (Inr r)
  then show ?thesis using assms(2) by (simp add: slack_send_def)
qed

lemma email_raises:
  assumes "clients_ok out" and "headers_ok cfg m"
    and "email_send (out_smtp out) (out_msgid out) host port (cfg_email_from cfg) (cfg_email_to cfg) w m = Inl e"
  shows "\<exists>x. e = DeliveryFailure x"
proof -
  obtain mime where mime: "build_multipart_email (out_msgid out w) m (cfg_email_from cfg) (cfg_email_to cfg) = Inr mime"
    using assms(2) by (simp add: build_multipart_email_def mail_header_def headers_ok_def)
  show ?thesis
  proof (cases "out_smtp out w host port mime")
    case (Inl f)
    then obtain x where "f = OSError x \<or> f = SMTPException x" using assms(1) unfolding clients_ok_def by blast
    then show ?thesis using assms(3) mime Inl by (auto simp: email_send_def)
  next
    case (Inr rejected)
    then show ?thesis using assms(3) mime by (auto simp: email_send_def split: if_splits)
  qed
qed

lemma configured_raises:
  assumes "clients_ok out" and "headers_ok cfg m"
    and "map_of (rev (configured_notifiers out cfg)) channel = Some p" and "p w m = Inl e"
  shows "\<exists>x. e = DeliveryFailure x"
proof -
  from assms(3) have "p = slack_send (out_post out) (the (cfg_slack_webhook cfg)) \<or>
      p = email_send (out_smtp out) (out_msgid out) (cfg_smtp_host cfg) (cfg_smtp_port cfg) (cfg_email_from cfg) (cfg_email_to cfg)"
    by (auto simp: configured_notifiers_def dest!: map_of_SomeD split: if_splits)
  then show ?thesis
  proof
    assume "p = slack_send (out_post out) (the (cfg_slack_webhook cfg))"
    then show ?thesis using slack_raises [OF assms(1)] assms(4) by blast
  next
    assume "p = email_send (out_smtp out) (out_msgid out) (cfg_smtp_host cfg) (cfg_smtp_port cfg) (cfg_email_from cfg) (cfg_email_to cfg)"
    then show ?thesis using email_raises [OF assms(1,2)] assms(4) by blast
  qed
qed

end
