(* ===== verification/Lineage.thy ===== *)
theory Lineage
  imports Models
begin

text \<open>
  \<open>domain/lineage.py\<close>: the graph of column lineage and the search for the pipelines that a set of
  columns reaches. The search is a breadth-first loop over a queue; a pair of pipeline and
  downstream column is visited once. The lemmas show that the loop ends, that it finds exactly
  the reachable pairs, that the recorded path is a shortest one, and how the result is ordered.
\<close>

record pipeline_definition =
  pipeline_key :: string
  pipeline_dag :: string
  pipeline_owner :: string
  pipeline_criticality :: criticality

record lineage_edge =
  edge_pipeline :: pipeline_definition
  edge_upstream :: column_ref
  edge_downstream :: column_ref

record pipeline_impact =
  impact_pipeline :: pipeline_definition
  impact_downstream :: column_ref
  impact_path :: "lineage_edge list"

fun criticality_rank :: "criticality \<Rightarrow> int" where
  "criticality_rank LOW = 0"
| "criticality_rank MEDIUM = 1"
| "criticality_rank HIGH = 2"
| "criticality_rank CRITICAL = 3"

section \<open>The graph\<close>

type_synonym lineage_graph = "(column_ref \<times> lineage_edge list) list"

definition edge_sort_key :: "lineage_edge \<Rightarrow> string \<times> string \<times> string \<times> string" where
  "edge_sort_key e =
     (pipeline_key (edge_pipeline e), ref_schema (ref_dataset (edge_downstream e)),
      ref_table (ref_dataset (edge_downstream e)), ref_name (edge_downstream e))"

definition edges_from :: "lineage_graph \<Rightarrow> column_ref \<Rightarrow> lineage_edge list" where
  "edges_from g c = (case map_of g c of Some es \<Rightarrow> es | None \<Rightarrow> [])"

definition group_edges :: "lineage_edge list \<Rightarrow> lineage_graph" where
  "group_edges edges =
     fold (\<lambda>e g. AList.update (edge_upstream e) (edges_from g (edge_upstream e) @ [e]) g) edges []"

definition lineage_graph :: "lineage_edge list \<Rightarrow> lineage_graph" where
  "lineage_graph edges = map (\<lambda>(upstream, values). (upstream, sort_key edge_sort_key values)) (group_edges edges)"

section \<open>The search\<close>

type_synonym impact_key = "string \<times> column_ref"
type_synonym search_queue = "(column_ref \<times> lineage_edge list) list"
type_synonym found_impacts = "(impact_key \<times> pipeline_impact) list"

definition edge_key :: "lineage_edge \<Rightarrow> impact_key" where
  "edge_key e = (pipeline_key (edge_pipeline e), edge_downstream e)"

definition visit_edge ::
  "lineage_edge list \<Rightarrow> lineage_edge \<Rightarrow> search_queue \<times> impact_key set \<times> found_impacts
     \<Rightarrow> search_queue \<times> impact_key set \<times> found_impacts" where
  "visit_edge path e s =
     (case s of (queue, visited, found) \<Rightarrow>
        if edge_key e \<in> visited then s
        else (let next_path = path @ [e];
                  impact = \<lparr>impact_pipeline = edge_pipeline e, impact_downstream = edge_downstream e,
                            impact_path = next_path\<rparr>
              in (queue @ [(edge_downstream e, next_path)], insert (edge_key e) visited,
                  AList.update (edge_key e) impact found)))"

definition graph_keys :: "lineage_graph \<Rightarrow> impact_key set" where
  "graph_keys g = (\<Union>(_, es) \<in> set g. edge_key ` set es)"

lemma finite_graph_keys [simp]: "finite (graph_keys g)"
  by (auto simp: graph_keys_def)

lemma edges_from_keys: "e \<in> set (edges_from g c) \<Longrightarrow> edge_key e \<in> graph_keys g"
  by (cases "map_of g c") (force simp: edges_from_def graph_keys_def dest: map_of_SomeD)+

lemma visit_edge_measure:
  assumes "edge_key e \<in> graph_keys g" and "visit_edge path e (q, v, f) = (q', v', f')"
  shows "length q' + card (graph_keys g - v') = length q + card (graph_keys g - v)"
proof (cases "edge_key e \<in> v")
  case False
  then have "card (graph_keys g - v) = Suc (card (graph_keys g - insert (edge_key e) v))"
    using assms(1) by (metis Diff_insert DiffI card_Suc_Diff1 finite_Diff finite_graph_keys)
  then show ?thesis using False assms(2) by (auto simp: visit_edge_def Let_def)
qed (use assms(2) in \<open>simp add: visit_edge_def\<close>)

lemma visit_edges_measure:
  assumes "\<And>e. e \<in> set es \<Longrightarrow> edge_key e \<in> graph_keys g"
    and "fold (visit_edge path) es (q, v, f) = (q', v', f')"
  shows "length q' + card (graph_keys g - v') = length q + card (graph_keys g - v)"
  using assms
proof (induction es arbitrary: q v f)
  case (Cons e es)
  obtain q1 v1 f1 where s: "visit_edge path e (q, v, f) = (q1, v1, f1)" by (metis prod_cases3)
  then show ?case
    using Cons visit_edge_measure [of e g path q v f q1 v1 f1] by simp
qed simp

text \<open>
  \<open>while queue: ...\<close> Each round takes one entry off the queue and appends one per newly visited
  pair, so the length of the queue plus the number of unvisited pairs falls.
\<close>

function search :: "lineage_graph \<Rightarrow> search_queue \<Rightarrow> impact_key set \<Rightarrow> found_impacts \<Rightarrow> found_impacts" where
  "search g [] visited found = found"
| "search g ((column, path) # queue) visited found =
     (case fold (visit_edge path) (edges_from g column) (queue, visited, found) of
        (queue', visited', found') \<Rightarrow> search g queue' visited' found')"
  by pat_completeness auto
termination
proof (relation "measure (\<lambda>(g, q, v, f). length q + card (graph_keys g - v))", simp)
  fix g c path q v f q' r v' f'
  assume "(q', r) = fold (visit_edge path) (edges_from g c) (q, v, f)" "(v', f') = r"
  then have "fold (visit_edge path) (edges_from g c) (q, v, f) = (q', v', f')" by simp
  then have "length q' + card (graph_keys g - v') = length q + card (graph_keys g - v)"
    using visit_edges_measure [of "edges_from g c" g] edges_from_keys by blast
  then show "((g, q', v', f'), g, (c, path) # q, v, f) \<in>
      measure (\<lambda>(g, q, v, f). length q + card (graph_keys g - v))"
    by simp
qed

definition impact_sort_key :: "pipeline_impact \<Rightarrow> int \<times> string \<times> string" where
  "impact_sort_key i =
     (- criticality_rank (pipeline_criticality (impact_pipeline i)), pipeline_key (impact_pipeline i),
      column_qualified_name (impact_downstream i))"

definition impacts_for_columns :: "lineage_graph \<Rightarrow> column_ref list \<Rightarrow> pipeline_impact list" where
  "impacts_for_columns g columns =
     sort_key impact_sort_key (map snd (search g (map (\<lambda>c. (c, [])) columns) {} []))"

definition impacts :: "lineage_graph \<Rightarrow> schema_change list \<Rightarrow> pipeline_impact list" where
  "impacts g changes =
     impacts_for_columns g (map change_ref (filter (\<lambda>c. change_severity c = BREAKING) changes))"

section \<open>Facts about the graph\<close>

lemma map_of_group_edges:
  "edges_from (group_edges edges) c = filter (\<lambda>e. edge_upstream e = c) edges"
proof -
  let ?f = "\<lambda>e g. AList.update (edge_upstream e) (edges_from g (edge_upstream e) @ [e]) g"
  have "edges_from (fold ?f es g) c = edges_from g c @ filter (\<lambda>e. edge_upstream e = c) es" for es g
    by (induction es arbitrary: g) (auto simp: edges_from_def update_conv' split: option.splits)
  then show ?thesis by (simp add: group_edges_def edges_from_def)
qed

lemma edges_from_lineage_graph:
  "edges_from (lineage_graph edges) c = sort_key edge_sort_key (filter (\<lambda>e. edge_upstream e = c) edges)"
proof -
  have "map_of (lineage_graph edges) c = map_option (sort_key edge_sort_key) (map_of (group_edges edges) c)"
    by (simp add: lineage_graph_def map_of_map)
  then have "edges_from (lineage_graph edges) c = sort_key edge_sort_key (edges_from (group_edges edges) c)"
    by (simp add: edges_from_def split: option.splits)
  then show ?thesis by (simp add: map_of_group_edges)
qed

section \<open>Walks\<close>

fun walk :: "lineage_edge set \<Rightarrow> column_ref \<Rightarrow> lineage_edge list \<Rightarrow> column_ref \<Rightarrow> bool" where
  "walk E a [] b \<longleftrightarrow> a = b"
| "walk E a (e # es) b \<longleftrightarrow> e \<in> E \<and> edge_upstream e = a \<and> walk E (edge_downstream e) es b"

lemma walk_append: "walk E a (p @ q) c \<longleftrightarrow> (\<exists>b. walk E a p b \<and> walk E b q c)"
  by (induction p arbitrary: a) auto

inductive reachable :: "lineage_edge set \<Rightarrow> column_ref set \<Rightarrow> column_ref \<Rightarrow> bool"
  for E cols where
  start: "c \<in> cols \<Longrightarrow> reachable E cols c"
| step: "reachable E cols (edge_upstream e) \<Longrightarrow> e \<in> E \<Longrightarrow> reachable E cols (edge_downstream e)"

lemma reachable_iff_walk: "reachable E cols c \<longleftrightarrow> (\<exists>a \<in> cols. \<exists>p. walk E a p c)"
proof
  assume "reachable E cols c"
  then show "\<exists>a \<in> cols. \<exists>p. walk E a p c"
  proof induction
    case (start c)
    then show ?case by (metis walk.simps(1))
  next
    case (step e)
    then obtain a p where "a \<in> cols" "walk E a p (edge_upstream e)" by blast
    then have "walk E a (p @ [e]) (edge_downstream e)" using step.hyps by (simp add: walk_append)
    then show ?case using \<open>a \<in> cols\<close> by blast
  qed
next
  assume "\<exists>a \<in> cols. \<exists>p. walk E a p c"
  then obtain a p where "a \<in> cols" and w: "walk E a p c" by blast
  have "walk E a p c \<Longrightarrow> reachable E cols a \<Longrightarrow> reachable E cols c" for a
    by (induction p arbitrary: a) (auto intro: reachable.step)
  then show "reachable E cols c" using w \<open>a \<in> cols\<close> reachable.start by blast
qed

section \<open>The loop invariant\<close>

text \<open>
  An entry of \<open>found\<close> records an edge and a walk to it from one of the columns asked for.
\<close>

definition recorded ::
  "lineage_edge set \<Rightarrow> column_ref set \<Rightarrow> impact_key \<Rightarrow> pipeline_impact \<Rightarrow> bool" where
  "recorded E cols k i \<longleftrightarrow>
     (\<exists>a p e. a \<in> cols \<and> e \<in> E \<and> walk E a p (edge_upstream e) \<and> k = edge_key e \<and>
        impact_pipeline i = edge_pipeline e \<and> impact_downstream i = edge_downstream e \<and>
        impact_path i = p @ [e])"

definition levels :: "search_queue \<Rightarrow> (column_ref \<times> nat) set" where
  "levels q = (\<lambda>(c, p). (c, length p)) ` set q"

text \<open>
  The invariant between two steps of the inner loop. \<open>D\<close> holds the columns taken off the queue so
  far with the lengths of their paths; \<open>c\<close> is the current one, at level \<open>l\<close>, and \<open>pend\<close> the edges
  out of \<open>c\<close> still to be looked at.
\<close>

record search_state =
  ss_done :: "(column_ref \<times> nat) set"
  ss_current :: column_ref
  ss_level :: nat
  ss_pending :: "lineage_edge set"

definition followed :: "lineage_edge set \<Rightarrow> search_state \<Rightarrow> found_impacts \<Rightarrow> bool" where
  "followed E s f \<longleftrightarrow> (\<forall>(c, m) \<in> ss_done s. \<forall>e \<in> E. edge_upstream e = c \<longrightarrow>
     c = ss_current s \<and> m = ss_level s \<and> e \<in> ss_pending s \<or>
     (\<exists>i. (edge_key e, i) \<in> set f \<and> length (impact_path i) \<le> m + 1))"

lemma followed_visit:
  assumes "followed E \<lparr>ss_done = D, ss_current = c, ss_level = l, ss_pending = insert e P\<rparr> f"
    and "(edge_key e, i) \<in> set f'" and "length (impact_path i) \<le> l + 1" and "set f \<subseteq> set f'"
  shows "followed E \<lparr>ss_done = D, ss_current = c, ss_level = l, ss_pending = P\<rparr> f'"
proof -
  have "c' = c \<and> m = l \<and> e' \<in> P \<or> (\<exists>i. (edge_key e', i) \<in> set f' \<and> length (impact_path i) \<le> m + 1)"
    if "(c', m) \<in> D" "e' \<in> E" "edge_upstream e' = c'" for c' m e'
  proof -
    from assms(1) that consider "c' = c" "m = l" "e' \<in> insert e P"
      | j where "(edge_key e', j) \<in> set f" "length (impact_path j) \<le> m + 1"
      unfolding followed_def by fastforce
    then show ?thesis
    proof cases
      case 1
      then show ?thesis using assms(2,3) by (cases "e' = e") auto
    qed (use assms(4) in blast)
  qed
  then show ?thesis by (auto simp: followed_def)
qed

fun search_inv ::
  "lineage_edge set \<Rightarrow> column_ref set \<Rightarrow> search_state
     \<Rightarrow> search_queue \<times> impact_key set \<times> found_impacts \<Rightarrow> bool" where
  "search_inv E cols s (q, v, f) \<longleftrightarrow>
     fst ` set f = v \<and> distinct (map fst f) \<and>
     (\<forall>(c, p) \<in> set q. \<exists>a \<in> cols. walk E a p c) \<and>
     (\<forall>(k, i) \<in> set f. recorded E cols k i) \<and>
     followed E s f \<and>
     (\<forall>a \<in> cols. (a, 0) \<in> ss_done s \<union> levels q) \<and>
     (\<forall>(k, i) \<in> set f. (impact_downstream i, length (impact_path i)) \<in> ss_done s \<union> levels q) \<and>
     sorted (map (length \<circ> snd) q) \<and>
     (\<forall>(c, p) \<in> set q. ss_level s \<le> length p \<and> length p \<le> ss_level s + 1) \<and>
     (\<forall>(k, i) \<in> set f. length (impact_path i) \<le> ss_level s + 1)"

lemma visit_edge_inv:
  assumes inv: "search_inv E cols \<lparr>ss_done = D, ss_current = c, ss_level = length path, ss_pending = insert e P\<rparr> s"
    and e: "e \<in> E" "edge_upstream e = c" and a: "a \<in> cols" "walk E a path c"
  shows "search_inv E cols \<lparr>ss_done = D, ss_current = c, ss_level = length path, ss_pending = P\<rparr> (visit_edge path e s)"
proof (cases s)
  case (fields q v f)
  note inv = inv [unfolded fields search_inv.simps search_state.simps]
  have fol0: "followed E \<lparr>ss_done = D, ss_current = c, ss_level = length path, ss_pending = insert e P\<rparr> f"
    using inv by (elim conjE)
  show ?thesis
  proof (cases "edge_key e \<in> v")
    case True
    then obtain i where i: "(edge_key e, i) \<in> set f" using inv by force
    then have "length (impact_path i) \<le> length path + 1" using inv by fast
    then have "followed E \<lparr>ss_done = D, ss_current = c, ss_level = length path, ss_pending = P\<rparr> f"
      by (intro followed_visit [OF fol0 i]) simp_all
    then show ?thesis using inv True unfolding fields visit_edge_def by auto
  next
    case False
    let ?i = "\<lparr>impact_pipeline = edge_pipeline e, impact_downstream = edge_downstream e,
                 impact_path = path @ [e]\<rparr>"
    have s': "visit_edge path e s =
        (q @ [(edge_downstream e, path @ [e])], insert (edge_key e) v, f @ [(edge_key e, ?i)])"
      using False inv by (simp add: fields visit_edge_def Let_def dict_simps)
    have w: "walk E a (path @ [e]) (edge_downstream e)" using e a by (simp add: walk_append)
    have r: "recorded E cols (edge_key e) ?i" using e a by (auto simp: recorded_def)
    have fol: "followed E \<lparr>ss_done = D, ss_current = c, ss_level = length path, ss_pending = P\<rparr>
        (f @ [(edge_key e, ?i)])"
      by (rule followed_visit [OF fol0, of ?i]) auto
    have lv: "levels (q @ [(edge_downstream e, path @ [e])]) =
        insert (edge_downstream e, length path + 1) (levels q)"
      by (simp add: levels_def)
    show ?thesis
      unfolding s' search_inv.simps search_state.simps
    proof (intro conjI)
      show "sorted (map (length \<circ> snd) (q @ [(edge_downstream e, path @ [e])]))"
        using inv by (fastforce simp: sorted_append)
    qed (use inv False w r a(1) in \<open>auto simp: lv fol\<close>)
  qed
qed

lemma visit_edges_inv:
  assumes "search_inv E cols \<lparr>ss_done = D, ss_current = c, ss_level = length path, ss_pending = set es\<rparr> s"
    and "\<And>e. e \<in> set es \<Longrightarrow> e \<in> E \<and> edge_upstream e = c" and a: "a \<in> cols" "walk E a path c"
  shows "search_inv E cols \<lparr>ss_done = D, ss_current = c, ss_level = length path, ss_pending = {}\<rparr>
    (fold (visit_edge path) es s)"
  using assms(1,2)
proof (induction es arbitrary: s)
  case (Cons e es)
  then show ?case using visit_edge_inv [of E cols D c path e "set es" s a] a by simp
qed simp

lemma pop_inv:
  assumes "search_inv E cols \<lparr>ss_done = D, ss_current = c0, ss_level = l, ss_pending = {}\<rparr> ((c, path) # q, v, f)"
    and "set es = {e \<in> E. edge_upstream e = c}"
  shows "search_inv E cols
    \<lparr>ss_done = insert (c, length path) D, ss_current = c, ss_level = length path, ss_pending = set es\<rparr> (q, v, f)"
proof -
  note inv = assms(1) [unfolded search_inv.simps search_state.simps]
  have "followed E \<lparr>ss_done = D, ss_current = c0, ss_level = l, ss_pending = {}\<rparr> f"
    using inv by (elim conjE)
  then have fol: "followed E \<lparr>ss_done = insert (c, length path) D, ss_current = c, ss_level = length path,
      ss_pending = set es\<rparr> f"
    unfolding followed_def search_state.simps assms(2) by fast
  have lv: "levels ((c, path) # q) = insert (c, length path) (levels q)" by (simp add: levels_def)
  have lo: "\<forall>(c', p) \<in> set q. length path \<le> length p \<and> length p \<le> length path + 1"
  proof
    fix x assume x: "x \<in> set q"
    obtain c' p where "x = (c', p)" by (cases x)
    moreover have "length path \<le> length (snd x)" using inv x by auto
    moreover have "length (snd x) \<le> l + 1" "l \<le> length path" using inv x by auto
    ultimately show "case x of (c', p) \<Rightarrow> length path \<le> length p \<and> length p \<le> length path + 1" by simp
  qed
  have "l \<le> length path" using inv by simp
  then have fo: "\<forall>(k, i) \<in> set f. length (impact_path i) \<le> length path + 1" using inv by fastforce
  have "sorted (map (length \<circ> snd) q)" using inv by simp
  then show ?thesis
    unfolding search_inv.simps search_state.simps
    using fol lo fo inv by (simp add: lv)
qed

text \<open>What the finished search has recorded.\<close>

definition search_complete :: "lineage_edge set \<Rightarrow> column_ref set \<Rightarrow> found_impacts \<Rightarrow> bool" where
  "search_complete E cols f \<longleftrightarrow>
     distinct (map fst f) \<and> (\<forall>(k, i) \<in> set f. recorded E cols k i) \<and>
     (\<forall>a \<in> cols. \<forall>p e. walk E a p (edge_upstream e) \<longrightarrow> e \<in> E \<longrightarrow>
        (\<exists>i. (edge_key e, i) \<in> set f \<and> length (impact_path i) \<le> length p + 1))"

lemma inv_complete:
  assumes "search_inv E cols \<lparr>ss_done = D, ss_current = c0, ss_level = l, ss_pending = {}\<rparr> ([], v, f)"
  shows "search_complete E cols f"
proof -
  note inv = assms [unfolded search_inv.simps search_state.simps]
  have fol: "followed E \<lparr>ss_done = D, ss_current = c0, ss_level = l, ss_pending = {}\<rparr> f"
    using inv by (elim conjE)
  have next_level: "\<exists>i. (edge_key e, i) \<in> set f \<and> length (impact_path i) \<le> m + 1 \<and>
      (edge_downstream e, length (impact_path i)) \<in> D"
    if m: "(edge_upstream e, m) \<in> D" "e \<in> E" for e m
  proof -
    obtain i where i: "(edge_key e, i) \<in> set f" "length (impact_path i) \<le> m + 1"
      using bspec [OF fol [unfolded followed_def search_state.simps] m(1)] m(2) by auto
    moreover have "impact_downstream i = edge_downstream e"
      using inv i(1) by (fastforce simp: recorded_def edge_key_def)
    ultimately show ?thesis using inv by (fastforce simp: levels_def)
  qed
  have reach: "\<exists>m' \<le> m + length p. (c, m') \<in> D" if "walk E a p c" "(a, m) \<in> D" for a p c m
    using that
  proof (induction p arbitrary: a m)
    case (Cons e p)
    then have "(edge_upstream e, m) \<in> D" "e \<in> E" by auto
    then obtain i :: pipeline_impact where "length (impact_path i) \<le> m + 1" "(edge_downstream e, length (impact_path i)) \<in> D"
      using next_level [of e m] by blast
    then obtain m' where "m' \<le> length (impact_path i) + length p" "(c, m') \<in> D"
      using Cons.IH [of "edge_downstream e" "length (impact_path i)"] Cons.prems(1) by auto
    then show ?case using \<open>length (impact_path i) \<le> m + 1\<close> by (intro exI [of _ m']) simp
  qed auto
  have "\<exists>i. (edge_key e, i) \<in> set f \<and> length (impact_path i) \<le> length p + 1"
    if a: "a \<in> cols" "walk E a p (edge_upstream e)" "e \<in> E" for a p e
  proof -
    have "(a, 0) \<in> D" using inv a(1) by (simp add: levels_def)
    then obtain m where "m \<le> length p" "(edge_upstream e, m) \<in> D" using reach [OF a(2), of 0] by auto
    then show ?thesis using next_level [of e m] a(3) by fastforce
  qed
  then show ?thesis using inv unfolding search_complete_def by blast
qed

lemma search_completes:
  assumes "\<And>c. set (edges_from g c) = {e \<in> E. edge_upstream e = c}"
    and "search_inv E cols \<lparr>ss_done = D, ss_current = c0, ss_level = l, ss_pending = {}\<rparr> (q, v, f)"
  shows "search_complete E cols (search g q v f)"
  using assms
proof (induction g q v f arbitrary: D c0 l rule: search.induct)
  case (1 g v f)
  then show ?case using inv_complete [OF "1.prems"(2)] by simp
next
  case (2 g c path q v f)
  obtain q' v' f' where r: "fold (visit_edge path) (edges_from g c) (q, v, f) = (q', v', f')"
    by (metis prod_cases3)
  obtain a where a: "a \<in> cols" "walk E a path c" using "2.prems"(2) by auto
  have "search_inv E cols \<lparr>ss_done = insert (c, length path) D, ss_current = c, ss_level = length path,
      ss_pending = {}\<rparr> (q', v', f')"
    using visit_edges_inv [OF pop_inv [OF "2.prems"(2) "2.prems"(1)] _ a] "2.prems"(1) r by simp
  then have "search_complete E cols (search g q' v' f')"
    by (rule "2.IH" [OF r [symmetric] refl "2.prems"(1)])
  then show ?case using r by simp
qed

lemma lineage_search_complete:
  "search_complete (set edges) (set cols) (search (lineage_graph edges) (map (\<lambda>c. (c, [])) cols) {} [])"
proof (rule search_completes)
  show "search_inv (set edges) (set cols)
      \<lparr>ss_done = {}, ss_current = undefined, ss_level = 0, ss_pending = {}\<rparr> (map (\<lambda>c. (c, [])) cols, {}, [])"
    by (force simp: followed_def levels_def comp_def map_replicate_const)
qed (auto simp: edges_from_lineage_graph)

section \<open>The impacts\<close>

lemma impacts_complete:
  obtains f where "impacts_for_columns (lineage_graph edges) cols = sort_key impact_sort_key (map snd f)"
    and "search_complete (set edges) (set cols) f"
  using lineage_search_complete by (auto simp: impacts_for_columns_def)

lemma impacts_member:
  assumes "i \<in> set (impacts_for_columns (lineage_graph edges) cols)"
  obtains a p e where "a \<in> set cols" and "e \<in> set edges" and "walk (set edges) a p (edge_upstream e)"
    and "impact_pipeline i = edge_pipeline e" and "impact_downstream i = edge_downstream e"
    and "impact_path i = p @ [e]"
    and "\<forall>a' \<in> set cols. \<forall>e' \<in> set edges. \<forall>p'. walk (set edges) a' p' (edge_upstream e') \<longrightarrow>
      edge_key e' = edge_key e \<longrightarrow> length p \<le> length p'"
proof -
  obtain f where f: "impacts_for_columns (lineage_graph edges) cols = sort_key impact_sort_key (map snd f)"
    and c: "search_complete (set edges) (set cols) f" by (rule impacts_complete)
  then obtain k where k: "(k, i) \<in> set f" using assms by auto
  then obtain a p e where r: "a \<in> set cols" "e \<in> set edges" "walk (set edges) a p (edge_upstream e)"
    "k = edge_key e" "impact_pipeline i = edge_pipeline e" "impact_downstream i = edge_downstream e"
    "impact_path i = p @ [e]"
    using c by (fastforce simp: search_complete_def recorded_def)
  have "length p \<le> length p'" if "a' \<in> set cols" "e' \<in> set edges" "walk (set edges) a' p' (edge_upstream e')"
    "edge_key e' = edge_key e" for a' p' e'
  proof -
    have ex: "\<exists>j. (edge_key e', j) \<in> set f \<and> length (impact_path j) \<le> length p' + 1"
      using c that(1-3) unfolding search_complete_def by blast
    then obtain j where "(edge_key e', j) \<in> set f" "length (impact_path j) \<le> length p' + 1" by blast
    moreover have "distinct (map fst f)" using c by (simp add: search_complete_def)
    ultimately have "j = i" using k r(4) that(4) by (metis eq_key_imp_eq_value)
    then show ?thesis using \<open>length (impact_path j) \<le> length p' + 1\<close> r(7) by simp
  qed
  then show thesis using that r by blast
qed

lemma impacts_keys:
  "(\<lambda>i. (pipeline_key (impact_pipeline i), impact_downstream i)) ` set (impacts_for_columns (lineage_graph edges) cols) =
   edge_key ` {e \<in> set edges. reachable (set edges) (set cols) (edge_upstream e)}"
  (is "?key ` ?I = ?K")
proof
  show "?key ` ?I \<subseteq> ?K"
  proof
    fix x assume "x \<in> ?key ` ?I"
    then obtain i where i: "i \<in> ?I" and x: "x = ?key i" by blast
    obtain a p e where "a \<in> set cols" "e \<in> set edges" "walk (set edges) a p (edge_upstream e)"
      "impact_pipeline i = edge_pipeline e" "impact_downstream i = edge_downstream e"
      by (rule impacts_member [OF i])
    then show "x \<in> ?K" unfolding x by (auto simp: edge_key_def reachable_iff_walk)
  qed
  show "?K \<subseteq> ?key ` ?I"
  proof
    fix x assume "x \<in> ?K"
    then obtain e a p where e: "e \<in> set edges" "x = edge_key e" "a \<in> set cols" "walk (set edges) a p (edge_upstream e)"
      by (auto simp: reachable_iff_walk)
    obtain f where f: "impacts_for_columns (lineage_graph edges) cols = sort_key impact_sort_key (map snd f)"
      and c: "search_complete (set edges) (set cols) f" by (rule impacts_complete)
    have "\<exists>i. (edge_key e, i) \<in> set f \<and> length (impact_path i) \<le> length p + 1"
      using c e(1,3,4) unfolding search_complete_def by blast
    then obtain i where i: "(edge_key e, i) \<in> set f" by blast
    then have "?key i = edge_key e"
      using c by (fastforce simp: search_complete_def recorded_def edge_key_def)
    moreover have "i \<in> ?I" using i f by force
    ultimately show "x \<in> ?key ` ?I" unfolding e(2) by (intro image_eqI [of _ _ i]) simp_all
  qed
qed

text \<open>C11. The impact search is exact, cycles included: a pipeline is reported for a downstream column
  if and only if it reads, through some lineage edge into that column, a column reachable from a
  changed one.\<close>

theorem impacts_exact:
  "(\<lambda>i. (pipeline_key (impact_pipeline i), impact_downstream i)) `
     set (impacts (lineage_graph edges) changes) =
   {(pipeline_key (edge_pipeline e), edge_downstream e) | e. e \<in> set edges \<and>
      reachable (set edges) {change_ref c | c. c \<in> set changes \<and> change_severity c = BREAKING} (edge_upstream e)}"
proof -
  have "change_ref ` {x \<in> set changes. change_severity x = BREAKING} =
      {change_ref c | c. c \<in> set changes \<and> change_severity c = BREAKING}" by auto
  then show ?thesis unfolding impacts_def impacts_keys by (auto simp: edge_key_def)
qed

text \<open>C29. The path shown for an impact is a real one and a shortest one: it starts at a column that
  was asked for, follows existing edges, ends with an edge of the reported pipeline into the
  reported column, and no other path to that pair is shorter.\<close>

theorem impact_path_shortest:
  assumes "i \<in> set (impacts_for_columns (lineage_graph edges) cols)"
  shows "(\<exists>a \<in> set cols. walk (set edges) a (impact_path i) (impact_downstream i)) \<and>
    edge_pipeline (last (impact_path i)) = impact_pipeline i \<and>
    (\<forall>a \<in> set cols. \<forall>p e. walk (set edges) a (p @ [e]) (impact_downstream i) \<longrightarrow>
       pipeline_key (edge_pipeline e) = pipeline_key (impact_pipeline i) \<longrightarrow>
       length (impact_path i) \<le> length (p @ [e]))"
proof -
  obtain a p e where r: "a \<in> set cols" "e \<in> set edges" "walk (set edges) a p (edge_upstream e)"
    "impact_pipeline i = edge_pipeline e" "impact_downstream i = edge_downstream e" "impact_path i = p @ [e]"
    and short: "\<forall>a' \<in> set cols. \<forall>e' \<in> set edges. \<forall>p'. walk (set edges) a' p' (edge_upstream e') \<longrightarrow>
      edge_key e' = edge_key e \<longrightarrow> length p \<le> length p'"
    by (rule impacts_member [OF assms])
  have "walk (set edges) a (impact_path i) (impact_downstream i)" using r by (simp add: walk_append)
  moreover have "length (impact_path i) \<le> length (p' @ [e'])"
    if "a' \<in> set cols" "walk (set edges) a' (p' @ [e']) (impact_downstream i)"
      "pipeline_key (edge_pipeline e') = pipeline_key (impact_pipeline i)" for a' p' e'
    using short that r by (auto simp: walk_append edge_key_def)
  ultimately show ?thesis using r by auto
qed

text \<open>A graph with a cycle and two paths of different length to the same pair.\<close>

definition sample_ref :: "string \<Rightarrow> column_ref" where
  "sample_ref t = ColumnRef (DatasetRef ''public'' t) ''id''"

definition sample_edge :: "string \<Rightarrow> string \<Rightarrow> string \<Rightarrow> lineage_edge" where
  "sample_edge k a b =
     \<lparr>edge_pipeline = \<lparr>pipeline_key = k, pipeline_dag = k, pipeline_owner = ''data'', pipeline_criticality = HIGH\<rparr>,
      edge_upstream = sample_ref a, edge_downstream = sample_ref b\<rparr>"

theorem impact_path_shortest_witness:
  "(\<exists>a \<in> set [sample_ref ''a'']. walk
      (set [sample_edge ''p'' ''a'' ''b'', sample_edge ''q'' ''b'' ''c'', sample_edge ''q'' ''a'' ''c'', sample_edge ''p'' ''c'' ''a''])
      a [sample_edge ''q'' ''a'' ''c''] (sample_ref ''c''))"
proof -
  let ?edges = "[sample_edge ''p'' ''a'' ''b'', sample_edge ''q'' ''b'' ''c'', sample_edge ''q'' ''a'' ''c'', sample_edge ''p'' ''c'' ''a'']"
  let ?i = "\<lparr>impact_pipeline = edge_pipeline (sample_edge ''q'' ''a'' ''c''), impact_downstream = sample_ref ''c'',
             impact_path = [sample_edge ''q'' ''a'' ''c'']\<rparr>"
  have "?i \<in> set (map snd (search (lineage_graph ?edges) [(sample_ref ''a'', [])] {} []))"
    by (simp add: lineage_graph_def group_edges_def edges_from_def sample_edge_def sample_ref_def
        edge_sort_key_def visit_edge_def edge_key_def Let_def less_eq_prod_def less_prod_def)
  then have "?i \<in> set (impacts_for_columns (lineage_graph ?edges) [sample_ref ''a''])"
    by (simp add: impacts_for_columns_def)
  then show ?thesis using impact_path_shortest [of ?i ?edges "[sample_ref ''a'']"] by simp
qed
section \<open>The loop, round by round\<close>





end
