(* ===== verification/Validation.thy ===== *)
theory Validation
  imports DriftMerge Lineage
begin

text \<open>
  The lineage stored in the metadata tables, \<open>list_open_breaking_changes_for_pipeline\<close> of
  \<open>repositories/changes.py\<close> and \<open>application/validation_service.py\<close>: whether a pipeline may run.
\<close>

section \<open>The stored lineage\<close>

text \<open>
  The join of edges, pipelines and datasets that \<open>ScanQueryRepository._lineage_graph\<close> and
  \<open>list_open_breaking_changes_for_pipeline\<close> both select, and the domain edge of one joined row.
\<close>

definition edge_of_rows :: "edge_row \<times> pipeline_row \<times> dataset_row \<times> dataset_row \<Rightarrow> lineage_edge" where
  "edge_of_rows = (\<lambda>(e, p, u, d).
     \<lparr>edge_pipeline = \<lparr>pipeline_key = pl_key p, pipeline_dag = pl_dag p, pipeline_owner = pl_owner p,
                       pipeline_criticality = pl_criticality p\<rparr>,
      edge_upstream = ColumnRef (row_ref u) (le_up_column e),
      edge_downstream = ColumnRef (row_ref d) (le_down_column e)\<rparr>)"

definition stored_edges :: "tables \<Rightarrow> lineage_edge list" where
  "stored_edges t = map edge_of_rows
     [(e, p, u, d). e \<leftarrow> t_edges t, p \<leftarrow> t_pipelines t, u \<leftarrow> t_datasets t, d \<leftarrow> t_datasets t,
        le_pipeline e = pl_id p \<and> le_up_dataset e = ds_id u \<and> le_down_dataset e = ds_id d]"

section \<open>The changes that block a pipeline\<close>

record blocking_change =
  blocking_id :: uuid
  blocking_dataset :: dataset_ref
  blocking_column :: string
  blocking_kind :: change_type
  blocking_severity :: severity

definition open_breaking_rows :: "tables \<Rightarrow> (change_row \<times> dataset_row) list" where
  "open_breaking_rows t =
     [(c, d). c \<leftarrow> t_changes t, d \<leftarrow> t_datasets t,
        ch_dataset c = ds_id d \<and> ch_state c = OPEN \<and> ch_severity c = BREAKING]"

definition domain_change :: "change_row \<times> dataset_row \<Rightarrow> schema_change" where
  "domain_change = (\<lambda>(c, d).
     \<lparr>change_dataset = row_ref d, change_column = ch_column c, change_kind = ch_kind c,
      change_severity = ch_severity c, change_before = None, change_after = None\<rparr>)"

definition blocking_of :: "change_row \<times> dataset_row \<Rightarrow> blocking_change" where
  "blocking_of = (\<lambda>(c, d).
     \<lparr>blocking_id = ch_id c, blocking_dataset = change_dataset (domain_change (c, d)), blocking_column = ch_column c,
      blocking_kind = ch_kind c, blocking_severity = ch_severity c\<rparr>)"

definition reaches_pipeline :: "lineage_graph \<Rightarrow> string \<Rightarrow> change_row \<times> dataset_row \<Rightarrow> bool" where
  "reaches_pipeline graph key row \<longleftrightarrow>
     list_ex (\<lambda>i. pipeline_key (impact_pipeline i) = key) (impacts graph [domain_change row])"

definition blocking_sort_key :: "blocking_change \<Rightarrow> string \<times> string \<times> string \<times> string" where
  "blocking_sort_key b =
     (ref_schema (blocking_dataset b), ref_table (blocking_dataset b), blocking_column b, show_uuid (blocking_id b))"

definition list_open_breaking_changes_for_pipeline :: "string \<Rightarrow> blocking_change list db" where
  "list_open_breaking_changes_for_pipeline key =
     bindA (query (\<lambda>t. List.find (\<lambda>p. pl_key p = key) (t_pipelines t))) (\<lambda>pipeline.
       case pipeline of
         None \<Rightarrow> raiseA (LookupError (''pipeline not found: '' @ key))
       | Some _ \<Rightarrow>
           bindA (query stored_edges) (\<lambda>edges.
           let graph = lineage_graph edges in
           bindA (query open_breaking_rows) (\<lambda>rows.
             returnA (sort_key blocking_sort_key (map blocking_of (filter (reaches_pipeline graph key) rows))))))"

section \<open>The service\<close>

record 's validation_persistence =
  op_blocking :: "string \<Rightarrow> ('s, blocking_change list) action"

record pipeline_validation =
  validation_key :: string
  validation_safe :: bool
  validation_blocking :: "blocking_change list"

definition validate_pipeline :: "'s validation_persistence \<Rightarrow> string \<Rightarrow> ('s, pipeline_validation) action" where
  "validate_pipeline repo key =
     bindA (op_blocking repo key) (\<lambda>blocking.
       returnA \<lparr>validation_key = key, validation_safe = (blocking = []), validation_blocking = blocking\<rparr>)"

locale validation_protocol =
  fixes repo :: "'s validation_persistence"
    and blockers :: "'s \<Rightarrow> string \<Rightarrow> blocking_change set"
  assumes lists: "op_blocking repo key s = (Inr bs, s') \<Longrightarrow> s' = s \<and> set bs = blockers s key"
begin

lemma validation_returns:
  assumes "validate_pipeline repo key s = (Inr v, s')"
  shows "s' = s \<and> validation_key v = key \<and> set (validation_blocking v) = blockers s key \<and>
    (validation_safe v \<longleftrightarrow> blockers s key = {})"
proof -
  obtain bs where bs: "op_blocking repo key s = (Inr bs, s')"
    and v: "v = \<lparr>validation_key = key, validation_safe = (bs = []), validation_blocking = bs\<rparr>"
    using assms by (auto simp: validate_pipeline_def action_simps)
  then show ?thesis using lists [OF bs] by auto
qed

end

section \<open>The repository provides the protocol\<close>

definition sql_validation_repository :: "session validation_persistence" where
  "sql_validation_repository = \<lparr>op_blocking = list_open_breaking_changes_for_pipeline\<rparr>"

text \<open>A change blocks a pipeline if a column the pipeline reads can be reached from its column.\<close>

definition blocks_pipeline :: "tables \<Rightarrow> string \<Rightarrow> change_row \<Rightarrow> dataset_row \<Rightarrow> bool" where
  "blocks_pipeline t key c d \<longleftrightarrow>
     c \<in> set (t_changes t) \<and> d \<in> set (t_datasets t) \<and> ch_dataset c = ds_id d \<and> ch_state c = OPEN \<and>
     ch_severity c = BREAKING \<and>
     (\<exists>e \<in> set (stored_edges t). pipeline_key (edge_pipeline e) = key \<and>
        reachable (set (stored_edges t)) {ColumnRef (row_ref d) (ch_column c)} (edge_upstream e))"

lemma reaches_pipeline_iff:
  assumes "ch_severity c = BREAKING"
  shows "reaches_pipeline (lineage_graph edges) key (c, d) \<longleftrightarrow>
    (\<exists>e \<in> set edges. pipeline_key (edge_pipeline e) = key \<and>
       reachable (set edges) {ColumnRef (row_ref d) (ch_column c)} (edge_upstream e))"
proof -
  have ref: "change_ref (domain_change (c, d)) = ColumnRef (row_ref d) (ch_column c)"
    by (simp add: change_ref_def domain_change_def)
  then have i: "impacts (lineage_graph edges) [domain_change (c, d)] =
      impacts_for_columns (lineage_graph edges) [ColumnRef (row_ref d) (ch_column c)]"
    using assms by (simp add: impacts_def domain_change_def)
  have "reaches_pipeline (lineage_graph edges) key (c, d) \<longleftrightarrow>
      key \<in> fst ` (\<lambda>i. (pipeline_key (impact_pipeline i), impact_downstream i)) `
        set (impacts_for_columns (lineage_graph edges) [ColumnRef (row_ref d) (ch_column c)])"
    by (auto simp: reaches_pipeline_def list_ex_iff i image_image)
  then show ?thesis unfolding impacts_keys by (auto simp: edge_key_def image_image)
qed

lemma blocking_rows:
  "(c, d) \<in> set (filter (reaches_pipeline (lineage_graph (stored_edges t)) key) (open_breaking_rows t)) \<longleftrightarrow>
     blocks_pipeline t key c d"
  by (auto simp: open_breaking_rows_def blocks_pipeline_def reaches_pipeline_iff)

lemma list_open_breaking_Inr:
  assumes "list_open_breaking_changes_for_pipeline key s = (Inr bs, s')"
  shows "s' = s \<and> usable s \<and> sorted (map blocking_sort_key bs) \<and>
    set bs = {blocking_of (c, d) | c d. blocks_pipeline (work s) key c d}"
proof -
  have bs: "s' = s" "usable s" "bs = sort_key blocking_sort_key (map blocking_of
      (filter (reaches_pipeline (lineage_graph (stored_edges (work s))) key) (open_breaking_rows (work s))))"
    using assms by (auto simp: list_open_breaking_changes_for_pipeline_def action_simps usable_def Let_def split: option.splits)
  have "set bs = blocking_of ` set (filter (reaches_pipeline (lineage_graph (stored_edges (work s))) key) (open_breaking_rows (work s)))"
    unfolding bs(3) set_sort set_map ..
  also have "\<dots> = {blocking_of (c, d) | c d. blocks_pipeline (work s) key c d}"
    using blocking_rows [of _ _ "work s" key] by (auto simp: image_iff)
  finally show ?thesis using bs by simp
qed

interpretation sql_validation: validation_protocol sql_validation_repository
  "\<lambda>s key. {blocking_of (c, d) | c d. blocks_pipeline (work s) key c d}"
  by unfold_locales (use list_open_breaking_Inr in \<open>auto simp: sql_validation_repository_def\<close>)

section \<open>When a pipeline is safe\<close>

text \<open>C15. Validation is exact: a pipeline is reported safe if and only if no open \<open>BREAKING\<close> change
  reaches, along the stored lineage, a column that one of its edges reads; the changes listed are
  exactly those that do, in order, and validating changes nothing.\<close>

theorem validation_exact:
  assumes "validate_pipeline sql_validation_repository key s = (Inr v, s')"
  shows "s' = s \<and> (validation_safe v \<longleftrightarrow> (\<nexists>c d. blocks_pipeline (work s) key c d)) \<and>
    blocking_id ` set (validation_blocking v) = {ch_id c | c d. blocks_pipeline (work s) key c d} \<and>
    sorted (map blocking_sort_key (validation_blocking v))"
proof -
  have v: "s' = s" "set (validation_blocking v) = {blocking_of (c, d) | c d. blocks_pipeline (work s) key c d}"
    "validation_safe v \<longleftrightarrow> {blocking_of (c, d) | c d. blocks_pipeline (work s) key c d} = {}"
    using sql_validation.validation_returns [OF assms] by blast+
  have "list_open_breaking_changes_for_pipeline key s = (Inr (validation_blocking v), s')"
    using assms by (auto simp: validate_pipeline_def sql_validation_repository_def action_simps)
  then have "sorted (map blocking_sort_key (validation_blocking v))" using list_open_breaking_Inr by blast
  moreover have "blocking_id (blocking_of (c, d)) = ch_id c" for c d by (simp add: blocking_of_def)
  then have "blocking_id ` set (validation_blocking v) = {ch_id c | c d. blocks_pipeline (work s) key c d}"
    unfolding v(2) by (auto simp: image_Collect) (metis (lifting))
  ultimately show ?thesis using v by auto
qed

section \<open>A drift scan blocks the pipelines it breaks\<close>

lemma stored_edge:
  assumes "integrity_ok t" and "e \<in> set (t_edges t)" and "p \<in> set (t_pipelines t)" and "u \<in> set (t_datasets t)"
    and "le_pipeline e = pl_id p" and "le_up_dataset e = ds_id u"
  obtains x where "x \<in> set (stored_edges t)" and "pipeline_key (edge_pipeline x) = pl_key p"
    and "edge_upstream x = ColumnRef (row_ref u) (le_up_column e)"
proof -
  have "le_down_dataset e \<in> set (map ds_id (t_datasets t))"
    using assms(1,2) by (auto simp: integrity_ok_def lineage_constraints_def refer_to_def list_all_iff)
  then obtain d where "d \<in> set (t_datasets t)" "le_down_dataset e = ds_id d" by auto
  then have "edge_of_rows (e, p, u, d) \<in> set (stored_edges t)"
    unfolding stored_edges_def set_map using assms(2-6) by (intro imageI) simp
  then show thesis by (rule that) (simp_all add: edge_of_rows_def)
qed

lemma validation_total:
  assumes "usable s" and "p \<in> set (t_pipelines (work s))"
  shows "\<exists>v. validate_pipeline sql_validation_repository (pl_key p) s = (Inr v, s)"
proof -
  have "List.find (\<lambda>q. pl_key q = pl_key p) (t_pipelines (work s)) \<noteq> None"
    using assms(2) by (auto simp: find_None_iff)
  then obtain q where "List.find (\<lambda>q. pl_key q = pl_key p) (t_pipelines (work s)) = Some q" by blast
  then show ?thesis
    by (simp add: validate_pipeline_def sql_validation_repository_def list_open_breaking_changes_for_pipeline_def
        bindA_def usable_run(2) [OF assms(1)] Let_def)
qed

text \<open>The core of the chain from a scan to the verdict: after a drift scan that found a new \<open>BREAKING\<close> change in a column
  a pipeline reads, validating the pipeline returns, and it is blocked by that change.\<close>

theorem drift_blocks_pipeline:
  assumes "complete_drift_scan channels now scan_id key observed changes fin s = (Inr (), s')"
    and "c \<in> set changes" and "change_severity c = BREAKING"
    and "List.find (\<lambda>r. src_key r = key) (t_sources (work s)) = Some source"
    and "change_fingerprint key c \<notin> open_fingerprints (src_id source) (work s)"
    and "e \<in> set (t_edges (work s))" and "p \<in> set (t_pipelines (work s))" and "u \<in> set (t_datasets (work s))"
    and "le_pipeline e = pl_id p" and "le_up_dataset e = ds_id u" and "row_ref u = change_dataset c"
    and "le_up_column e = change_column c"
  shows "\<exists>v. validate_pipeline sql_validation_repository (pl_key p) s' = (Inr v, s') \<and> \<not> validation_safe v \<and>
    (\<exists>b \<in> set (validation_blocking v). blocking_dataset b = change_dataset c \<and> blocking_column b = change_column c)"
proof -
  obtain source' scan rows where "List.find (\<lambda>r. src_key r = key) (t_sources (work s)) = Some source'" and us: "usable s'"
    and ch: "t_changes (work s') =
      update_where (\<lambda>r. open_row (src_id source') r \<and> ch_fingerprint r \<notin> change_fingerprint key ` set changes)
        (mark_resolved fin) (t_changes (work s)) @ rows"
    and rows: "list_all2 (recorded_as key source' scan now (work s))
      (filter (\<lambda>c. change_fingerprint key c \<notin> open_fingerprints (src_id source') (work s)) changes) rows"
    and same: "t_datasets (work s') = t_datasets (work s)" "t_edges (work s') = t_edges (work s)"
      "t_pipelines (work s') = t_pipelines (work s)"
    by (rule complete_drift_scan_Inr [OF assms(1)])
  then have "source' = source" using assms(4) by simp
  then have "c \<in> set (filter (\<lambda>c. change_fingerprint key c \<notin> open_fingerprints (src_id source') (work s)) changes)"
    using assms(2,5) by simp
  then obtain r where r: "r \<in> set rows" "recorded_as key source' scan now (work s) c r"
    using rows unfolding list_all2_conv_all_nth in_set_conv_nth by metis
  then obtain d where d: "d \<in> set (t_datasets (work s))" "row_ref d = change_dataset c" "ch_dataset r = ds_id d"
    and row: "ch_state r = OPEN" "ch_severity r = BREAKING" "ch_column r = change_column c"
    using assms(3) by (auto simp: recorded_as_def change_row_of_def)
  obtain x where x: "x \<in> set (stored_edges (work s'))" "pipeline_key (edge_pipeline x) = pl_key p"
    "edge_upstream x = ColumnRef (row_ref u) (le_up_column e)"
    by (rule stored_edge [of "work s'" e p u]) (use us assms(6-10) same in \<open>simp_all add: usable_def\<close>)
  then have "reachable (set (stored_edges (work s'))) {ColumnRef (row_ref d) (ch_column r)} (edge_upstream x)"
    by (intro reachable.start) (simp add: d row assms(11,12))
  then have b: "blocks_pipeline (work s') (pl_key p) r d"
    unfolding blocks_pipeline_def using r(1) d row x(1,2) by (auto simp: ch same)
  obtain v where v: "validate_pipeline sql_validation_repository (pl_key p) s' = (Inr v, s')"
    using validation_total [OF us, of p] assms(7) same by auto
  note exact = sql_validation.validation_returns [OF v]
  have "blocking_of (r, d) \<in> set (validation_blocking v)" using exact b by blast
  moreover have "blocking_dataset (blocking_of (r, d)) = change_dataset c" "blocking_column (blocking_of (r, d)) = change_column c"
    by (simp_all add: blocking_of_def domain_change_def d row)
  moreover have "\<not> validation_safe v" using exact b by blast
  ultimately show ?thesis using v by blast
qed

section \<open>Examples\<close>

definition sample_pipeline :: pipeline_row where
  "sample_pipeline = \<lparr>pl_id = 20, pl_key = ''revenue'', pl_dag = ''daily_revenue'', pl_owner = ''data'', pl_criticality = HIGH\<rparr>"

definition sample_edge_row :: edge_row where
  "sample_edge_row = \<lparr>le_id = 21, le_pipeline = 20, le_up_dataset = 1, le_up_column = ''id'', le_down_dataset = 1,
     le_down_column = ''total''\<rparr>"

definition sample_lineage_session :: session where
  "sample_lineage_session = fresh_session (sample_tables\<lparr>t_pipelines := [sample_pipeline], t_edges := [sample_edge_row]\<rparr>) 30"

lemma sample_lineage_scan: "\<exists>s'. sample_scan sample_lineage_session = (Inr (), s')"
  by (simp add: sample_run_defs sample_lineage_session_def sample_pipeline_def sample_edge_row_def at_most_def [of 250])

theorem drift_blocks_pipeline_witness:
  "\<exists>s' v. validate_pipeline sql_validation_repository ''revenue'' s' = (Inr v, s') \<and> \<not> validation_safe v"
proof -
  obtain s' where s': "sample_scan sample_lineage_session = (Inr (), s')" using sample_lineage_scan by blast
  have "\<exists>v. validate_pipeline sql_validation_repository (pl_key sample_pipeline) s' = (Inr v, s') \<and> \<not> validation_safe v \<and>
    (\<exists>b \<in> set (validation_blocking v). blocking_dataset b = change_dataset (sample_drop ''public'' ''orders'') \<and>
       blocking_column b = change_column (sample_drop ''public'' ''orders''))"
    by (rule drift_blocks_pipeline [OF s', where source = sample_source and e = sample_edge_row and u = "hd (t_datasets sample_tables)"])
      (simp_all add: sample_lineage_session_def sample_defs sample_edge_row_def sample_pipeline_def open_fingerprints_def row_ref_def)
  then show ?thesis by (auto simp: sample_pipeline_def)
qed

theorem validation_exact_witness:
  "\<exists>v. validate_pipeline sql_validation_repository ''revenue'' sample_lineage_session = (Inr v, sample_lineage_session) \<and>
     validation_safe v"
proof -
  have "usable sample_lineage_session"
    by (simp add: usable_def sample_lineage_session_def sample_defs sample_pipeline_def sample_edge_row_def constraint_defs
        at_most_def int32_def)
  then obtain v where v: "validate_pipeline sql_validation_repository (pl_key sample_pipeline) sample_lineage_session =
      (Inr v, sample_lineage_session)"
    using validation_total [of sample_lineage_session sample_pipeline] by (auto simp: sample_lineage_session_def fresh_session_def)
  have "\<not> blocks_pipeline (work sample_lineage_session) k c d" for k c d
    by (simp add: blocks_pipeline_def sample_lineage_session_def sample_defs)
  then have "validation_safe v" using validation_exact [OF v] by simp
  then show ?thesis using v by (auto simp: sample_pipeline_def)
qed

text \<open>Two sources with a table of the same name; the pipeline reads the one, the change is in the other.\<close>

definition two_sources :: tables where
  "two_sources = sample_tables\<lparr>
     t_sources := [sample_source, sample_source\<lparr>src_id := 5, src_key := ''game''\<rparr>],
     t_datasets := t_datasets sample_tables @ [(hd (t_datasets sample_tables))\<lparr>ds_id := 6, ds_source := 5\<rparr>],
     t_changes := [(change_row_of ''game'' sample_source (hd (t_scans sample_tables)) 0
       ((hd (t_datasets sample_tables))\<lparr>ds_id := 6\<rparr>) 10 (sample_drop ''public'' ''orders''))\<lparr>ch_source := 5\<rparr>],
     t_pipelines := [sample_pipeline], t_edges := [sample_edge_row]\<rparr>"

text \<open>Lineage and changes are matched by schema and table name only, so a change in a table of one
  source blocks the pipelines that read the table of that name in another source.\<close>

theorem other_source_blocks:
  "map (\<lambda>d. (ds_id d, ds_source d)) (t_datasets two_sources) = [(1, 0), (6, 5)] \<and>
   map le_up_dataset (t_edges two_sources) = [1] \<and>
   map ch_source (t_changes two_sources) = [5] \<and>
   (\<exists>v. validate_pipeline sql_validation_repository ''revenue'' (fresh_session two_sources 30) =
      (Inr v, fresh_session two_sources 30) \<and> \<not> validation_safe v)"
proof -
  let ?s = "fresh_session two_sources 30"
  have us: "usable ?s"
    by (simp add: usable_def two_sources_def sample_defs sample_pipeline_def sample_edge_row_def constraint_defs
        at_most_def [of 63] at_most_def [of 100] at_most_def [of 200] at_most_def [of 250] int32_def change_row_of_def)
  then obtain v where v: "validate_pipeline sql_validation_repository (pl_key sample_pipeline) ?s = (Inr v, ?s)"
    using validation_total [of ?s sample_pipeline] by (auto simp: two_sources_def fresh_session_def)
  have "\<exists>c d. blocks_pipeline two_sources ''revenue'' c d"
  proof (intro exI)
    let ?c = "hd (t_changes two_sources)" and ?d = "(hd (t_datasets sample_tables))\<lparr>ds_id := 6, ds_source := 5\<rparr>"
    obtain x where x: "x \<in> set (stored_edges two_sources)" "pipeline_key (edge_pipeline x) = pl_key sample_pipeline"
      "edge_upstream x = ColumnRef (row_ref (hd (t_datasets sample_tables))) (le_up_column sample_edge_row)"
      by (rule stored_edge [of two_sources sample_edge_row sample_pipeline "hd (t_datasets sample_tables)"])
        (use us in \<open>simp_all add: usable_def fresh_session_def, simp_all add: two_sources_def sample_defs sample_pipeline_def sample_edge_row_def\<close>)
    then have "reachable (set (stored_edges two_sources)) {ColumnRef (row_ref ?d) (ch_column ?c)} (edge_upstream x)"
      by (intro reachable.start) (simp add: two_sources_def sample_defs sample_edge_row_def row_ref_def change_row_of_def)
    then show "blocks_pipeline two_sources ''revenue'' ?c ?d"
      unfolding blocks_pipeline_def using x(1,2)
      by (auto simp: two_sources_def sample_tables_def no_tables_def change_row_of_def sample_pipeline_def sample_drop_def Let_def)
  qed
  then have "\<not> validation_safe v"
    using sql_validation.validation_returns [OF v] by (auto simp: fresh_session_def sample_pipeline_def)
  moreover have "map ch_source (t_changes two_sources) = [5]" "map le_up_dataset (t_edges two_sources) = [1]"
    "map (\<lambda>d. (ds_id d, ds_source d)) (t_datasets two_sources) = [(1, 0), (6, 5)]"
    by (simp_all add: two_sources_def sample_defs sample_edge_row_def)
  ultimately show ?thesis using v by (auto simp: sample_pipeline_def)
qed

end
