(* ===== verification/Query.thy ===== *)
theory Query
  imports Validation
begin

text \<open>
  Reading scans back: \<open>application/query_service.py\<close> and \<open>ScanQueryRepository\<close> of
  \<open>repositories/scans.py\<close>. The latest scan is shown with all changes of its source that are open
  now, any other scan with the changes it recorded itself. \<open>collate\<close> is the database's string
  order; equal sort keys keep the order of the rows.
\<close>

section \<open>What is read\<close>

record persisted_change =
  pc_id :: uuid
  pc_dataset :: dataset_ref
  pc_column :: string
  pc_kind :: change_type
  pc_severity :: severity
  pc_state :: change_state
  pc_before :: "json option"
  pc_after :: "json option"
  pc_affected :: "string list"

record persisted_delivery =
  pd_id :: uuid
  pd_channel :: alert_channel
  pd_status :: alert_status
  pd_attempts :: int
  pd_provider_id :: "string option"
  pd_error :: "string option"
  pd_retry :: "time option"
  pd_sent :: "time option"

record persisted_scan =
  ps_id :: uuid
  ps_source_key :: string
  ps_version :: int
  ps_trigger :: scan_trigger
  ps_status :: scan_status
  ps_started :: time
  ps_finished :: "time option"
  ps_duration :: "int option"
  ps_error_code :: "string option"
  ps_error_message :: "string option"
  ps_changes :: "persisted_change list"
  ps_deliveries :: "persisted_delivery list"

section \<open>The repository\<close>

definition change_filter :: "scan_row \<Rightarrow> bool \<Rightarrow> change_row \<Rightarrow> bool" where
  "change_filter scan current_open_changes c \<longleftrightarrow>
     (if current_open_changes then ch_source c = sc_source scan \<and> ch_state c = OPEN else ch_scan c = sc_id scan)"

definition change_rows_of ::
  "(string \<Rightarrow> string) \<Rightarrow> scan_row \<Rightarrow> bool \<Rightarrow> tables \<Rightarrow> (change_row \<times> dataset_row) list" where
  "change_rows_of collate scan current_open_changes t =
     sort_key (\<lambda>(c, d). (collate (ds_schema d), collate (ds_table d), collate (ch_column c),
                         collate (change_type_value (ch_kind c))))
       [(c, d). c \<leftarrow> t_changes t, d \<leftarrow> t_datasets t, ch_dataset c = ds_id d \<and> change_filter scan current_open_changes c]"

definition affected_by :: "lineage_graph \<Rightarrow> column_ref \<Rightarrow> string list" where
  "affected_by graph ref =
     sort (remdups (map (\<lambda>i. pipeline_dag (impact_pipeline i)) (impacts_for_columns graph [ref])))"

definition persisted_change_of :: "lineage_graph \<Rightarrow> change_row \<times> dataset_row \<Rightarrow> persisted_change" where
  "persisted_change_of graph = (\<lambda>(c, d).
     \<lparr>pc_id = ch_id c, pc_dataset = row_ref d, pc_column = ch_column c, pc_kind = ch_kind c,
      pc_severity = ch_severity c, pc_state = ch_state c, pc_before = ch_before c, pc_after = ch_after c,
      pc_affected = affected_by graph (ColumnRef (row_ref d) (ch_column c))\<rparr>)"

definition persisted_delivery_of :: "delivery_row \<Rightarrow> persisted_delivery" where
  "persisted_delivery_of r =
     \<lparr>pd_id = dl_id r, pd_channel = dl_channel r, pd_status = dl_status r, pd_attempts = dl_attempts r,
      pd_provider_id = dl_provider_id r, pd_error = dl_error r, pd_retry = dl_retry r, pd_sent = dl_sent r\<rparr>"

definition deliveries_of :: "(string \<Rightarrow> string) \<Rightarrow> scan_row \<Rightarrow> tables \<Rightarrow> delivery_row list" where
  "deliveries_of collate scan t =
     sort_key (\<lambda>r. collate (channel_value (dl_channel r))) (filter (\<lambda>r. dl_scan r = sc_id scan) (t_deliveries t))"

definition to_persisted :: "(string \<Rightarrow> string) \<Rightarrow> scan_row \<Rightarrow> bool \<Rightarrow> persisted_scan db" where
  "to_persisted collate scan current_open_changes =
     bindA (query (\<lambda>t. List.find (\<lambda>r. src_id r = sc_source scan) (t_sources t))) (\<lambda>source.
       case source of
         None \<Rightarrow> raiseA (LookupError (''scan source not found: '' @ show_uuid (sc_source scan)))
       | Some src \<Rightarrow>
           bindA (query (change_rows_of collate scan current_open_changes)) (\<lambda>change_rows.
           bindA (query stored_edges) (\<lambda>edges.
           bindA (query (deliveries_of collate scan)) (\<lambda>deliveries.
             returnA \<lparr>ps_id = sc_id scan, ps_source_key = src_key src, ps_version = src_version src,
                      ps_trigger = sc_trigger scan, ps_status = sc_status scan, ps_started = sc_started scan,
                      ps_finished = sc_finished scan, ps_duration = sc_duration scan,
                      ps_error_code = sc_error_code scan, ps_error_message = sc_error_message scan,
                      ps_changes = map (persisted_change_of (lineage_graph edges)) change_rows,
                      ps_deliveries = map persisted_delivery_of deliveries\<rparr>))))"

definition scans_newest_first :: "tables \<Rightarrow> scan_row list" where
  "scans_newest_first t = sort_key (\<lambda>r. - sc_started r) (t_scans t)"

definition latest_persisted :: "(string \<Rightarrow> string) \<Rightarrow> persisted_scan option db" where
  "latest_persisted collate =
     bindA (query (\<lambda>t. take 1 (scans_newest_first t))) (\<lambda>scans.
       case scans of
         [] \<Rightarrow> returnA None
       | scan # _ \<Rightarrow> bindA (to_persisted collate scan True) (\<lambda>p. returnA (Some p)))"

definition get_persisted :: "(string \<Rightarrow> string) \<Rightarrow> uuid \<Rightarrow> persisted_scan option db" where
  "get_persisted collate scan_id =
     bindA (query (\<lambda>t. List.find (\<lambda>r. sc_id r = scan_id) (t_scans t))) (\<lambda>scan.
       case scan of
         None \<Rightarrow> returnA None
       | Some r \<Rightarrow> bindA (to_persisted collate r False) (\<lambda>p. returnA (Some p)))"

definition append_persisted ::
  "(string \<Rightarrow> string) \<Rightarrow> scan_row \<Rightarrow> persisted_scan list \<Rightarrow> persisted_scan list db" where
  "append_persisted collate scan ps = bindA (to_persisted collate scan False) (\<lambda>p. returnA (ps @ [p]))"

definition recent_persisted :: "(string \<Rightarrow> string) \<Rightarrow> int \<Rightarrow> persisted_scan list db" where
  "recent_persisted collate limit =
     bindA (query (\<lambda>t. take (nat limit) (scans_newest_first t))) (\<lambda>scans.
       forA scans [] (append_persisted collate))"

section \<open>The service\<close>

record 's scan_query_persistence =
  op_latest :: "('s, persisted_scan option) action"
  op_get :: "uuid \<Rightarrow> ('s, persisted_scan option) action"
  op_recent :: "int \<Rightarrow> ('s, persisted_scan list) action"

definition recent_scans :: "'s scan_query_persistence \<Rightarrow> int \<Rightarrow> ('s, persisted_scan list) action" where
  "recent_scans repo limit =
     (if \<not> (1 \<le> limit \<and> limit \<le> 50) then raiseA (ValueError ''recent scan limit must be between 1 and 50'')
      else op_recent repo limit)"

definition sql_scan_query_repository :: "(string \<Rightarrow> string) \<Rightarrow> session scan_query_persistence" where
  "sql_scan_query_repository collate =
     \<lparr>op_latest = latest_persisted collate, op_get = get_persisted collate, op_recent = recent_persisted collate\<rparr>"

section \<open>Reading never fails and never writes\<close>

text \<open>The value of \<open>to_persisted\<close> when the source exists.\<close>

definition persisted_of :: "(string \<Rightarrow> string) \<Rightarrow> scan_row \<Rightarrow> bool \<Rightarrow> source_row \<Rightarrow> tables \<Rightarrow> persisted_scan" where
  "persisted_of collate scan current src t =
     \<lparr>ps_id = sc_id scan, ps_source_key = src_key src, ps_version = src_version src,
      ps_trigger = sc_trigger scan, ps_status = sc_status scan, ps_started = sc_started scan,
      ps_finished = sc_finished scan, ps_duration = sc_duration scan,
      ps_error_code = sc_error_code scan, ps_error_message = sc_error_message scan,
      ps_changes = map (persisted_change_of (lineage_graph (stored_edges t))) (change_rows_of collate scan current t),
      ps_deliveries = map persisted_delivery_of (deliveries_of collate scan t)\<rparr>"

lemma persisted_of_simps [simp]:
  "ps_id (persisted_of collate scan current src t) = sc_id scan"
  "ps_started (persisted_of collate scan current src t) = sc_started scan"
  by (simp_all add: persisted_of_def)

lemma to_persisted_run:
  assumes "usable s" and "scan \<in> set (t_scans (work s))"
  obtains src where "List.find (\<lambda>r. src_id r = sc_source scan) (t_sources (work s)) = Some src"
    and "to_persisted collate scan current s = (Inr (persisted_of collate scan current src (work s)), s)"
proof -
  have "sc_source scan \<in> set (map src_id (t_sources (work s)))"
    using assms by (auto simp: usable_def integrity_ok_def scan_constraints_def refer_to_def list_all_iff)
  then have "List.find (\<lambda>r. src_id r = sc_source scan) (t_sources (work s)) \<noteq> None"
    by (auto simp: find_None_iff)
  then obtain src where src: "List.find (\<lambda>r. src_id r = sc_source scan) (t_sources (work s)) = Some src" by blast
  then have "to_persisted collate scan current s = (Inr (persisted_of collate scan current src (work s)), s)"
    by (simp add: to_persisted_def bindA_def usable_run(2) [OF assms(1)] persisted_of_def)
  then show thesis using that src by blast
qed

lemma set_scans_newest [simp]: "set (scans_newest_first t) = set (t_scans t)"
  by (simp add: scans_newest_first_def)

lemma recent_loop:
  assumes "usable s" and "set scans \<subseteq> set (t_scans (work s))"
  shows "\<exists>ps. forA scans acc (append_persisted collate) s =
      (Inr (acc @ ps), s) \<and> list_all2 (\<lambda>scan p. \<exists>src. p = persisted_of collate scan False src (work s)) scans ps"
  using assms(2)
proof (induction scans arbitrary: acc)
  case (Cons scan scans)
  obtain src where p: "to_persisted collate scan False s = (Inr (persisted_of collate scan False src (work s)), s)"
    using to_persisted_run [OF assms(1), of scan collate False] Cons.prems by auto
  let ?p = "persisted_of collate scan False src (work s)"
  have step: "append_persisted collate scan acc s = (Inr (acc @ [?p]), s)"
    by (simp add: append_persisted_def bindA_def p)
  have "set scans \<subseteq> set (t_scans (work s))" using Cons.prems by simp
  then obtain ps where ps: "forA scans (acc @ [?p]) (append_persisted collate) s = (Inr ((acc @ [?p]) @ ps), s)"
    "list_all2 (\<lambda>scan p. \<exists>src. p = persisted_of collate scan False src (work s)) scans ps"
    using Cons.IH [of "acc @ [?p]"] by blast
  have "forA (scan # scans) acc (append_persisted collate) s = (Inr (acc @ ?p # ps), s)"
    unfolding forA_step(1) [where f = "append_persisted collate", OF step] ps(1) by simp
  then show ?case using ps(2) by (intro exI [of _ "?p # ps"]) auto
qed simp

lemma newest_first: "sorted_wrt (\<lambda>a b. sc_started a \<ge> sc_started b) (scans_newest_first t)"
proof -
  have "sorted (map (\<lambda>r. - sc_started r) (scans_newest_first t))" by (simp add: scans_newest_first_def)
  then show ?thesis by (simp add: sorted_wrt_map)
qed

text \<open>Listing recent scans: outside 1 to 50 the limit is refused; otherwise the list never fails,
  holds the requested number of scans if there are so many, newest first, leaves out only scans
  that started no later than every listed one, and changes nothing.\<close>

theorem recent_scans_listed:
  assumes "usable s"
  shows "if 1 \<le> limit \<and> limit \<le> 50 then
      \<exists>ps. recent_scans (sql_scan_query_repository collate) limit s = (Inr ps, s) \<and>
        length ps = min (nat limit) (length (t_scans (work s))) \<and>
        sorted_wrt (\<lambda>a b. ps_started a \<ge> ps_started b) ps \<and>
        (\<forall>r \<in> set (t_scans (work s)). sc_id r \<notin> ps_id ` set ps \<longrightarrow> (\<forall>p \<in> set ps. sc_started r \<le> ps_started p))
    else recent_scans (sql_scan_query_repository collate) limit s =
      (Inl (ValueError ''recent scan limit must be between 1 and 50''), s)"
proof (cases "1 \<le> limit \<and> limit \<le> 50")
  case True
  let ?all = "scans_newest_first (work s)"
  let ?scans = "take (nat limit) ?all"
  obtain ps where run: "forA ?scans [] (append_persisted collate) s = (Inr ps, s)"
    and ps: "list_all2 (\<lambda>scan p. \<exists>src. p = persisted_of collate scan False src (work s)) ?scans ps"
    using recent_loop [OF assms, of ?scans "[]"] set_take_subset [of "nat limit" ?all] by auto
  have len_ps: "length ps = length ?scans" using list_all2_lengthD [OF ps] by simp
  have "ps_id (ps ! i) = sc_id (?scans ! i) \<and> ps_started (ps ! i) = sc_started (?scans ! i)" if "i < length ps" for i
    using list_all2_nthD2 [OF ps that] by auto
  then have same: "length ps = length ?scans" "\<And>i. i < length ps \<Longrightarrow> ps_id (ps ! i) = sc_id (?scans ! i)"
    "\<And>i. i < length ps \<Longrightarrow> ps_started (ps ! i) = sc_started (?scans ! i)"
    using len_ps by blast+
  have len: "length ?all = length (t_scans (work s))" by (simp add: scans_newest_first_def)
  have sorted: "sc_started (?all ! i) \<ge> sc_started (?all ! j)" if "i < j" "j < length ?all" for i j
    using newest_first [of "work s"] that by (simp add: sorted_wrt_iff_nth_less)
  have "sorted_wrt (\<lambda>a b. ps_started a \<ge> ps_started b) ps"
    unfolding sorted_wrt_iff_nth_less using same sorted by auto
  moreover have "sc_started r \<le> ps_started p"
    if r: "r \<in> set (t_scans (work s))" "sc_id r \<notin> ps_id ` set ps" and p: "p \<in> set ps" for r p
  proof -
    obtain j where j: "j < length ?all" "?all ! j = r" using r(1) set_scans_newest by (metis in_set_conv_nth)
    obtain i where i: "i < length ps" "ps ! i = p" using p by (metis in_set_conv_nth)
    have "length ps \<le> j"
    proof (rule ccontr)
      assume "\<not> length ps \<le> j"
      then have "sc_id r = ps_id (ps ! j)" using same j by simp
      then show False using r(2) \<open>\<not> length ps \<le> j\<close> by (metis image_eqI linorder_not_le nth_mem)
    qed
    then show ?thesis using sorted [of i j] same i j by auto
  qed
  moreover have "recent_scans (sql_scan_query_repository collate) limit s = (Inr ps, s)"
    using True by (simp add: recent_scans_def sql_scan_query_repository_def recent_persisted_def bindA_def
        usable_run(2) [OF assms] run)
  moreover have "length ps = min (nat limit) (length (t_scans (work s)))" using same(1) len by simp
  ultimately show ?thesis using True by auto
next
  case False
  then show ?thesis unfolding recent_scans_def by (simp only: if_False not_False_eq_True if_True raiseA_apply)
qed

text \<open>C34. The latest scan is the one that started last; it is shown with exactly the changes of its
  source that are open now, each with exactly the workflows of the pipelines that read a column
  reachable from it, whatever its severity.\<close>

theorem latest_scan_shows_open:
  assumes "usable s" and "t_scans (work s) \<noteq> []"
  shows "\<exists>p scan. op_latest (sql_scan_query_repository collate) s = (Inr (Some p), s) \<and>
    scan \<in> set (t_scans (work s)) \<and> ps_id p = sc_id scan \<and> (\<forall>r \<in> set (t_scans (work s)). sc_started r \<le> sc_started scan) \<and>
    pc_id ` set (ps_changes p) = {ch_id c | c. c \<in> set (t_changes (work s)) \<and> open_row (sc_source scan) c} \<and>
    (\<forall>c \<in> set (ps_changes p). set (pc_affected c) =
       {pipeline_dag (impact_pipeline i) | i.
          i \<in> set (impacts_for_columns (lineage_graph (stored_edges (work s))) [ColumnRef (pc_dataset c) (pc_column c)])})"
proof -
  let ?t = "work s"
  obtain scan rest where all: "scans_newest_first ?t = scan # rest"
    using assms(2) set_scans_newest [of ?t] by (cases "scans_newest_first ?t") auto
  then have scan: "scan \<in> set (t_scans ?t)" using set_scans_newest [of ?t] by auto
  have newest: "\<forall>r \<in> set (t_scans ?t). sc_started r \<le> sc_started scan"
    using newest_first [of ?t] set_scans_newest [of ?t] by (auto simp: all)
  obtain src where p: "to_persisted collate scan True s = (Inr (persisted_of collate scan True src ?t), s)"
    using to_persisted_run [OF assms(1) scan] by blast
  let ?p = "persisted_of collate scan True src ?t"
  have run: "op_latest (sql_scan_query_repository collate) s = (Inr (Some ?p), s)"
    by (simp add: sql_scan_query_repository_def latest_persisted_def bindA_def usable_run(2) [OF assms(1)] all p)
  have ids: "pc_id ` set (ps_changes ?p) = {ch_id c | c. c \<in> set (t_changes ?t) \<and> open_row (sc_source scan) c}"
  proof -
    have "pc_id ` set (ps_changes ?p) = ch_id ` fst ` set (change_rows_of collate scan True ?t)"
      by (auto simp: persisted_of_def persisted_change_of_def image_image case_prod_unfold)
    also have "fst ` set (change_rows_of collate scan True ?t) = {c \<in> set (t_changes ?t). open_row (sc_source scan) c}"
    proof -
      have "\<exists>d \<in> set (t_datasets ?t). ch_dataset c = ds_id d" if "c \<in> set (t_changes ?t)" for c
        using that assms(1) by (auto simp: usable_def integrity_ok_def change_constraints_def refer_to_def list_all_iff)
      then show ?thesis by (force simp: change_rows_of_def change_filter_def open_row_def)
    qed
    finally show ?thesis by auto
  qed
  have "\<forall>c \<in> set (ps_changes ?p). set (pc_affected c) =
       {pipeline_dag (impact_pipeline i) | i.
          i \<in> set (impacts_for_columns (lineage_graph (stored_edges ?t)) [ColumnRef (pc_dataset c) (pc_column c)])}"
    by (auto simp: persisted_of_def persisted_change_of_def affected_by_def)
  then show ?thesis using run scan newest ids
    by (intro exI [of _ ?p] exI [of _ scan]) (auto simp: persisted_of_def)
qed

section \<open>Examples\<close>

lemma sample_after_ok: "usable sample_after"
  by (simp add: usable_def sample_after_def sample_defs constraint_defs at_most_def [of 63]
      at_most_def [of 100] at_most_def [of 200] int32_def change_row_of_def delivery_row_of_def)

theorem recent_scans_listed_witness:
  "\<exists>ps. recent_scans (sql_scan_query_repository id) 5 sample_after = (Inr ps, sample_after) \<and> length ps = 1"
  using recent_scans_listed [OF sample_after_ok, of 5 id] by (auto simp: sample_after_def)

theorem latest_scan_shows_open_witness:
  "\<exists>p. op_latest (sql_scan_query_repository id) sample_after = (Inr (Some p), sample_after) \<and>
     pc_id ` set (ps_changes p) = {10}"
proof -
  have "t_scans (work sample_after) \<noteq> []" by (simp add: sample_after_def)
  from latest_scan_shows_open [OF sample_after_ok this, of id] obtain p scan where
    p: "op_latest (sql_scan_query_repository id) sample_after = (Inr (Some p), sample_after)"
    "scan \<in> set (t_scans (work sample_after))"
    "pc_id ` set (ps_changes p) = {ch_id c | c. c \<in> set (t_changes (work sample_after)) \<and> open_row (sc_source scan) c}"
    by auto
  have "sc_source scan = 0" using p(2) by (simp add: sample_after_def sample_defs)
  then have "pc_id ` set (ps_changes p) = {10}"
    unfolding p(3) by (simp add: sample_after_def sample_source_def open_row_def change_row_of_def)
  then show ?thesis using p(1) by blast
qed

end
