(* ===== verification/Collector.thy ===== *)
theory Collector
  imports TypeRules
begin

text \<open>
  \<open>infrastructure/db/postgres_collector.py\<close>: the collector of the schema of a source. Connecting and
  running the query is the driver: \<open>fetch\<close> is given the address and the schemas and yields the rows of
  \<open>information_schema.columns\<close> in the order of the query, or the error it raises.
\<close>

record raw_column =
  raw_schema :: string
  raw_table :: string
  raw_name :: string
  raw_ordinal :: int
  raw_is_nullable :: string
  raw_data_type :: string
  raw_udt_name :: string
  raw_length :: "int option"
  raw_precision :: "int option"
  raw_scale :: "int option"
  raw_default :: "string option"

record collector =
  collector_url :: string
  collector_schemas :: "string list"

type_synonym driver = "string \<Rightarrow> string list \<Rightarrow> py_error + raw_column list"

text \<open>\<open>url.replace(old, new, 1)\<close>\<close>

fun replace_first :: "string \<Rightarrow> string \<Rightarrow> string \<Rightarrow> string" where
  "replace_first old new s =
     (if take (length old) s = old then new @ drop (length old) s
      else case s of [] \<Rightarrow> [] | c # cs \<Rightarrow> c # replace_first old new cs)"

declare replace_first.simps [simp del]

definition make_collector :: "string \<Rightarrow> string list \<Rightarrow> py_error + collector" where
  "make_collector database_url included_schemas =
     (if included_schemas = [] \<or> list_ex (\<lambda>s. CHR ''*'' \<in> set s \<or> CHR ''%'' \<in> set s) included_schemas then
        Inl (ValueError ''included_schemas must contain literal schema names'')
      else Inr \<lparr>collector_url = replace_first ''postgresql+psycopg://'' ''postgresql://'' database_url,
                collector_schemas = included_schemas\<rparr>)"

definition to_column :: "raw_column \<Rightarrow> column_definition" where
  "to_column r =
     \<lparr>col_dataset = DatasetRef (raw_schema r) (raw_table r), col_name = raw_name r,
      col_type = canonicalize_postgres_type (raw_data_type r) (raw_udt_name r) (raw_length r) (raw_precision r) (raw_scale r),
      col_nullable = (raw_is_nullable r = ''YES''), col_default = raw_default r, col_ordinal = raw_ordinal r\<rparr>"

definition collect :: "driver \<Rightarrow> collector \<Rightarrow> py_error + column_definition list" where
  "collect fetch c = bindR (fetch (collector_url c) (collector_schemas c)) (\<lambda>rows. Inr (map to_column rows))"

text \<open>\<open>lambda _: PostgresSchemaCollector(settings.source_database_url)\<close>, with the default schemas, and the
  call of \<open>collect\<close>.\<close>

definition collect_source :: "driver \<Rightarrow> string \<Rightarrow> string \<Rightarrow> py_error + column_definition list" where
  "collect_source fetch database_url source_key =
     bindR (make_collector database_url [''public'', ''mart'']) (collect fetch)"

text \<open>The driver raises the errors of its own hierarchy or of the operating system.\<close>

definition driver_error :: "py_error \<Rightarrow> bool" where
  "driver_error e \<longleftrightarrow> (\<exists>x. e = PsycopgError x \<or> e = OSError x)"

definition driver_like :: "driver \<Rightarrow> bool" where
  "driver_like fetch \<longleftrightarrow> (\<forall>url schemas e. fetch url schemas = Inl e \<longrightarrow> driver_error e)"

lemma make_collector_default: "\<exists>c. make_collector url [''public'', ''mart''] = Inr c"
  by (simp add: make_collector_def)

lemma collect_source_Inl: "driver_like fetch \<Longrightarrow> collect_source fetch url key = Inl e \<Longrightarrow> driver_error e"
  using make_collector_default [of url]
  by (auto simp: collect_source_def collect_def driver_like_def bindR_eq_Inl)

end
