(* ===== verification/Requests.thy ===== *)
theory Requests
  imports Notifiers ScanRuns Query Acceptance Validation Collector
begin

text \<open>
  \<open>api/dependencies.py\<close> and the frame that the web framework puts around an endpoint: the operator is
  checked first, the request's session is opened, the endpoint runs, the response is sent, the background
  tasks run, and the session is committed or rolled back and closed. The notification dispatcher works on a
  session of its own.
\<close>

section \<open>Responses\<close>

datatype 'r http_response = Answer nat 'r | Refused nat http_detail | Unprocessable | ServerError

fun http_status :: "'r http_response \<Rightarrow> nat" where
  "http_status (Answer n _) = n"
| "http_status (Refused n _) = n"
| "http_status Unprocessable = 422"
| "http_status ServerError = 500"

fun is_http_exception :: "py_error \<Rightarrow> bool" where
  "is_http_exception (HTTPException _ _) = True"
| "is_http_exception _ = False"

text \<open>An endpoint yields a status and a body; an exception that is not an \<open>HTTPException\<close> becomes 500.\<close>

fun response_of :: "py_error + nat \<times> 'r \<Rightarrow> 'r http_response" where
  "response_of (Inr (n, b)) = Answer n b"
| "response_of (Inl (HTTPException n d)) = Refused n d"
| "response_of (Inl _) = ServerError"

text \<open>\<open>str(exc)\<close>, for the exceptions whose text becomes part of a response.\<close>

fun error_text :: "py_error \<Rightarrow> string" where
  "error_text (LookupError t) = t"
| "error_text (SourceNotFound k) = ''data source not found: '' @ k"
| "error_text (ScanAlreadyRunning k) = ''scan already running for source: '' @ k"
| "error_text (ChangeNotFound i) = ''schema change not found: '' @ show_uuid i"
| "error_text (DeliveryNotFound i) = ''alert delivery not found: '' @ show_uuid i"
| "error_text (MaxAttemptsExceeded i) = ''maximum delivery attempts exceeded: '' @ show_uuid i"
| "error_text _ = []"

section \<open>Sessions of a request\<close>

text \<open>A new session sees what is committed; closing a session drops what is not.\<close>

definition close_session :: "session \<times> world \<Rightarrow> session \<times> world" where
  "close_session sw = (rollback (fst sw), snd sw)"

type_synonym tasks = "unit world_db list"

fun run_tasks :: "tasks \<Rightarrow> session \<times> world \<Rightarrow> session \<times> world" where
  "run_tasks [] sw = sw"
| "run_tasks (t # ts) sw = run_tasks ts (snd (t sw))"

definition database_session :: "('r \<times> tasks) world_db \<Rightarrow> 'r world_db" where
  "database_session body sw =
     (case body (close_session sw) of
        (Inr (x, tasks), sw1) \<Rightarrow> (Inr x, close_session (snd (commit_world (run_tasks tasks sw1))))
      | (Inl e, sw1) \<Rightarrow>
          if is_http_exception e then
            (case commit_world sw1 of
               (Inr _, sw2) \<Rightarrow> (Inl e, close_session sw2)
             | (Inl f, sw2) \<Rightarrow> (Inl f, close_session sw2))
          else (Inl e, close_session sw1))"

text \<open>A block on a session of its own, while the session of the request has nothing uncommitted.\<close>

definition other_session :: "'a world_db \<Rightarrow> 'a world_db" where
  "other_session m sw =
     (case m (fresh_session (durable (fst sw)) (id_supply (fst sw)), snd sw) of
        (r, (s, w)) \<Rightarrow> (r, ((fst sw)\<lparr>work := durable s, durable := durable s, id_supply := id_supply s\<rparr>, w)))"

definition swallow :: "'a world_db \<Rightarrow> unit world_db" where
  "swallow m sw = (Inr (), snd (m sw))"

text \<open>The frame of an endpoint: \<open>operator\<close> is the result of \<open>require_operator\<close>, \<open>valid\<close> whether the body and
  the parameters of the request pass their declared checks.\<close>

definition endpoint ::
  "py_error + operator_identity \<Rightarrow> bool \<Rightarrow> (operator_identity \<Rightarrow> ((nat \<times> 'r) \<times> tasks) world_db)
     \<Rightarrow> session \<times> world \<Rightarrow> 'r http_response \<times> (session \<times> world)" where
  "endpoint operator valid body sw =
     (case operator of
        Inl e \<Rightarrow> (response_of (Inl e), sw)
      | Inr identity \<Rightarrow>
          if \<not> valid then (Unprocessable, close_session sw)
          else (case database_session (body identity) sw of (r, sw') \<Rightarrow> (response_of r, sw')))"

section \<open>The notification dispatcher\<close>

record request_env =
  rq_scan :: scan_env
  rq_finished :: time
  rq_failed :: time
  rq_now :: time
  rq_driver :: driver
  rq_outside :: outside

definition notification_dispatch :: "settings \<Rightarrow> request_env \<Rightarrow> uuid \<Rightarrow> delivery_result list world_db" where
  "notification_dispatch cfg rq scan_id =
     dispatch_scan (sql_alert_repository (env_collate (rq_scan rq)))
       (notifiers_by_channel (configured_notifiers (rq_outside rq) cfg)) (cfg_dashboard_url cfg) (rq_now rq) scan_id"

definition dispatcher_scan :: "settings \<Rightarrow> request_env \<Rightarrow> uuid \<Rightarrow> unit world_db" where
  "dispatcher_scan cfg rq scan_id = swallow (other_session (world_scope (notification_dispatch cfg rq scan_id)))"

definition dispatcher_system_error :: "settings \<Rightarrow> request_env \<Rightarrow> string \<Rightarrow> unit world_db" where
  "dispatcher_system_error cfg rq source_key = swallow (other_session (world_scope (
     bindA (on_db (latest_failed_scan_id source_key)) (\<lambda>latest.
       case latest of
         None \<Rightarrow> returnA []
       | Some scan_id \<Rightarrow> notification_dispatch cfg rq scan_id))))"

section \<open>Services of a request\<close>

definition request_scan_repository :: "settings \<Rightarrow> request_env \<Rightarrow> session scan_persistence" where
  "request_scan_repository cfg rq = sql_scan_repository ((rq_scan rq)\<lparr>env_channels := enabled_channels cfg\<rparr>)"

definition request_run_scan :: "settings \<Rightarrow> request_env \<Rightarrow> string \<Rightarrow> scan_report world_db" where
  "request_run_scan cfg rq source_key =
     on_db (run_scan (request_scan_repository cfg rq) (collect_source (rq_driver rq) (cfg_source_url cfg))
       (rq_finished rq) (rq_failed rq) source_key MANUAL)"

section \<open>Readiness\<close>

text \<open>The revision in \<open>alembic_version\<close> and the head of the migration scripts are outside of the tables of
  the model: reading them is an argument.\<close>

definition readiness_check :: "py_error + string option \<Rightarrow> py_error + string option \<Rightarrow> py_error + bool" where
  "readiness_check database_revision expected_revision =
     (case bindR database_revision (\<lambda>d. bindR expected_revision (\<lambda>e. Inr (present d \<and> d = e))) of
        Inl (OSError _) \<Rightarrow> Inr False
      | Inl (SQLAlchemyError _) \<Rightarrow> Inr False
      | r \<Rightarrow> r)"

end
