(* ===== verification/Responses.thy ===== *)
theory Responses
  imports Requests
begin

text \<open>
  \<open>api/schemas/*.py\<close>: the bodies of requests and responses, with the functions that build a response from
  the result of a service. Values of the declared types are kept as they are; turning them into JSON is the
  framework's, except for the body of a pipeline validation, which the guard of the DAG reads.
\<close>

section \<open>Requests\<close>

definition valid_source_key :: "string \<Rightarrow> bool" where
  "valid_source_key k \<longleftrightarrow> 1 \<le> length k \<and> length k \<le> 100"

definition valid_baseline_version :: "int \<Rightarrow> bool" where
  "valid_baseline_version v \<longleftrightarrow> 0 \<le> v"

section \<open>Scans\<close>

record scan_change_response =
  scr_id :: "uuid option"
  scr_dataset :: string
  scr_column :: string
  scr_kind :: change_type
  scr_severity :: severity
  scr_state :: "change_state option"
  scr_before :: "json option"
  scr_after :: "json option"
  scr_affected :: "string list"

definition change_response_of_persisted :: "persisted_change \<Rightarrow> scan_change_response" where
  "change_response_of_persisted c =
     \<lparr>scr_id = Some (pc_id c), scr_dataset = dataset_qualified_name (pc_dataset c), scr_column = pc_column c,
      scr_kind = pc_kind c, scr_severity = pc_severity c, scr_state = Some (pc_state c),
      scr_before = pc_before c, scr_after = pc_after c, scr_affected = pc_affected c\<rparr>"

definition change_response_of_report :: "schema_change \<Rightarrow> scan_change_response" where
  "change_response_of_report c =
     \<lparr>scr_id = None, scr_dataset = dataset_qualified_name (change_dataset c), scr_column = change_column c,
      scr_kind = change_kind c, scr_severity = change_severity c, scr_state = None,
      scr_before = map_option column_canonical_dict (change_before c),
      scr_after = map_option column_canonical_dict (change_after c), scr_affected = []\<rparr>"

record scan_response =
  sr_scan_id :: uuid
  sr_source_key :: string
  sr_trigger :: scan_trigger
  sr_baseline_created :: bool
  sr_observed_count :: int
  sr_changes :: "scan_change_response list"

definition scan_response_of :: "scan_report \<Rightarrow> scan_response" where
  "scan_response_of r =
     \<lparr>sr_scan_id = report_scan_id r, sr_source_key = report_source_key r, sr_trigger = report_trigger r,
      sr_baseline_created = report_baseline_created r, sr_observed_count = report_observed_count r,
      sr_changes = map change_response_of_report (report_changes r)\<rparr>"

record scan_delivery_response =
  sdr_id :: uuid
  sdr_channel :: alert_channel
  sdr_status :: alert_status
  sdr_attempts :: int
  sdr_provider_id :: "string option"
  sdr_error :: "string option"
  sdr_retry :: "time option"
  sdr_sent :: "time option"

definition delivery_response_of_persisted :: "persisted_delivery \<Rightarrow> scan_delivery_response" where
  "delivery_response_of_persisted d =
     \<lparr>sdr_id = pd_id d, sdr_channel = pd_channel d, sdr_status = pd_status d, sdr_attempts = pd_attempts d,
      sdr_provider_id = pd_provider_id d, sdr_error = pd_error d, sdr_retry = pd_retry d, sdr_sent = pd_sent d\<rparr>"

record scan_detail_response =
  sdt_scan_id :: uuid
  sdt_source_key :: string
  sdt_version :: int
  sdt_trigger :: scan_trigger
  sdt_status :: scan_status
  sdt_started :: time
  sdt_finished :: "time option"
  sdt_duration :: "int option"
  sdt_error_code :: "string option"
  sdt_error_message :: "string option"
  sdt_changes :: "scan_change_response list"
  sdt_deliveries :: "scan_delivery_response list"

definition scan_detail_of :: "persisted_scan \<Rightarrow> scan_detail_response" where
  "scan_detail_of s =
     \<lparr>sdt_scan_id = ps_id s, sdt_source_key = ps_source_key s, sdt_version = ps_version s,
      sdt_trigger = ps_trigger s, sdt_status = ps_status s, sdt_started = ps_started s,
      sdt_finished = ps_finished s, sdt_duration = ps_duration s, sdt_error_code = ps_error_code s,
      sdt_error_message = ps_error_message s, sdt_changes = map change_response_of_persisted (ps_changes s),
      sdt_deliveries = map delivery_response_of_persisted (ps_deliveries s)\<rparr>"

section \<open>Acceptances, deliveries, validations\<close>

record acceptance_response =
  acr_change :: uuid
  acr_version :: int

definition acceptance_response_of :: "acceptance_result \<Rightarrow> acceptance_response" where
  "acceptance_response_of r = \<lparr>acr_change = accepted_change r, acr_version = accepted_version r\<rparr>"

record delivery_result_response =
  drr_delivery :: uuid
  drr_channel :: alert_channel
  drr_success :: bool
  drr_attempts :: int
  drr_retry :: "time option"

definition delivery_response_of_result :: "delivery_result \<Rightarrow> delivery_result_response" where
  "delivery_response_of_result r =
     \<lparr>drr_delivery = res_delivery r, drr_channel = res_channel r, drr_success = res_success r,
      drr_attempts = res_attempts r, drr_retry = res_retry r\<rparr>"

record blocking_change_response =
  bcr_id :: uuid
  bcr_dataset :: string
  bcr_column :: string
  bcr_kind :: change_type
  bcr_severity :: severity

record pipeline_validation_response =
  pvr_key :: string
  pvr_safe :: bool
  pvr_blocking :: "blocking_change_response list"

definition validation_response_of :: "pipeline_validation \<Rightarrow> pipeline_validation_response" where
  "validation_response_of v =
     \<lparr>pvr_key = validation_key v, pvr_safe = validation_safe v,
      pvr_blocking = map (\<lambda>b. \<lparr>bcr_id = blocking_id b, bcr_dataset = dataset_qualified_name (blocking_dataset b),
        bcr_column = blocking_column b, bcr_kind = blocking_kind b, bcr_severity = blocking_severity b\<rparr>)
        (validation_blocking v)\<rparr>"

text \<open>\<open>model_dump(mode="json")\<close>\<close>

definition blocking_change_json :: "blocking_change_response \<Rightarrow> json" where
  "blocking_change_json b = JObj
     [(''id'', JStr (show_uuid (bcr_id b))), (''dataset'', JStr (bcr_dataset b)), (''column_name'', JStr (bcr_column b)),
      (''change_type'', JStr (change_type_value (bcr_kind b))), (''severity'', JStr (severity_value (bcr_severity b)))]"

definition validation_json :: "pipeline_validation_response \<Rightarrow> json" where
  "validation_json r = JObj
     [(''pipeline_key'', JStr (pvr_key r)), (''safe'', JBool (pvr_safe r)),
      (''blocking_changes'', JArr (map blocking_change_json (pvr_blocking r)))]"

end
