(* ===== verification/Endpoints.thy ===== *)
theory Endpoints
  imports Responses
begin

text \<open>
  \<open>api/routers/*.py\<close>, except for the dashboard: the endpoints for scans, changes, alerts, pipelines and
  health, with the status of every exception they translate. An endpoint that needs an operator gets the
  result of \<open>require_operator\<close> as an argument.
\<close>

section \<open>Scans\<close>

text \<open>\<open>except (psycopg.Error, OSError, EmptySchemaSnapshot)\<close>\<close>

fun source_failure :: "py_error \<Rightarrow> bool" where
  "source_failure (PsycopgError _) = True"
| "source_failure (OSError _) = True"
| "source_failure (EmptySchemaSnapshot _) = True"
| "source_failure _ = False"

definition scan_refused :: "settings \<Rightarrow> request_env \<Rightarrow> string \<Rightarrow> py_error \<Rightarrow> 'r world_db" where
  "scan_refused cfg rq source_key exc =
     (case exc of
        ScanAlreadyRunning _ \<Rightarrow> raiseA (HTTPException 409 (DetailText (error_text exc)))
      | SourceNotFound _ \<Rightarrow> raiseA (HTTPException 404 (DetailText (error_text exc)))
      | _ \<Rightarrow>
          if source_failure exc then
            thenA commit_world (thenA (dispatcher_system_error cfg rq source_key)
              (raiseA (HTTPException 503 (DetailText ''source database unavailable''))))
          else raiseA exc)"

definition run_scan_body :: "settings \<Rightarrow> request_env \<Rightarrow> string \<Rightarrow> ((nat \<times> scan_response) \<times> tasks) world_db" where
  "run_scan_body cfg rq source_key =
     exceptA
       (bindA (request_run_scan cfg rq source_key) (\<lambda>report.
        thenA commit_world
          (returnA ((201, scan_response_of report), [dispatcher_scan cfg rq (report_scan_id report)]))))
       (scan_refused cfg rq source_key)"

definition run_scan_endpoint ::
  "settings \<Rightarrow> request_env \<Rightarrow> py_error + operator_identity \<Rightarrow> string \<Rightarrow> session \<times> world
     \<Rightarrow> scan_response http_response \<times> (session \<times> world)" where
  "run_scan_endpoint cfg rq operator source_key =
     endpoint operator (valid_source_key source_key) (\<lambda>_. run_scan_body cfg rq source_key)"

definition scan_detail_or_404 :: "persisted_scan option db \<Rightarrow> ((nat \<times> scan_detail_response) \<times> tasks) world_db" where
  "scan_detail_or_404 lookup =
     bindA (on_db lookup) (\<lambda>scan.
       case scan of
         None \<Rightarrow> raiseA (HTTPException 404 (DetailText ''scan not found''))
       | Some s \<Rightarrow> returnA ((200, scan_detail_of s), []))"

definition latest_scan_endpoint ::
  "request_env \<Rightarrow> session \<times> world \<Rightarrow> scan_detail_response http_response \<times> (session \<times> world)" where
  "latest_scan_endpoint rq sw =
     (case database_session (scan_detail_or_404 (latest_persisted (env_collate (rq_scan rq)))) sw of
        (r, sw') \<Rightarrow> (response_of r, sw'))"

definition get_scan_endpoint ::
  "request_env \<Rightarrow> uuid \<Rightarrow> session \<times> world \<Rightarrow> scan_detail_response http_response \<times> (session \<times> world)" where
  "get_scan_endpoint rq scan_id sw =
     (case database_session (scan_detail_or_404 (get_persisted (env_collate (rq_scan rq)) scan_id)) sw of
        (r, sw') \<Rightarrow> (response_of r, sw'))"

section \<open>Changes\<close>

definition accept_change_body :: "request_env \<Rightarrow> uuid \<Rightarrow> int \<Rightarrow> ((nat \<times> acceptance_response) \<times> tasks) world_db" where
  "accept_change_body rq change_id baseline_version =
     exceptA
       (bindA (on_db (accept (sql_change_repository (rq_now rq)) change_id baseline_version)) (\<lambda>result.
          returnA ((200, acceptance_response_of result), [])))
       (\<lambda>exc. case exc of
          BaselineVersionConflict expected actual \<Rightarrow> raiseA (HTTPException 409 (DetailVersions expected actual))
        | ChangeNotFound _ \<Rightarrow> raiseA (HTTPException 404 (DetailText (error_text exc)))
        | _ \<Rightarrow> raiseA exc)"

definition accept_change_endpoint ::
  "request_env \<Rightarrow> py_error + operator_identity \<Rightarrow> uuid \<Rightarrow> int \<Rightarrow> session \<times> world
     \<Rightarrow> acceptance_response http_response \<times> (session \<times> world)" where
  "accept_change_endpoint rq operator change_id baseline_version =
     endpoint operator (valid_baseline_version baseline_version) (\<lambda>_. accept_change_body rq change_id baseline_version)"

section \<open>Alerts\<close>

definition retry_delivery_body ::
  "settings \<Rightarrow> request_env \<Rightarrow> uuid \<Rightarrow> ((nat \<times> delivery_result_response) \<times> tasks) world_db" where
  "retry_delivery_body cfg rq delivery_id =
     exceptA
       (bindA (retry (sql_alert_repository (env_collate (rq_scan rq)))
            (notifiers_by_channel (configured_notifiers (rq_outside rq) cfg)) (cfg_dashboard_url cfg) (rq_now rq) delivery_id)
          (\<lambda>result. returnA ((200, delivery_response_of_result result), [])))
       (\<lambda>exc. case exc of
          DeliveryNotFound _ \<Rightarrow> raiseA (HTTPException 404 (DetailText (error_text exc)))
        | MaxAttemptsExceeded _ \<Rightarrow> raiseA (HTTPException 409 (DetailText (error_text exc)))
        | RetryNotDue t \<Rightarrow> raiseA (HTTPException 409 (DetailRetryAt t))
        | _ \<Rightarrow> raiseA exc)"

definition retry_delivery_endpoint ::
  "settings \<Rightarrow> request_env \<Rightarrow> py_error + operator_identity \<Rightarrow> uuid \<Rightarrow> session \<times> world
     \<Rightarrow> delivery_result_response http_response \<times> (session \<times> world)" where
  "retry_delivery_endpoint cfg rq operator delivery_id =
     endpoint operator True (\<lambda>_. retry_delivery_body cfg rq delivery_id)"

section \<open>Pipelines\<close>

definition validate_pipeline_body :: "string \<Rightarrow> ((nat \<times> pipeline_validation_response) \<times> tasks) world_db" where
  "validate_pipeline_body key =
     bindA
       (exceptA (on_db (validate_pipeline sql_validation_repository key))
         (\<lambda>exc. if is_lookup_error exc then raiseA (HTTPException 404 (DetailText (error_text exc))) else raiseA exc))
       (\<lambda>result. returnA ((if validation_safe result then 200 else 409, validation_response_of result), []))"

definition validate_pipeline_endpoint ::
  "py_error + operator_identity \<Rightarrow> string \<Rightarrow> session \<times> world
     \<Rightarrow> pipeline_validation_response http_response \<times> (session \<times> world)" where
  "validate_pipeline_endpoint operator key =
     endpoint operator True (\<lambda>_. validate_pipeline_body key)"

section \<open>Health\<close>

definition liveness :: "(string \<times> string) list" where
  "liveness = [(''status'', ''alive'')]"

definition readiness :: "bool \<Rightarrow> nat \<times> string" where
  "readiness ready = (if ready then 200 else 503, if ready then ''ready'' else ''not-ready'')"

end
