(* ===== verification/ScanErrors.thy ===== *)
theory ScanErrors
  imports ScanRuns
begin

text \<open>
  How a scan run on the SQLAlchemy repository can end, with the error of each case: the routers decide by
  the class of the exception what is committed and what is answered.
\<close>

section \<open>Which errors a block raises\<close>

text \<open>
  Which errors a block can raise while the source stays registered: \<open>raises P E m\<close> says that from tables
  satisfying \<open>P\<close> a block that returns leaves tables satisfying \<open>P\<close>, and one that raises raises an error
  satisfying \<open>E\<close>.
\<close>

definition raises :: "(tables \<Rightarrow> bool) \<Rightarrow> (py_error \<Rightarrow> bool) \<Rightarrow> 'a db \<Rightarrow> bool" where
  "raises P E m \<longleftrightarrow> (\<forall>s r s'. P (work s) \<longrightarrow> m s = (r, s') \<longrightarrow> (case r of Inl e \<Rightarrow> E e | Inr _ \<Rightarrow> P (work s')))"

lemma raisesD:
  "raises P E m \<Longrightarrow> P (work s) \<Longrightarrow> m s = (Inl e, s') \<Longrightarrow> E e"
  "raises P E m \<Longrightarrow> P (work s) \<Longrightarrow> m s = (Inr x, s') \<Longrightarrow> P (work s')"
  by (fastforce simp: raises_def)+

definition session_error :: "py_error \<Rightarrow> bool" where
  "session_error e \<longleftrightarrow> e = PendingRollbackError \<or> e = DataError \<or> e = IntegrityError"

lemma flush_session_error: "flush s = (Inl e, s') \<Longrightarrow> session_error e"
  by (auto simp: flush_def session_error_def split: if_splits)

lemma raises_basic:
  assumes "\<And>e. session_error e \<Longrightarrow> E e"
  shows "raises P E (returnA x)" "E e \<Longrightarrow> raises P E (raiseA e)" "(\<And>f. r = Inl f \<Longrightarrow> E f) \<Longrightarrow> raises P E (liftA r)"
    "raises P E flush" "raises P E (query g)" "raises P E new_id"
  using assms
  by (auto simp: raises_def flush_eq_Inr query_eq_Inr query_error new_id_def split: sum.split dest: flush_session_error)

lemma raises_modify: "(\<And>t. P t \<Longrightarrow> P (f t)) \<Longrightarrow> raises P E (modify f)"
  by (auto simp: raises_def modify_def)

lemma raises_bindA:
  assumes "raises P E m" and "\<And>x. raises P E (f x)"
  shows "raises P E (bindA m f)"
  unfolding raises_def
proof (intro allI impI)
  fix s r s'
  assume P: "P (work s)" and run: "bindA m f s = (r, s')"
  obtain q s1 where m: "m s = (q, s1)" by fastforce
  show "case r of Inl e \<Rightarrow> E e | Inr _ \<Rightarrow> P (work s')"
  proof (cases q)
    case (Inl e)
    then show ?thesis using raisesD(1) [OF assms(1) P] m run by (auto simp: bindA_def)
  next
    case (Inr x)
    then have "P (work s1)" "f x s1 = (r, s')" using raisesD(2) [OF assms(1) P] m run by (auto simp: bindA_def)
    then show ?thesis using assms(2) [of x] unfolding raises_def by blast
  qed
qed

lemma raises_thenA: "raises P E m \<Longrightarrow> raises P E k \<Longrightarrow> raises P E (thenA m k)"
  by (simp add: thenA_def raises_bindA)

lemma raises_forA: "(\<And>e. session_error e \<Longrightarrow> E e) \<Longrightarrow> (\<And>x a. raises P E (f x a)) \<Longrightarrow> raises P E (forA xs a f)"
  by (induction xs arbitrary: a) (auto intro!: raises_bindA raises_basic)

section \<open>The errors of the repository\<close>

definition registered :: "string \<Rightarrow> tables \<Rightarrow> bool" where
  "registered key t \<longleftrightarrow> List.find (\<lambda>r. src_key r = key) (t_sources t) \<noteq> None"

text \<open>Errors that no router translates by themselves: neither a response nor one of the two refusals of a
  scan.\<close>

fun inner_error :: "py_error \<Rightarrow> bool" where
  "inner_error (HTTPException _ _) = False"
| "inner_error (ScanAlreadyRunning _) = False"
| "inner_error (SourceNotFound _) = False"
| "inner_error _ = True"

lemma session_inner [simp]: "session_error e \<Longrightarrow> inner_error e"
  by (auto simp: session_error_def)

lemma registered_update [simp]:
  "registered key (t\<lparr>t_scans := a\<rparr>) = registered key t" "registered key (t\<lparr>t_observed := b\<rparr>) = registered key t"
  "registered key (t\<lparr>t_datasets := c\<rparr>) = registered key t" "registered key (t\<lparr>t_expected := d\<rparr>) = registered key t"
  "registered key (t\<lparr>t_changes := e\<rparr>) = registered key t" "registered key (t\<lparr>t_deliveries := f\<rparr>) = registered key t"
  by (simp_all add: registered_def)

lemma raises_find_source: "raises (registered key) inner_error (find_source key)"
  by (auto simp: raises_def find_source_def bindA_def query_def thenA_def registered_def dest: flush_session_error
      split: prod.splits sum.splits option.splits simp: flush_eq_Inr)

lemma raises_find_scan: "raises (registered key) inner_error (find_scan i)"
  unfolding find_scan_def by (intro raises_bindA raises_basic) (auto split: option.split intro: raises_basic)

lemmas raises_rules = raises_bindA raises_thenA raises_forA raises_basic raises_modify raises_find_source raises_find_scan

lemma type_of_json_error: "canonical_type_of_json j = Inl e \<Longrightarrow> inner_error e"
  by (auto simp: canonical_type_of_json_def json_to_int_opt_def bindR_eq_Inl split: json.splits if_splits option.splits)

lemma columns_error: "mapR column_of_row rows = Inl e \<Longrightarrow> inner_error e"
proof (induction rows)
  case (Cons r rows)
  then show ?case by (cases r) (auto simp: bindR_eq_Inl column_of_row_def dest: type_of_json_error)
qed simp

lemma raises_dataset_for: "raises (registered key) inner_error (dataset_for source c ds)"
  by (cases "map_of ds (col_dataset c)")
    (auto simp: dataset_for_def Let_def intro!: raises_rules)

lemma raises_store_expected: "raises (registered key) inner_error (store_expected source c ds)"
  unfolding store_expected_def case_prod_unfold by (intro raises_rules raises_dataset_for) simp_all

lemma raises_observations: "raises (registered key) inner_error (persist_observations scan cs)"
  unfolding persist_observations_def by (intro raises_rules) simp_all

lemma raises_deliveries: "raises (registered key) inner_error (create_pending_deliveries channels now scan)"
  unfolding create_pending_deliveries_def by (intro raises_rules) simp_all

lemma raises_complete: "raises (registered key) inner_error (complete_scan scan f)"
  unfolding complete_scan_def by (intro raises_rules) simp

lemma raises_initial: "raises (registered key) inner_error (complete_initial_baseline i key observed f)"
  unfolding complete_initial_baseline_def datasets_by_ref_def
  by (intro raises_rules raises_store_expected raises_observations raises_complete) simp_all

lemma raises_record: "raises (registered key) inner_error (record_change k source scan now ds opens c a)"
  by (cases a; cases "map_of ds (change_dataset c)")
    (auto simp: record_change_def Let_def intro!: raises_rules)

lemma raises_resolve: "raises (registered key) inner_error (resolve_change active f x u)"
  by (cases x) (auto simp: resolve_change_def intro!: raises_rules)

lemma raises_drift: "raises (registered key) inner_error (complete_drift_scan channels now i key observed changes f)"
  unfolding complete_drift_scan_def datasets_by_ref_def
  by (auto intro!: raises_rules raises_record raises_resolve raises_observations raises_complete raises_deliveries)

lemma raises_reads:
  "raises (registered key) inner_error (load_expected_columns collate key)"
  "raises (registered key) inner_error (load_dependency_columns collate key)"
  unfolding load_expected_columns_def load_dependency_columns_def
  by (intro raises_rules; (simp add: columns_error)?)+

lemma raises_body:
  assumes "\<And>e. collect key = Inl e \<Longrightarrow> inner_error e"
  shows "raises (registered key) inner_error (scan_body (sql_scan_repository env) collect f key trigger i)"
proof -
  have diff: "diff_columns a b c = Inl e \<Longrightarrow> inner_error e" for a b c e
    using diff_columns_total [of a b c] by auto
  show ?thesis
    unfolding scan_body_def sql_scan_repository_def
    by (auto intro!: raises_rules raises_reads raises_drift raises_initial dest: assms) (rule diff)
qed

section \<open>How a run ends\<close>

lemma keeps_durable_find:
  "keeps_durable (find_source k)" "keeps_durable (find_scan i)"
  unfolding find_source_def find_scan_def by (intro keeps_durable_bindA; auto split: option.split)+

lemmas durable_rules = keeps_durable_bindA keeps_durable_thenA keeps_durable_forA keeps_durable_exceptA
  keeps_durable_intros keeps_durable_find

lemma keeps_durable_steps:
  "keeps_durable (dataset_for source c ds)" "keeps_durable (record_change k source scan now ds' opens chg a)"
  "keeps_durable (resolve_change active f x u)" "keeps_durable (persist_observations scan cs)"
  "keeps_durable (create_pending_deliveries channels now scan)" "keeps_durable (complete_scan scan f)"
proof -
  show "keeps_durable (dataset_for source c ds)"
    by (cases "map_of ds (col_dataset c)") (auto simp: dataset_for_def Let_def intro!: durable_rules)
  show "keeps_durable (record_change k source scan now ds' opens chg a)"
    by (cases a; cases "map_of ds' (change_dataset chg)") (auto simp: record_change_def Let_def intro!: durable_rules)
  show "keeps_durable (resolve_change active f x u)" by (cases x) (auto simp: resolve_change_def)
qed (auto simp: persist_observations_def create_pending_deliveries_def complete_scan_def intro!: durable_rules)

lemma keeps_durable_run:
  "keeps_durable (run_scan (sql_scan_repository env) collect f g key trigger)"
  unfolding run_scan_def scan_body_def sql_scan_repository_def try_source_lock_def create_running_scan_def
    load_expected_columns_def load_dependency_columns_def complete_initial_baseline_def complete_drift_scan_def
    fail_scan_def datasets_by_ref_def store_expected_def
  by (auto intro!: durable_rules keeps_durable_steps simp: case_prod_unfold)

lemma raises_fail:
  "raises (\<lambda>_. True) (\<lambda>e. session_error e \<or> (\<exists>x. e = LookupError x)) (fail_scan channels now i c m f)"
proof -
  have "raises (\<lambda>_. True) (\<lambda>e. session_error e \<or> (\<exists>x. e = LookupError x)) (find_scan i)"
    unfolding find_scan_def by (intro raises_bindA raises_basic) (auto split: option.split intro: raises_basic)
  then show ?thesis
    unfolding fail_scan_def create_pending_deliveries_def by (intro raises_rules) auto
qed

lemma create_error:
  assumes "create_running_scan key trigger now s = (Inl e, s')" and "usable s"
  shows "e = SourceNotFound key \<and> s' = s \<and> \<not> registered key (work s) \<or> session_error e \<and> poisoned s'"
proof (cases "List.find (\<lambda>r. src_key r = key) (t_sources (work s))")
  case None
  then show ?thesis
    using assms by (simp add: create_running_scan_def find_source_def bindA_def usable_run(2) registered_def)
next
  case (Some source)
  then have "\<exists>t. flush t = (Inl e, s')"
    using assms(1)
    by (auto simp: create_running_scan_def find_source_def bindA_def usable_run(2) [OF assms(2)] thenA_eq_Inl
        new_id_def modify_def)
  then show ?thesis using flush_session_error flush_Inl_poisoned by blast
qed

lemma create_registers:
  assumes "create_running_scan key trigger now s = (Inr i, s')"
  shows "registered key (work s') \<and> usable s'"
  using assms by (auto simp: create_running_scan_def action_simps registered_def usable_def)

lemma fail_usable: "fail_scan channels now i c m f s = (Inr u, s') \<Longrightarrow> usable s'"
  by (auto simp: fail_scan_def action_simps usable_def)

text \<open>A run that raises on a usable session: the source is locked, or unknown, and nothing has changed; or
  the scan it created is recorded as failed; or the transaction is lost.\<close>

lemma run_scan_ends:
  assumes run: "run_scan (sql_scan_repository env) collect f g key trigger s = (Inl e, s')"
    and us: "usable s" and collect: "\<And>e. collect key = Inl e \<Longrightarrow> inner_error e"
  obtains (locked) "\<not> env_acquired env" and "e = ScanAlreadyRunning key" and "s' = s"
  | (unknown) "e = SourceNotFound key" and "s' = s" and "\<not> registered key (work s)"
  | (recorded) i where "inner_error e" and "usable s'" and "scan_status_of s i = None"
      and "scan_status_of s' = (scan_status_of s)(i \<mapsto> scan_status.FAILED)"
  | (lost) "session_error e \<or> (\<exists>x. e = LookupError x)" and "poisoned s'"
proof (cases "env_acquired env")
  case False
  then have "op_try_lock (sql_scan_repository env) key s = (Inr False, s)"
    by (simp add: sql_scan_repository_def try_source_lock_def usable_run(2) [OF us])
  then show thesis using run False by (intro locked) (simp_all add: run_scan_def bindA_def)
next
  case True
  let ?repo = "sql_scan_repository env"
  have lock: "op_try_lock ?repo key s = (Inr True, s)"
    using True by (simp add: sql_scan_repository_def try_source_lock_def usable_run(2) [OF us])
  obtain r1 s1 where c: "create_running_scan key trigger (env_started env) s = (r1, s1)" by fastforce
  show thesis
  proof (cases r1)
    case (Inl e1)
    then have "e1 = e" "s1 = s'" using run lock c by (simp_all add: run_scan_def bindA_def sql_scan_repository_def)
    then show thesis using create_error [of key trigger "env_started env" s e s'] c Inl us unknown lost by blast
  next
    case (Inr i)
    have reg: "registered key (work s1)" using create_registers c Inr by blast
    obtain e1 s2 where b: "scan_body ?repo collect f key trigger i s1 = (Inl e1, s2)"
      and h: "thenA (fail_scan (env_channels env) (env_now env) i (error_name e1) ''schema collection failed'' g)
        (raiseA e1 :: scan_report db) s2 = (Inl e, s')"
      using run lock c Inr
      by (auto simp: run_scan_def bindA_def exceptA_def sql_scan_repository_def split: prod.splits sum.splits)
    have e1: "inner_error e1" using raisesD(1) [OF raises_body reg b] collect by blast
    consider "fail_scan (env_channels env) (env_now env) i (error_name e1) ''schema collection failed'' g s2 = (Inl e, s')"
      | "e = e1" "fail_scan (env_channels env) (env_now env) i (error_name e1) ''schema collection failed'' g s2 = (Inr (), s')"
      using h by (auto simp: thenA_eq_Inl)
    then show thesis
    proof cases
      case 1
      have "session_error e \<or> (\<exists>x. e = LookupError x)" using raisesD(1) [OF raises_fail _ 1] by simp
      moreover have "poisoned s'"
      proof (cases "poisoned s2")
        case True
        then show ?thesis using fail_dead [OF 1] by simp
      next
        case False
        then have "scan_status_of s2 = scan_status_of s1" using sql_scans.body_raises [OF b] by simp
        then have "scan_status_of s2 i \<noteq> None" using create_law [of key trigger "env_started env" s i s1] c Inr by simp
        then show ?thesis by (rule fail_raises_law [OF 1])
      qed
      ultimately show thesis by (rule lost)
    next
      case 2
      have st: "\<not> poisoned s2" "scan_status_of s' = (scan_status_of s2)(i \<mapsto> scan_status.FAILED)"
        using fail_law [OF 2(2)] by simp_all
      have "scan_status_of s i = None" "scan_status_of s' = (scan_status_of s)(i \<mapsto> scan_status.FAILED)"
        using create_law [of key trigger "env_started env" s i s1] c Inr sql_scans.body_raises [OF b] st by simp_all
      then show thesis using recorded [of i] e1 2(1) fail_usable [OF 2(2)] by simp
    qed
  qed
qed

end
