(* ===== verification/ScanRequests.thy ===== *)
theory ScanRequests
  imports Endpoints ScanErrors
begin

text \<open>
  A request for a scan from end to end: the run, what its transaction leaves, the answer, and the
  notifications, which work on sessions of their own and cannot undo the scan.
\<close>

section \<open>Notifications touch nothing but deliveries\<close>

definition other_tables :: "tables \<Rightarrow> tables" where
  "other_tables t = t\<lparr>t_deliveries := []\<rparr>"

definition keeps_world :: "(tables \<Rightarrow> 'x) \<Rightarrow> 'a world_db \<Rightarrow> bool" where
  "keeps_world g m \<longleftrightarrow> (\<forall>sw. (poisoned (fst sw) \<longrightarrow> poisoned (fst (snd (m sw)))) \<and>
     (\<not> poisoned (fst (snd (m sw))) \<longrightarrow> g (work (fst (snd (m sw)))) = g (work (fst sw))))"

lemma keeps_worldD:
  "keeps_world g m \<Longrightarrow> m sw = (r, sw') \<Longrightarrow> \<not> poisoned (fst sw') \<Longrightarrow>
     g (work (fst sw')) = g (work (fst sw)) \<and> \<not> poisoned (fst sw)"
  unfolding keeps_world_def by (metis snd_conv)

lemma keeps_world_basic:
  "keeps_world g (returnA x)" "keeps_world g (raiseA e)" "keeps_world g (liftA r)"
  by (simp_all add: keeps_world_def)

lemma keeps_world_on_db: "keeps g m \<Longrightarrow> keeps_world g (on_db m)"
  unfolding keeps_world_def
proof
  fix sw :: "session \<times> world"
  assume k: "keeps g m"
  obtain r s' where m: "m (fst sw) = (r, s')" by fastforce
  then have "on_db m sw = (r, (s', snd sw))" by (cases sw) (simp add: on_db_def)
  then show "(poisoned (fst sw) \<longrightarrow> poisoned (fst (snd (on_db m sw)))) \<and>
     (\<not> poisoned (fst (snd (on_db m sw))) \<longrightarrow> g (work (fst (snd (on_db m sw)))) = g (work (fst sw)))"
    using k m unfolding keeps_def by (metis fst_conv snd_conv)
qed

lemma keeps_world_bindA:
  assumes "keeps_world g m" and "\<And>x. keeps_world g (f x)"
  shows "keeps_world g (bindA m f)"
  unfolding keeps_world_def
proof
  fix sw :: "session \<times> world"
  obtain r sw1 where m: "m sw = (r, sw1)" by (rule prod.exhaust)
  show "(poisoned (fst sw) \<longrightarrow> poisoned (fst (snd (bindA m f sw)))) \<and>
     (\<not> poisoned (fst (snd (bindA m f sw))) \<longrightarrow> g (work (fst (snd (bindA m f sw)))) = g (work (fst sw)))"
  proof (cases r)
    case (Inl e)
    then have "snd (bindA m f sw) = snd (m sw)" using m by (simp add: bindA_def)
    then show ?thesis using assms(1) unfolding keeps_world_def by metis
  next
    case (Inr x)
    then have "bindA m f sw = f x sw1" using m by (simp add: bindA_def)
    then show ?thesis using assms(1) assms(2) [of x] m unfolding keeps_world_def by (metis snd_conv)
  qed
qed

lemma keeps_world_thenA: "keeps_world g m \<Longrightarrow> keeps_world g k \<Longrightarrow> keeps_world g (thenA m k)"
  by (simp add: thenA_def keeps_world_bindA)

lemma keeps_world_forA: "(\<And>x a. keeps_world g (f x a)) \<Longrightarrow> keeps_world g (forA xs a f)"
  by (induction xs arbitrary: a) (auto intro!: keeps_world_bindA keeps_world_basic)

lemma keeps_world_try: "keeps_world g m \<Longrightarrow> keeps_world g (try_delivery m)"
proof -
  have "snd (try_delivery m sw) = snd (m sw)" for sw
    by (auto simp: try_delivery_def split: prod.splits sum.splits py_error.splits)
  then show "keeps_world g m \<Longrightarrow> keeps_world g (try_delivery m)" by (simp add: keeps_world_def)
qed

lemma keeps_world_send: "notifiers_by_channel providers c = Some send \<Longrightarrow> keeps_world g (send m)"
  by (auto simp: keeps_world_def notifiers_by_channel_def send_to_def Let_def split: prod.split)

lemmas keeps_world_rules = keeps_world_bindA keeps_world_thenA keeps_world_forA keeps_world_try keeps_world_send
  keeps_world_on_db keeps_world_basic

lemma keeps_alert_operations:
  "keeps other_tables (list_dispatchable_for_scan i)" "keeps other_tables (lock_delivery i)"
  "keeps other_tables (get_scan_context c i)" "keeps other_tables (latest_failed_scan_id k)"
  "keeps other_tables (mark_attempt_started i now)" "keeps other_tables (mark_sent i p now)"
  "keeps other_tables (mark_failed i e rt)"
proof -
  have get: "keeps other_tables (get_delivery i)" for i
    unfolding get_delivery_def by (intro keeps_bindA) (auto split: option.split)
  have set: "keeps other_tables (set_delivery i f)" for i f
    unfolding set_delivery_def by (intro keeps_modify) (simp add: other_tables_def)
  show "keeps other_tables (mark_attempt_started i now)" "keeps other_tables (mark_sent i p now)"
    "keeps other_tables (mark_failed i e rt)"
    unfolding mark_attempt_started_def mark_sent_def mark_failed_def by (auto intro!: get set)
  show "keeps other_tables (get_scan_context c i)"
    unfolding get_scan_context_def by (intro keeps_bindA) (auto split: option.split)
qed (auto simp: list_dispatchable_for_scan_def lock_delivery_def latest_failed_scan_id_def)

lemma keeps_world_dispatch:
  "keeps_world other_tables (dispatch_scan (sql_alert_repository collate) (notifiers_by_channel providers) base now i)"
  unfolding dispatch_scan_def append_attempt_def attempt_def finish_attempt_def sql_alert_repository_def
  by (auto intro!: keeps_world_bindA keeps_world_thenA keeps_world_forA keeps_world_try keeps_world_on_db
      keeps_world_basic keeps_alert_operations keeps_world_send split: option.split sum.split)

definition declared_ok :: "tables \<Rightarrow> bool" where
  "declared_ok t \<longleftrightarrow> data_ok t \<and> integrity_ok t"

lemma scope_keeps_other_tables:
  assumes "keeps_world other_tables m" and "preserves committed m" and "work (fst sw) = committed sw"
  shows "other_tables (committed (snd (world_scope m sw))) = other_tables (committed sw) \<and>
    (declared_ok (committed sw) \<longrightarrow> declared_ok (committed (snd (world_scope m sw))))"
proof -
  obtain r sw' where Pair: "world_scope m sw = (r, sw')" by (rule prod.exhaust)
  show ?thesis
  proof (cases r)
    case (Inl e)
    then show ?thesis using world_scope_Inl [OF assms(2), of sw e sw'] Pair by simp
  next
    case (Inr x)
    then obtain t where "m sw = (Inr x, t)" "usable (fst t)" "sw' = ((fst t)\<lparr>durable := work (fst t)\<rparr>, snd t)"
      using world_scope_Inr [of m sw x sw'] Pair by metis
    then show ?thesis using keeps_worldD [OF assms(1)] assms(3) Pair by (auto simp: usable_def declared_ok_def)
  qed
qed

text \<open>What a dispatcher leaves of the session of the request, which had nothing uncommitted.\<close>

definition only_deliveries :: "session \<times> world \<Rightarrow> session \<times> world \<Rightarrow> bool" where
  "only_deliveries sw sw' \<longleftrightarrow> work (fst sw') = committed sw' \<and> poisoned (fst sw') = poisoned (fst sw) \<and>
     other_tables (committed sw') = other_tables (committed sw) \<and>
     (declared_ok (committed sw) \<longrightarrow> declared_ok (committed sw'))"

lemma other_session_only_deliveries:
  assumes "keeps_world other_tables m" and "preserves committed m"
  shows "only_deliveries sw (snd (swallow (other_session (world_scope m)) sw))"
proof -
  let ?sw = "(fresh_session (committed sw) (id_supply (fst sw)), snd sw)"
  obtain r s w where run: "world_scope m ?sw = (r, (s, w))" by (metis surj_pair)
  have "other_tables (committed (snd (world_scope m ?sw))) = other_tables (committed ?sw) \<and>
    (declared_ok (committed ?sw) \<longrightarrow> declared_ok (committed (snd (world_scope m ?sw))))"
    by (rule scope_keeps_other_tables [OF assms]) (simp add: fresh_session_def)
  then show ?thesis
    using run by (simp add: only_deliveries_def swallow_def other_session_def fresh_session_def)
qed

lemma dispatcher_scan_only_deliveries: "only_deliveries sw (snd (dispatcher_scan cfg rq i sw))"
  unfolding dispatcher_scan_def notification_dispatch_def
  by (rule other_session_only_deliveries [OF keeps_world_dispatch dispatch_preserves])

lemma system_error_frame:
  shows "keeps_world other_tables (bindA (on_db (latest_failed_scan_id key)) (\<lambda>latest.
     case latest of None \<Rightarrow> returnA [] | Some scan_id \<Rightarrow>
       dispatch_scan (sql_alert_repository collate) (notifiers_by_channel ps) base now scan_id))"
    and "preserves committed (bindA (on_db (latest_failed_scan_id key)) (\<lambda>latest.
     case latest of None \<Rightarrow> returnA [] | Some scan_id \<Rightarrow>
       dispatch_scan (sql_alert_repository collate) (notifiers_by_channel ps) base now scan_id))"
proof -
  show "keeps_world other_tables (bindA (on_db (latest_failed_scan_id key)) (\<lambda>latest.
     case latest of None \<Rightarrow> returnA [] | Some scan_id \<Rightarrow>
       dispatch_scan (sql_alert_repository collate) (notifiers_by_channel ps) base now scan_id))"
    by (auto intro!: keeps_world_bindA keeps_world_on_db keeps_alert_operations keeps_world_basic keeps_world_dispatch
        split: option.split)
  have "keeps_durable (latest_failed_scan_id key)" unfolding latest_failed_scan_id_def by auto
  then show "preserves committed (bindA (on_db (latest_failed_scan_id key)) (\<lambda>latest.
     case latest of None \<Rightarrow> returnA [] | Some scan_id \<Rightarrow>
       dispatch_scan (sql_alert_repository collate) (notifiers_by_channel ps) base now scan_id))"
    by (auto intro!: preserves_bindA preserves_on_db dispatch_preserves split: option.split)
qed

lemma dispatcher_system_error_only_deliveries: "only_deliveries sw (snd (dispatcher_system_error cfg rq key sw))"
  unfolding dispatcher_system_error_def notification_dispatch_def
  by (rule other_session_only_deliveries [OF system_error_frame])

section \<open>The outcomes of a request\<close>

definition committed_status :: "tables \<Rightarrow> uuid \<Rightarrow> scan_status option" where
  "committed_status t i = map_option sc_status (List.find (\<lambda>r. sc_id r = i) (t_scans t))"

lemma status_of_work: "scan_status_of s = committed_status (work s)"
  by (simp add: scan_status_of_def committed_status_def fun_eq_iff)

lemma committed_status_other: "other_tables t = other_tables t' \<Longrightarrow> committed_status t = committed_status t'"
  by (metis (no_types, lifting) committed_status_def other_tables_def ext tables.select_convs(4) tables.surjective
      tables.update_convs(7))

lemma run_scan_usable:
  assumes "run_scan (sql_scan_repository env) collector f g key trigger s = (Inr report, s')"
  shows "usable s'"
proof -
  obtain i s2 where b: "scan_body (sql_scan_repository env) collector f key trigger i s2 = (Inr report, s')"
    by (rule run_scan_Inr [OF assms])
  show ?thesis
    using b by (auto simp: scan_body_def sql_scan_repository_def action_simps complete_drift_scan_def
        complete_initial_baseline_def usable_def split: if_splits)
qed

abbreviation scan_of_request ::
  "settings \<Rightarrow> request_env \<Rightarrow> string \<Rightarrow> scan_report db" where
  "scan_of_request cfg rq key \<equiv> run_scan (request_scan_repository cfg rq) (collect_source (rq_driver rq) (cfg_source_url cfg))
     (rq_finished rq) (rq_failed rq) key MANUAL"

lemma commit_nothing:
  "work s = durable s \<Longrightarrow> committed (snd (commit_world (s, w))) = durable s"
  by (auto simp: commit_world_def on_db_def commit_def thenA_def bindA_def flush_def)

lemma commit_done: "usable s \<Longrightarrow> commit_world (s, w) = (Inr (), (s\<lparr>durable := work s\<rparr>, w))"
  by (simp add: commit_world_eq)

lemma only_deliveries_closed:
  assumes "only_deliveries sw sw'"
  shows "other_tables (committed (close_session (snd (commit_world sw')))) = other_tables (committed sw)"
  using assms commit_nothing [of "fst sw'" "snd sw'"]
  by (simp add: only_deliveries_def close_session_def rollback_def)

lemma driver_error_inner: "driver_error e \<Longrightarrow> inner_error e"
  by (auto simp: driver_error_def)

lemma lost_error:
  assumes "session_error e \<or> (\<exists>x. e = LookupError x)"
  shows "scan_refused cfg rq key e = raiseA e \<and> \<not> is_http_exception e" and "\<not> source_failure e" and "inner_error e"
  using assms by (auto simp: scan_refused_def session_error_def)

lemma inner_error_unhandled:
  "inner_error e \<Longrightarrow> \<not> source_failure e \<Longrightarrow> scan_refused cfg rq key e = raiseA e \<and> \<not> is_http_exception e"
  by (cases e) (auto simp: scan_refused_def)

lemma unhandled_response: "\<not> is_http_exception e \<Longrightarrow> response_of (Inl e) = ServerError"
  by (cases e) auto

lemma source_failure_handled:
  "source_failure e \<Longrightarrow> scan_refused cfg rq key e = thenA commit_world (thenA (dispatcher_system_error cfg rq key)
     (raiseA (HTTPException 503 (DetailText ''source database unavailable''))))"
  by (cases e) (auto simp: scan_refused_def)

lemma scan_request_cases:
  assumes run: "run_scan_endpoint cfg rq (Inr ident) key (s, w) = (resp, (s', w'))"
    and driver: "driver_like (rq_driver rq)" and ok: "declared_ok (durable s)"
  obtains (invalid) "\<not> valid_source_key key" and "resp = Unprocessable" and "durable s' = durable s" and "w' = w"
  | (completed) report t where "valid_source_key key" and "scan_of_request cfg rq key (rollback s) = (Inr report, t)"
      and "resp = Answer 201 (scan_response_of report)" and "other_tables (durable s') = other_tables (work t)"
  | (locked) "valid_source_key key" and "scan_of_request cfg rq key (rollback s) = (Inl (ScanAlreadyRunning key), rollback s)"
      and "\<not> env_acquired (rq_scan rq)" and "resp = Refused 409 (DetailText (error_text (ScanAlreadyRunning key)))"
      and "durable s' = durable s" and "w' = w"
  | (unknown) "valid_source_key key" and "scan_of_request cfg rq key (rollback s) = (Inl (SourceNotFound key), rollback s)"
      and "\<not> registered key (durable s)" and "resp = Refused 404 (DetailText (error_text (SourceNotFound key)))"
      and "durable s' = durable s" and "w' = w"
  | (failed) e t i where "valid_source_key key" and "scan_of_request cfg rq key (rollback s) = (Inl e, t)" and "source_failure e"
      and "resp = Refused 503 (DetailText ''source database unavailable'')"
      and "other_tables (durable s') = other_tables (work t)" and "committed_status (durable s) i = None"
      and "committed_status (work t) = (committed_status (durable s))(i \<mapsto> scan_status.FAILED)"
  | (unhandled) e t where "valid_source_key key" and "scan_of_request cfg rq key (rollback s) = (Inl e, t)" and "inner_error e" and "\<not> source_failure e"
      and "resp = ServerError" and "durable s' = durable s" and "w' = w"
proof (cases "valid_source_key key")
  case False
  then show thesis
    using run by (intro invalid) (auto simp: run_scan_endpoint_def endpoint_def close_session_def rollback_def)
next
  case True
  note valid = True
  define body where "body = run_scan_body cfg rq key"
  have fin: "(case database_session body (s, w) of (r, sw') \<Rightarrow> (response_of r, sw')) = (resp, (s', w'))"
    using run True by (simp add: run_scan_endpoint_def endpoint_def body_def)
  have s0: "usable (rollback s)" "durable (rollback s) = durable s" "work (rollback s) = durable s"
    using ok by (simp_all add: usable_def rollback_def declared_ok_def)
  obtain r t where scan: "scan_of_request cfg rq key (rollback s) = (r, t)" by fastforce
  then have req: "request_run_scan cfg rq key (rollback s, w) = (r, (t, w))"
    by (simp add: request_run_scan_def on_db_def)
  have dur: "durable t = durable s"
    using keeps_durable_run [of "(rq_scan rq)\<lparr>env_channels := enabled_channels cfg\<rparr>"] scan s0(2)
    unfolding keeps_durable_def request_scan_repository_def by (metis snd_conv)
  show thesis
  proof (cases r)
    case (Inr report)
    have us: "usable t" using run_scan_usable scan Inr by (simp add: request_scan_repository_def)
    let ?sw = "(t\<lparr>durable := work t\<rparr>, w)"
    have "body (rollback s, w) = (Inr ((201, scan_response_of report), [dispatcher_scan cfg rq (report_scan_id report)]), ?sw)"
      using req Inr commit_done [OF us, of w]
      by (simp add: body_def run_scan_body_def exceptA_def bindA_def thenA_def)
    then have resp: "resp = Answer 201 (scan_response_of report)"
      and s': "(s', w') = close_session (snd (commit_world (snd (dispatcher_scan cfg rq (report_scan_id report) ?sw))))"
      using fin by (simp_all add: database_session_def close_session_def)
    have "other_tables (durable s') = other_tables (committed ?sw)"
      using only_deliveries_closed [OF dispatcher_scan_only_deliveries] s' by (metis fst_conv)
    then show thesis using completed [of report t] True scan Inr resp by simp
  next
    case (Inl e)
    let ?h = "scan_refused cfg rq key e :: ((nat \<times> scan_response) \<times> tasks) world_db"
    have body: "body (rollback s, w) = ?h (t, w)"
      using req Inl by (simp add: body_def run_scan_body_def exceptA_def bindA_def)
    have sunk: thesis if u: "?h = raiseA e \<and> \<not> is_http_exception e" and n: "inner_error e" "\<not> source_failure e"
    proof -
      have "resp = ServerError" "(s', w') = (rollback t, w)"
        using fin body u by (auto simp: database_session_def close_session_def unhandled_response)
      then show thesis using unhandled [of e t] True scan Inl n dur by (simp add: rollback_def)
    qed
    have refused: "resp = Refused n d \<and> durable s' = durable s \<and> w' = w"
      if "?h = raiseA (HTTPException n d)" "t = rollback s" for n d
      using fin body that s0 commit_done [OF s0(1), of w]
      by (auto simp: database_session_def close_session_def rollback_def)
    from scan Inl have run': "run_scan (sql_scan_repository ((rq_scan rq)\<lparr>env_channels := enabled_channels cfg\<rparr>))
        (collect_source (rq_driver rq) (cfg_source_url cfg)) (rq_finished rq) (rq_failed rq) key MANUAL (rollback s) = (Inl e, t)"
      by (simp add: request_scan_repository_def)
    have coll: "\<And>e'. collect_source (rq_driver rq) (cfg_source_url cfg) key = Inl e' \<Longrightarrow> inner_error e'"
      using collect_source_Inl [OF driver] driver_error_inner by blast
    show thesis
    proof (rule run_scan_ends [OF run' s0(1) coll])
      assume locked': "\<not> env_acquired ((rq_scan rq)\<lparr>env_channels := enabled_channels cfg\<rparr>)" "e = ScanAlreadyRunning key"
        "t = rollback s"
      then have "?h = raiseA (HTTPException 409 (DetailText (error_text (ScanAlreadyRunning key))))"
        by (simp add: scan_refused_def)
      then show thesis using refused locked' True scan Inl by (intro locked) simp_all
    next
      assume unknown': "e = SourceNotFound key" "t = rollback s" "\<not> registered key (work (rollback s))"
      then have "?h = raiseA (HTTPException 404 (DetailText (error_text (SourceNotFound key))))"
        by (simp add: scan_refused_def)
      then show thesis using refused unknown' True s0(3) scan Inl by (intro unknown) simp_all
    next
      fix i
      assume recorded: "inner_error e" "usable t" "scan_status_of (rollback s) i = None"
        "scan_status_of t = (scan_status_of (rollback s))(i \<mapsto> scan_status.FAILED)"
      show thesis
      proof (cases "source_failure e")
        case False
        then show thesis using sunk inner_error_unhandled recorded(1) by blast
      next
        case True
        let ?sw = "(t\<lparr>durable := work t\<rparr>, w)"
        obtain sw' where d: "dispatcher_system_error cfg rq key ?sw = (Inr (), sw')"
          by (simp add: dispatcher_system_error_def swallow_def)
        then have od: "only_deliveries ?sw sw'" using dispatcher_system_error_only_deliveries [of ?sw cfg rq key] by simp
        have "body (rollback s, w) = (Inl (HTTPException 503 (DetailText ''source database unavailable'')), sw')"
          unfolding body source_failure_handled [OF True] using commit_done [OF recorded(2), of w] d
          by (simp add: thenA_def bindA_def)
        moreover have "usable (fst sw')"
          using recorded(2) od by (auto simp: only_deliveries_def usable_def declared_ok_def)
        then have "commit_world sw' = (Inr (), ((fst sw')\<lparr>durable := work (fst sw')\<rparr>, snd sw'))"
          by (simp add: commit_world_eq)
        ultimately have "resp = Refused 503 (DetailText ''source database unavailable'')"
          "(s', w') = close_session (snd (commit_world sw'))"
          using fin by (simp_all add: database_session_def close_session_def)
        moreover have "other_tables (durable s') = other_tables (work t)"
          using only_deliveries_closed [OF od] calculation(2) by (metis fst_conv session.select_convs(2) session.surjective session.update_convs(2))
        moreover have "committed_status (durable s) i = None"
          "committed_status (work t) = (committed_status (durable s))(i \<mapsto> scan_status.FAILED)"
          using recorded(3,4) s0(3) by (simp_all add: status_of_work)
        ultimately show thesis using failed [of e t i] valid scan Inl True by blast
      qed
    next
      assume lost: "session_error e \<or> (\<exists>x. e = LookupError x)" "poisoned t"
      show thesis by (rule sunk) (rule lost_error [OF lost(1)])+
    qed
  qed
qed

text \<open>C5. What a request for a scan leaves behind is decided by its answer. 201: the scan in the answer is
  new and committed as \<open>COMPLETED\<close>. 409 and 404: the source was locked or is not registered, and nothing
  has happened. 503: a new scan is committed as \<open>FAILED\<close>. 500, that is, any other exception: everything the run
  did is gone, its \<open>FAILED\<close> record too. No other scan changes its status, and nothing is sent unless the answer
  is 201 or 503.\<close>

theorem scan_request_outcomes:
  assumes "run_scan_endpoint cfg rq (Inr ident) key (s, w) = (resp, (s', w'))"
    and "driver_like (rq_driver rq)" and "declared_ok (durable s)"
  shows "case resp of
      Answer n body \<Rightarrow> n = 201 \<and> committed_status (durable s) (sr_scan_id body) = None \<and>
        committed_status (durable s') = (committed_status (durable s))(sr_scan_id body \<mapsto> COMPLETED)
    | Refused n _ \<Rightarrow>
        n = 409 \<and> \<not> env_acquired (rq_scan rq) \<and> durable s' = durable s \<and> w' = w \<or>
        n = 404 \<and> \<not> registered key (durable s) \<and> durable s' = durable s \<and> w' = w \<or>
        n = 503 \<and> (\<exists>i. committed_status (durable s) i = None \<and>
          committed_status (durable s') = (committed_status (durable s))(i \<mapsto> scan_status.FAILED))
    | Unprocessable \<Rightarrow> \<not> valid_source_key key \<and> durable s' = durable s \<and> w' = w
    | ServerError \<Rightarrow> durable s' = durable s \<and> w' = w"
  using assms
proof (cases rule: scan_request_cases)
  case (completed report t)
  then have "scan_status_of (rollback s) (report_scan_id report) = None"
    "scan_status_of t = (scan_status_of (rollback s))(report_scan_id report \<mapsto> COMPLETED)"
    using sql_scans.run_returns [where s = "rollback s" and s' = t and r = report] by (auto simp: request_scan_repository_def)
  then show ?thesis
    using completed committed_status_other [OF completed(4)]
    by (simp add: status_of_work rollback_def scan_response_of_def)
next
  case (failed e t i)
  then show ?thesis using committed_status_other [OF failed(5)] by auto
qed auto

text \<open>C20. Notifications are isolated from scans: whatever the providers do, answer, refuse, time out or raise,
  the answer to the request and all that is committed, apart from the deliveries themselves, are the same.\<close>

theorem notifications_isolated:
  assumes "run_scan_endpoint cfg rq (Inr ident) key (s, w) = (resp, (s', w'))"
    and "run_scan_endpoint cfg (rq\<lparr>rq_outside := out\<rparr>) (Inr ident) key (s, w) = (resp2, (s2, w2))"
    and "driver_like (rq_driver rq)" and "declared_ok (durable s)"
  shows "resp2 = resp \<and> other_tables (durable s2) = other_tables (durable s')"
proof -
  have same: "request_scan_repository cfg (rq\<lparr>rq_outside := out\<rparr>) = request_scan_repository cfg rq"
    by (simp add: request_scan_repository_def)
  have driver: "driver_like (rq_driver (rq\<lparr>rq_outside := out\<rparr>))" using assms(3) by simp
  show ?thesis
    by (rule scan_request_cases [OF assms(1,3,4)]; rule scan_request_cases [OF assms(2) driver assms(4)])
      (auto simp: same simp del: error_text.simps)
qed

section \<open>An example request\<close>

definition sample_settings :: settings where
  "sample_settings = (default_settings ''metadata'' ''source'' ''key'')\<lparr>cfg_slack_webhook := Some ''hook'', cfg_trust_proxy := True\<rparr>"

definition sample_driver :: driver where
  "sample_driver url schemas = Inr [\<lparr>raw_schema = ''public'', raw_table = ''orders'', raw_name = ''id'', raw_ordinal = 1,
     raw_is_nullable = ''YES'', raw_data_type = ''bigint'', raw_udt_name = ''int8'', raw_length = None, raw_precision = Some 64,
     raw_scale = Some 0, raw_default = None\<rparr>]"

definition sample_outside :: outside where
  "sample_outside = \<lparr>out_post = (\<lambda>_ _ _. Inr \<lparr>reply_status = 200, reply_request_id = Some ''r1''\<rparr>),
     out_smtp = (\<lambda>_ _ _ _. Inr []), out_msgid = (\<lambda>_. ''<1@host>'')\<rparr>"

definition sample_rq :: request_env where
  "sample_rq = \<lparr>rq_scan = sample_env, rq_finished = 0, rq_failed = 0, rq_now = 0, rq_driver = sample_driver,
     rq_outside = sample_outside\<rparr>"

definition sample_operator :: operator_identity where
  "sample_operator = \<lparr>identity_subject = ''api-client'', identity_mechanism = ApiKey\<rparr>"

lemma sample_driver_like: "driver_like (rq_driver sample_rq)"
  by (simp add: driver_like_def sample_rq_def sample_driver_def)

lemma sample_declared_ok: "declared_ok (durable sample_session)"
  using sample_session_usable by (simp add: declared_ok_def usable_def sample_session_def fresh_session_def)

lemma sample_collected: "collect_source (rq_driver sample_rq) (cfg_source_url sample_settings) = sample_collect True"
proof
  fix key
  have "split_ws ''bigint'' = [''bigint'']"
    by (simp add: split_ws.simps is_space_def code_def)
  then have "normalize_name ''bigint'' = ''bigint''"
    by (simp add: normalize_name_def type_aliases_def strip_def is_space_def code_def lower_def lower_char_def Let_def)
  then show "collect_source (rq_driver sample_rq) (cfg_source_url sample_settings) key = sample_collect True key"
    by (simp add: collect_source_def make_collector_def collect_def sample_rq_def sample_driver_def sample_collect_def
        to_column_def sample_column_def canonicalize_postgres_type_def char_or_bit_type_def)
qed

lemma sample_request_scan:
  "\<exists>t. scan_of_request sample_settings sample_rq ''warehouse'' (rollback sample_session) =
     (Inr \<lparr>report_scan_id = 10, report_source_key = ''warehouse'', report_trigger = MANUAL,
          report_baseline_created = False, report_observed_count = 1, report_changes = [sample_change]\<rparr>, t)"
proof -
  have env: "(rq_scan sample_rq)\<lparr>env_channels := enabled_channels sample_settings\<rparr> = sample_env"
    by (simp add: sample_rq_def sample_env_def enabled_channels_def sample_settings_def default_settings_def present_def)
  have "rollback sample_session = sample_session" by (simp add: rollback_def sample_session_def fresh_session_def)
  then show ?thesis
    unfolding request_scan_repository_def env sample_collected
    by (simp add: sample_rq_def) (metis sample_run)
qed

lemma sample_request_by:
  "\<exists>s' w'. run_scan_endpoint sample_settings (sample_rq\<lparr>rq_outside := out\<rparr>) (Inr identity) ''warehouse'' (sample_session, []) =
    (Answer 201 (scan_response_of \<lparr>report_scan_id = 10, report_source_key = ''warehouse'', report_trigger = MANUAL,
          report_baseline_created = False, report_observed_count = 1, report_changes = [sample_change]\<rparr>), (s', w')) \<and>
    committed_status (durable s') 10 = Some COMPLETED"
proof -
  let ?rq = "sample_rq\<lparr>rq_outside := out\<rparr>"
  obtain resp s' w' where run: "run_scan_endpoint sample_settings ?rq (Inr identity) ''warehouse'' (sample_session, []) = (resp, (s', w'))"
    by (metis surj_pair)
  have driver: "driver_like (rq_driver ?rq)" using sample_driver_like by simp
  obtain t where t: "scan_of_request sample_settings ?rq ''warehouse'' (rollback sample_session) =
     (Inr \<lparr>report_scan_id = 10, report_source_key = ''warehouse'', report_trigger = MANUAL,
          report_baseline_created = False, report_observed_count = 1, report_changes = [sample_change]\<rparr>, t)"
    using sample_request_scan by (auto simp: request_scan_repository_def)
  have "scan_status_of t 10 = Some COMPLETED"
    using sql_scans.run_returns [OF t [unfolded request_scan_repository_def]] by simp
  then have status: "committed_status (work t) 10 = Some COMPLETED" by (simp add: status_of_work)
  have valid: "valid_source_key ''warehouse''" by (simp add: valid_source_key_def)
  obtain "other_tables (durable s') = other_tables (work t)" and "resp = Answer 201 (scan_response_of
      \<lparr>report_scan_id = 10, report_source_key = ''warehouse'', report_trigger = MANUAL,
          report_baseline_created = False, report_observed_count = 1, report_changes = [sample_change]\<rparr>)"
    by (rule scan_request_cases [OF run driver sample_declared_ok]) (use t valid in simp_all)
  moreover have "committed_status (durable s') 10 = Some COMPLETED"
    using committed_status_other [OF calculation(1)] status by simp
  ultimately show ?thesis using run by blast
qed

lemma same_outside: "sample_rq\<lparr>rq_outside := sample_outside\<rparr> = sample_rq"
  by (simp add: sample_rq_def)

theorem scan_request_outcomes_witness:
  "\<exists>body s' w'. run_scan_endpoint sample_settings sample_rq (Inr sample_operator) ''warehouse'' (sample_session, []) = (Answer 201 body, (s', w')) \<and>
     committed_status (durable s') (sr_scan_id body) = Some COMPLETED"
proof -
  obtain body s' w' where run: "run_scan_endpoint sample_settings sample_rq (Inr sample_operator) ''warehouse'' (sample_session, []) = (Answer 201 body, (s', w'))"
    using sample_request_by [of sample_outside sample_operator, unfolded same_outside] by blast
  show ?thesis using scan_request_outcomes [OF run sample_driver_like sample_declared_ok] run by auto
qed

theorem notifications_isolated_witness:
  "\<exists>resp s' w' s2 w2. run_scan_endpoint sample_settings sample_rq (Inr sample_operator) ''warehouse'' (sample_session, []) = (resp, (s', w')) \<and>
     run_scan_endpoint sample_settings (sample_rq\<lparr>rq_outside := sample_outside\<lparr>out_post := \<lambda>_ _ _. Inl (HttpxError ''timeout'')\<rparr>\<rparr>)
       (Inr sample_operator) ''warehouse'' (sample_session, []) = (resp, (s2, w2)) \<and>
     other_tables (durable s2) = other_tables (durable s')"
proof -
  obtain resp s' w' where one: "run_scan_endpoint sample_settings sample_rq (Inr sample_operator) ''warehouse'' (sample_session, []) = (resp, (s', w'))"
    by (metis surj_pair)
  obtain resp2 s2 w2 where two: "run_scan_endpoint sample_settings (sample_rq\<lparr>rq_outside := sample_outside\<lparr>out_post := \<lambda>_ _ _. Inl (HttpxError ''timeout'')\<rparr>\<rparr>)
       (Inr sample_operator) ''warehouse'' (sample_session, []) = (resp2, (s2, w2))"
    by (metis surj_pair)
  show ?thesis using notifications_isolated [OF one two sample_driver_like sample_declared_ok] one two by blast
qed

end
