(* ===== verification/Dashboard.thy ===== *)
theory Dashboard
  imports Endpoints
begin

text \<open>
  \<open>api/routers/dashboard.py\<close>: the two actions of the dashboard with their check against forged requests,
  the views behind the templates, and the display of a column type. A view is what the template is given;
  turning it into HTML is the template engine's. \<open>bracketed\<close> is the standard library's check of an IPv6
  address in brackets.
\<close>

section \<open>Splitting an address\<close>

record split_url =
  url_scheme :: string
  url_netloc :: string

definition scheme_char :: "char \<Rightarrow> bool" where
  "scheme_char c \<longleftrightarrow> (let n = code c in 65 \<le> n \<and> n \<le> 90 \<or> 97 \<le> n \<and> n \<le> 122 \<or> 48 \<le> n \<and> n \<le> 57 \<or> c \<in> {CHR ''+'', CHR ''-'', CHR ''.''})"

definition ascii_letter :: "char \<Rightarrow> bool" where
  "ascii_letter c \<longleftrightarrow> (let n = code c in 65 \<le> n \<and> n \<le> 90 \<or> 97 \<le> n \<and> n \<le> 122)"

definition clean_url :: "string \<Rightarrow> string" where
  "clean_url url = filter (\<lambda>c. code c \<noteq> 9 \<and> code c \<noteq> 10 \<and> code c \<noteq> 13) (dropWhile (\<lambda>c. code c \<le> 32) url)"

definition split_scheme :: "string \<Rightarrow> string \<times> string" where
  "split_scheme url =
     (let prefix = takeWhile (\<lambda>c. c \<noteq> CHR '':'') url in
      if CHR '':'' \<in> set url \<and> prefix \<noteq> [] \<and> ascii_letter (hd url) \<and> list_all scheme_char prefix then
        (lower prefix, drop (Suc (length prefix)) url)
      else ([], url))"

definition netloc_char :: "char \<Rightarrow> bool" where
  "netloc_char c \<longleftrightarrow> c \<notin> {CHR ''/'', CHR ''?'', CHR ''#''}"

definition urlsplit :: "(string \<Rightarrow> bool) \<Rightarrow> string \<Rightarrow> py_error + split_url" where
  "urlsplit bracketed url =
     (case split_scheme (clean_url url) of (scheme, rest) \<Rightarrow>
        if take 2 rest = ''//'' then
          (let netloc = takeWhile netloc_char (drop 2 rest) in
           if (CHR ''['' \<in> set netloc) \<noteq> (CHR '']'' \<in> set netloc) then Inl (ValueError ''Invalid IPv6 URL'')
           else if CHR ''['' \<in> set netloc \<and> \<not> bracketed netloc then Inl (ValueError ''Invalid IPv6 URL'')
           else Inr \<lparr>url_scheme = scheme, url_netloc = netloc\<rparr>)
        else Inr \<lparr>url_scheme = scheme, url_netloc = []\<rparr>)"

text \<open>An address with a host part is written as scheme, \<open>://\<close>, host, and a rest that begins with none of
  the characters of a host.\<close>

lemma split_at: "c \<in> set s \<Longrightarrow> s = takeWhile (\<lambda>x. x \<noteq> c) s @ [c] @ drop (Suc (length (takeWhile (\<lambda>x. x \<noteq> c) s))) s"
  by (induction s) auto

lemma urlsplit_host:
  assumes "urlsplit bracketed url = Inr u" and "url_scheme u \<noteq> []" and "url_netloc u \<noteq> []"
  shows "\<exists>scheme rest. clean_url url = scheme @ ''://'' @ url_netloc u @ rest \<and> lower scheme = url_scheme u \<and>
    (rest = [] \<or> \<not> netloc_char (hd rest))"
proof -
  obtain sch rest where split: "split_scheme (clean_url url) = (sch, rest)" by fastforce
  have "take 2 rest = ''//''" and u: "url_scheme u = sch" "url_netloc u = takeWhile netloc_char (drop 2 rest)"
    using assms split by (auto simp: urlsplit_def Let_def split: if_splits)
  then have rest: "rest = ''//'' @ url_netloc u @ dropWhile netloc_char (drop 2 rest)"
    by (metis append_take_drop_id takeWhile_dropWhile_id)
  define prefix where "prefix = takeWhile (\<lambda>c. c \<noteq> CHR '':'') (clean_url url)"
  have colon: "CHR '':'' \<in> set (clean_url url)" and sch: "sch = lower prefix" "rest = drop (Suc (length prefix)) (clean_url url)"
    using split assms(2) u by (auto simp: split_scheme_def Let_def prefix_def split: if_splits)
  have "clean_url url = prefix @ '':'' @ rest"
    unfolding sch(2) prefix_def by (rule split_at [OF colon])
  then have "clean_url url = prefix @ ''://'' @ url_netloc u @ dropWhile netloc_char (drop 2 rest)"
    using rest by simp
  moreover have "dropWhile netloc_char (drop 2 rest) = [] \<or> \<not> netloc_char (hd (dropWhile netloc_char (drop 2 rest)))"
    using hd_dropWhile by blast
  ultimately show ?thesis
    using sch(1) u by (intro exI [of _ prefix] exI [of _ "dropWhile netloc_char (drop 2 rest)"]) simp
qed

section \<open>Forged requests\<close>

record request_headers =
  hdr_origin :: "string option"
  hdr_referer :: "string option"

definition supplied_url :: "request_headers \<Rightarrow> string option" where
  "supplied_url h = (if present (hdr_origin h) then hdr_origin h else hdr_referer h)"

definition require_same_origin ::
  "(string \<Rightarrow> bool) \<Rightarrow> request_headers \<Rightarrow> operator_identity \<Rightarrow> settings \<Rightarrow> py_error + unit" where
  "require_same_origin bracketed h identity cfg =
     (if present (supplied_url h) then
        bindR (urlsplit bracketed (the (supplied_url h))) (\<lambda>supplied.
        bindR (urlsplit bracketed (cfg_dashboard_url cfg)) (\<lambda>expected.
          if (url_scheme supplied, url_netloc supplied) = (url_scheme expected, url_netloc expected) then Inr ()
          else Inl (HTTPException 403 (DetailText ''cross-origin request''))))
      else if identity_mechanism identity = ApiKey then Inr ()
      else Inl (HTTPException 403 (DetailText ''same-origin browser request required'')))"

section \<open>Views\<close>

datatype message_kind = Success | Warning | Error

record change_list_view =
  view_scan :: "persisted_scan option"
  view_message :: "string option"
  view_kind :: message_kind

definition render_change_list ::
  "request_env \<Rightarrow> string option \<Rightarrow> message_kind \<Rightarrow> nat \<Rightarrow> (nat \<times> change_list_view) world_db" where
  "render_change_list rq message kind status_code =
     bindA (on_db (latest_persisted (env_collate (rq_scan rq)))) (\<lambda>scan.
       returnA (status_code, \<lparr>view_scan = scan, view_message = message, view_kind = kind\<rparr>))"

record dashboard_view =
  dash_scan :: "persisted_scan option"
  dash_recent :: "persisted_scan list"

definition dashboard_body :: "request_env \<Rightarrow> ((nat \<times> dashboard_view) \<times> tasks) world_db" where
  "dashboard_body rq =
     bindA (on_db (latest_persisted (env_collate (rq_scan rq)))) (\<lambda>scan.
     bindA (on_db (recent_scans (sql_scan_query_repository (env_collate (rq_scan rq))) 5)) (\<lambda>recent.
       returnA ((200, \<lparr>dash_scan = scan, dash_recent = recent\<rparr>), [])))"

section \<open>Actions\<close>

definition with_tasks :: "tasks \<Rightarrow> 'r world_db \<Rightarrow> ('r \<times> tasks) world_db" where
  "with_tasks ts m = bindA m (\<lambda>r. returnA (r, ts))"

definition dashboard_scan_refused ::
  "settings \<Rightarrow> request_env \<Rightarrow> string \<Rightarrow> py_error \<Rightarrow> ((nat \<times> change_list_view) \<times> tasks) world_db" where
  "dashboard_scan_refused cfg rq source_key exc =
     (case exc of
        ScanAlreadyRunning _ \<Rightarrow>
          with_tasks [] (render_change_list rq (Some ''A scan is already running. Try again shortly.'') Warning 409)
      | SourceNotFound _ \<Rightarrow>
          with_tasks [] (render_change_list rq (Some (''Source '' @ [CHR 0x27] @ source_key @ [CHR 0x27] @ '' is not registered.'')) Error 404)
      | _ \<Rightarrow>
          if source_failure exc then
            thenA commit_world (thenA (dispatcher_system_error cfg rq source_key)
              (with_tasks [] (render_change_list rq
                (Some ''Source database is unavailable. The failure was recorded.'') Error 503)))
          else raiseA exc)"

definition dashboard_scan_body ::
  "(string \<Rightarrow> bool) \<Rightarrow> settings \<Rightarrow> request_env \<Rightarrow> request_headers \<Rightarrow> string \<Rightarrow> operator_identity
     \<Rightarrow> ((nat \<times> change_list_view) \<times> tasks) world_db" where
  "dashboard_scan_body bracketed cfg rq h source_key identity =
     thenA (liftA (require_same_origin bracketed h identity cfg))
       (exceptA
         (bindA (request_run_scan cfg rq source_key) (\<lambda>report.
          thenA commit_world
            (with_tasks [dispatcher_scan cfg rq (report_scan_id report)]
              (render_change_list rq (Some (''Scan '' @ show_uuid (report_scan_id report) @ '' completed.'')) Success 200))))
         (dashboard_scan_refused cfg rq source_key))"

definition dashboard_scan_endpoint ::
  "(string \<Rightarrow> bool) \<Rightarrow> settings \<Rightarrow> request_env \<Rightarrow> request_headers \<Rightarrow> py_error + operator_identity \<Rightarrow> string \<Rightarrow> session \<times> world
     \<Rightarrow> change_list_view http_response \<times> (session \<times> world)" where
  "dashboard_scan_endpoint bracketed cfg rq h operator source_key =
     endpoint operator (valid_source_key source_key) (dashboard_scan_body bracketed cfg rq h source_key)"

definition dashboard_accept_body ::
  "(string \<Rightarrow> bool) \<Rightarrow> settings \<Rightarrow> request_env \<Rightarrow> request_headers \<Rightarrow> uuid \<Rightarrow> int \<Rightarrow> operator_identity
     \<Rightarrow> ((nat \<times> change_list_view) \<times> tasks) world_db" where
  "dashboard_accept_body bracketed cfg rq h change_id baseline_version identity =
     thenA (liftA (require_same_origin bracketed h identity cfg))
       (bindA
         (exceptA
           (bindA (on_db (accept (sql_change_repository (rq_now rq)) change_id baseline_version)) (\<lambda>result.
              returnA (''Accepted as baseline version '' @ show_int (accepted_version result) @ ''.'', Success, 200)))
           (\<lambda>exc. case exc of
              BaselineVersionConflict _ actual \<Rightarrow>
                returnA (''Baseline changed to version '' @ show_int actual @ ''. Refresh the page before accepting.'', Warning, 409)
            | ChangeNotFound _ \<Rightarrow>
                returnA (''This schema change no longer exists. Refresh the page.'', Error, 404)
            | _ \<Rightarrow> raiseA exc))
         (\<lambda>(message, kind, status_code). with_tasks [] (render_change_list rq (Some message) kind status_code)))"

definition dashboard_accept_endpoint ::
  "(string \<Rightarrow> bool) \<Rightarrow> settings \<Rightarrow> request_env \<Rightarrow> request_headers \<Rightarrow> py_error + operator_identity \<Rightarrow> uuid \<Rightarrow> int
     \<Rightarrow> session \<times> world \<Rightarrow> change_list_view http_response \<times> (session \<times> world)" where
  "dashboard_accept_endpoint bracketed cfg rq h operator change_id baseline_version =
     endpoint operator (valid_baseline_version baseline_version)
       (dashboard_accept_body bracketed cfg rq h change_id baseline_version)"

text \<open>The middleware of \<open>api/app.py\<close>: every response that the application returns gets two headers; for an
  exception that leaves the application, the server itself answers.\<close>

definition add_browser_security_headers :: "'r http_response \<Rightarrow> (string \<times> string) list \<Rightarrow> (string \<times> string) list" where
  "add_browser_security_headers resp headers =
     (case resp of
        ServerError \<Rightarrow> headers
      | _ \<Rightarrow> AList.update ''Content-Security-Policy'' (''frame-ancestors '' @ [CHR 0x27] @ ''none'' @ [CHR 0x27])
            (AList.update ''X-Frame-Options'' ''DENY'' headers))"

section \<open>The display of a type\<close>

text \<open>\<open>repr\<close> and \<open>str\<close> of a value that was read from a JSON column.\<close>

definition repr_char :: "nat \<Rightarrow> char \<Rightarrow> string" where
  "repr_char q c =
     (let n = code c in
      if n = q \<or> n = 92 then [backslash, c]
      else if n = 9 then [backslash, CHR ''t''] else if n = 10 then [backslash, CHR ''n'']
      else if n = 13 then [backslash, CHR ''r'']
      else if n < 32 \<or> 127 \<le> n \<and> n \<le> 160 \<or> n = 173 then
        [backslash, CHR ''x'', hex_digit (n div 16), hex_digit (n mod 16)]
      else [c])"

definition repr_str :: "string \<Rightarrow> string" where
  "repr_str s =
     (let q = if 39 \<in> code ` set s \<and> 34 \<notin> code ` set s then 34 else (39 :: nat)
      in [char_of q] @ concat (map (repr_char q) s) @ [char_of q])"

fun py_repr :: "json \<Rightarrow> string" where
  "py_repr JNull = ''None''"
| "py_repr (JBool b) = (if b then ''True'' else ''False'')"
| "py_repr (JInt i) = show_int i"
| "py_repr (JStr s) = repr_str s"
| "py_repr (JArr js) = ''['' @ join '', '' (map py_repr js) @ '']''"
| "py_repr (JObj kvs) = ''{'' @ join '', '' (map (\<lambda>(k, v). repr_str k @ '': '' @ py_repr v) kvs) @ ''}''"

definition py_str :: "json \<Rightarrow> string" where
  "py_str j = (case j of JStr s \<Rightarrow> s | _ \<Rightarrow> py_repr j)"

definition given :: "json option \<Rightarrow> bool" where
  "given v \<longleftrightarrow> v \<noteq> None \<and> v \<noteq> Some JNull"

definition column_type :: "json option \<Rightarrow> py_error + string" where
  "column_type snapshot =
     (case snapshot of
        None \<Rightarrow> Inr ''Not present''
      | Some v \<Rightarrow>
          if \<not> py_bool v then Inr ''Not present''
          else
            bindR (payload_get v ''data_type'') (\<lambda>data_type.
            let d = (case data_type of None \<Rightarrow> JObj [] | Some x \<Rightarrow> x) in
            bindR (payload_get d ''name'') (\<lambda>n.
            bindR (payload_get d ''length'') (\<lambda>length.
            bindR (payload_get d ''precision'') (\<lambda>precision.
            bindR (payload_get d ''scale'') (\<lambda>scale.
            let name = (case n of None \<Rightarrow> ''unknown'' | Some x \<Rightarrow> py_str x) in
            Inr (if given length then name @ ''('' @ py_str (the length) @ '')''
                 else if given precision \<and> given scale then name @ ''('' @ py_str (the precision) @ '','' @ py_str (the scale) @ '')''
                 else if given precision then name @ ''('' @ py_str (the precision) @ '')''
                 else name)))))))"

text \<open>The dashboard shows a stored column with the same text as the alert messages.\<close>

lemma column_type_canonical:
  "column_type (Some (column_canonical_dict c)) = Inr (render_type (col_type c))"
proof -
  have "payload_get (column_canonical_dict c) ''data_type'' = Inr (Some (type_canonical_dict (col_type c)))"
    by (simp add: payload_get_def column_canonical_dict_def)
  moreover have "py_bool (column_canonical_dict c)" by (simp add: column_canonical_dict_def)
  ultimately show ?thesis
    by (auto simp: column_type_def Let_def payload_get_def type_canonical_dict_def given_def json_int_opt_def py_str_def
        render_type_def split: option.splits)
qed

section \<open>Timestamps\<close>

text \<open>The fields of \<open>value.astimezone()\<close>; which they are depends on the time zone of the server, an argument. The
  text is that of \<open>strftime\<close> for years of four digits.\<close>

record local_time =
  lt_year :: nat
  lt_month :: nat
  lt_day :: nat
  lt_hour :: nat
  lt_minute :: nat
  lt_second :: nat
  lt_zone :: string

definition two_digits :: "nat \<Rightarrow> string" where
  "two_digits n = [digit_char (n div 10), digit_char (n mod 10)]"

definition timestamp :: "(time \<Rightarrow> local_time) \<Rightarrow> time option \<Rightarrow> ustring" where
  "timestamp astimezone value =
     (case value of
        None \<Rightarrow> [8212]
      | Some t \<Rightarrow>
          (let l = astimezone t in
           utext (show_nat (lt_year l) @ ''-'' @ two_digits (lt_month l) @ ''-'' @ two_digits (lt_day l) @ '' '' @
             two_digits (lt_hour l) @ '':'' @ two_digits (lt_minute l) @ '':'' @ two_digits (lt_second l) @ '' '' @ lt_zone l)))"

text \<open>The text shows every field: times that look the same agree to the second.\<close>

definition fields_ok :: "local_time \<Rightarrow> bool" where
  "fields_ok l \<longleftrightarrow> 1000 \<le> lt_year l \<and> lt_year l < 10000 \<and> lt_month l < 100 \<and> lt_day l < 100 \<and> lt_hour l < 100 \<and>
     lt_minute l < 100 \<and> lt_second l < 100"

lemma digit_char_inj: "m < 10 \<Longrightarrow> n < 10 \<Longrightarrow> digit_char m = digit_char n \<longleftrightarrow> m = n"
  by (metis add_left_cancel code_digit_char)

lemma two_digits_inj:
  assumes "m < 100" and "n < 100"
  shows "two_digits m = two_digits n \<longleftrightarrow> m = n"
proof -
  have "m div 10 < 10" "n div 10 < 10" using assms by simp_all
  then have "two_digits m = two_digits n \<longleftrightarrow> m div 10 = n div 10 \<and> m mod 10 = n mod 10"
    by (simp add: two_digits_def digit_char_inj)
  then show ?thesis by (metis div_mult_mod_eq)
qed

lemma length_show_nat: "length (show_nat n) = (if n < 10 then 1 else Suc (length (show_nat (n div 10))))"
  by (simp add: show_nat.simps [of n])

lemma length_year:
  assumes "1000 \<le> n" and "n < 10000"
  shows "length (show_nat n) = 4"
proof -
  have "\<not> n < 10" "\<not> n div 10 < 10" "\<not> n div 100 < 10" "n div 1000 < 10" using assms by simp_all
  then show ?thesis
    by (simp add: length_show_nat [of n] length_show_nat [of "n div 10"] length_show_nat [of "n div 100"]
        length_show_nat [of "n div 1000"] div_mult2_eq [symmetric])
qed

lemma timestamp_inj:
  assumes "timestamp zone (Some t) = timestamp zone (Some u)" and ok: "fields_ok (zone t)" "fields_ok (zone u)"
  shows "zone t = zone u"
proof -
  let ?text = "\<lambda>l. show_nat (lt_year l) @ ''-'' @ two_digits (lt_month l) @ ''-'' @ two_digits (lt_day l) @ '' '' @
    two_digits (lt_hour l) @ '':'' @ two_digits (lt_minute l) @ '':'' @ two_digits (lt_second l) @ '' '' @ lt_zone l"
  have "inj code" by (rule injI) (simp add: code_inj)
  moreover have "map code (?text (zone t)) = map code (?text (zone u))"
    using assms(1) by (simp only: timestamp_def utext_def option.case Let_def)
  ultimately have same: "?text (zone t) = ?text (zone u)" by (simp only: inj_map_eq_map)
  have "length (show_nat (lt_year (zone t))) = length (show_nat (lt_year (zone u)))"
    using ok by (simp add: fields_ok_def length_year)
  moreover have "length (two_digits m) = length (two_digits n)" for m n by (simp add: two_digits_def)
  ultimately have parts: "show_nat (lt_year (zone t)) = show_nat (lt_year (zone u))"
    "two_digits (lt_month (zone t)) = two_digits (lt_month (zone u))" "two_digits (lt_day (zone t)) = two_digits (lt_day (zone u))"
    "two_digits (lt_hour (zone t)) = two_digits (lt_hour (zone u))" "two_digits (lt_minute (zone t)) = two_digits (lt_minute (zone u))"
    "two_digits (lt_second (zone t)) = two_digits (lt_second (zone u))" "lt_zone (zone t) = lt_zone (zone u)"
    using same by (simp_all add: append_eq_append_conv)
  have "lt_year (zone t) = lt_year (zone u)"
    using parts(1) show_int_inj [of "int (lt_year (zone t))" "int (lt_year (zone u))"] by (simp add: show_int_def)
  then show ?thesis
    using parts(2-) ok by (intro local_time.equality) (simp_all add: fields_ok_def two_digits_inj)
qed

end
