(* ===== verification/DashboardRuns.thy ===== *)
theory DashboardRuns
  imports ScanRequests Dashboard
begin

text \<open>
  The two ways to ask for a scan, the API and the dashboard, do the same: the same transaction, the same
  notifications, and answers that correspond.
\<close>

lemma latest_total: "usable s \<Longrightarrow> \<exists>v. latest_persisted collate s = (Inr v, s)"
proof -
  assume us: "usable s"
  show ?thesis
  proof (cases "scans_newest_first (work s)")
    case Nil
    then show ?thesis by (simp add: latest_persisted_def bindA_def usable_run(2) [OF us])
  next
    case (Cons scan rest)
    then have "scan \<in> set (t_scans (work s))" using set_scans_newest [of "work s"] by auto
    then obtain src where "to_persisted collate scan True s = (Inr (persisted_of collate scan True src (work s)), s)"
      using to_persisted_run [OF us] by blast
    then show ?thesis by (simp add: latest_persisted_def bindA_def usable_run(2) [OF us] Cons)
  qed
qed

lemma render_returns:
  assumes "usable (fst sw)"
  obtains v where "with_tasks ts (render_change_list rq msg kind n) sw = (Inr ((n, v), ts), sw)"
proof -
  obtain p where "latest_persisted (env_collate (rq_scan rq)) (fst sw) = (Inr p, fst sw)"
    using latest_total [OF assms] by blast
  then have "on_db (latest_persisted (env_collate (rq_scan rq))) sw = (Inr p, sw)" by (cases sw) (simp add: on_db_def)
  then show thesis using that by (simp add: with_tasks_def render_change_list_def bindA_def)
qed

text \<open>How the outcome of the dashboard's action follows from the outcome of the API's body.\<close>

definition corresponds ::
  "(py_error + (nat \<times> scan_response) \<times> tasks) \<times> (session \<times> world)
     \<Rightarrow> (py_error + (nat \<times> change_list_view) \<times> tasks) \<times> (session \<times> world) \<Rightarrow> bool" where
  "corresponds api dash \<longleftrightarrow> snd dash = snd api \<and>
     (case fst api of
        Inr ((n, _), ts) \<Rightarrow> n = 201 \<and> (\<exists>v. fst dash = Inr ((200, v), ts))
      | Inl (HTTPException n _) \<Rightarrow> n \<noteq> 201 \<and> usable (fst (snd api)) \<and> (\<exists>v. fst dash = Inr ((n, v), []))
      | Inl e \<Rightarrow> fst dash = Inl e)"

lemma corresponds_raise: "inner_error e \<Longrightarrow> corresponds (Inl e, sw) (Inl e, sw)"
  by (cases e) (auto simp: corresponds_def)

lemma recorded_raise: "inner_error e \<Longrightarrow> \<not> source_failure e \<Longrightarrow> dashboard_scan_refused cfg rq key e = raiseA e"
  by (cases e) (auto simp: dashboard_scan_refused_def)

lemma dashboard_source_failure:
  "source_failure e \<Longrightarrow> dashboard_scan_refused cfg rq key e =
     thenA commit_world (thenA (dispatcher_system_error cfg rq key)
       (with_tasks [] (render_change_list rq (Some ''Source database is unavailable. The failure was recorded.'') Error 503)))"
  by (cases e) (auto simp: dashboard_scan_refused_def)

lemma bodies_correspond:
  assumes us: "usable s" and driver: "driver_like (rq_driver rq)"
    and origin: "require_same_origin bracketed h identity cfg = Inr ()"
  shows "corresponds (run_scan_body cfg rq key (s, w)) (dashboard_scan_body bracketed cfg rq h key identity (s, w))"
proof -
  obtain r t where scan: "scan_of_request cfg rq key s = (r, t)" by fastforce
  then have req: "request_run_scan cfg rq key (s, w) = (r, (t, w))"
    by (simp add: request_run_scan_def on_db_def)
  show ?thesis
  proof (cases r)
    case (Inr report)
    have ut: "usable t" using run_scan_usable scan Inr by (simp add: request_scan_repository_def)
    let ?sw = "(t\<lparr>durable := work t\<rparr>, w)" and ?ts = "[dispatcher_scan cfg rq (report_scan_id report)]"
    have "usable (fst ?sw)" using ut by (simp add: usable_def)
    then obtain v where v: "with_tasks ?ts
        (render_change_list rq (Some (''Scan '' @ show_uuid (report_scan_id report) @ '' completed.'')) Success 200) ?sw = (Inr ((200, v), ?ts), ?sw)"
      by (rule render_returns)
    show ?thesis
      using req Inr commit_done [OF ut, of w] v
      by (simp add: corresponds_def run_scan_body_def dashboard_scan_body_def origin exceptA_def bindA_def thenA_def)
  next
    case (Inl e)
    let ?a = "scan_refused cfg rq key e :: ((nat \<times> scan_response) \<times> tasks) world_db" and ?d = "dashboard_scan_refused cfg rq key e"
    have bodies: "run_scan_body cfg rq key (s, w) = ?a (t, w)"
      "dashboard_scan_body bracketed cfg rq h key identity (s, w) = ?d (t, w)"
      using req Inl by (simp_all add: run_scan_body_def dashboard_scan_body_def origin exceptA_def bindA_def thenA_def)
    have run: "run_scan (sql_scan_repository ((rq_scan rq)\<lparr>env_channels := enabled_channels cfg\<rparr>))
        (collect_source (rq_driver rq) (cfg_source_url cfg)) (rq_finished rq) (rq_failed rq) key MANUAL s = (Inl e, t)"
      using scan Inl by (simp add: request_scan_repository_def)
    have coll: "\<And>e'. collect_source (rq_driver rq) (cfg_source_url cfg) key = Inl e' \<Longrightarrow> inner_error e'"
      using collect_source_Inl [OF driver] driver_error_inner by blast
    have refusal: "corresponds (?a (t, w)) (?d (t, w))"
      if a: "?a = raiseA (HTTPException n d)" and d: "?d = with_tasks [] (render_change_list rq msg kind n)"
        and t: "t = s" and n: "n \<noteq> 201" for n d msg kind
    proof -
      have "usable (fst (t, w))" using us t by simp
      then obtain v where "?d (t, w) = (Inr ((n, v), []), (t, w))" unfolding d by (rule render_returns)
      then show ?thesis using a t n us by (simp add: corresponds_def)
    qed
    show ?thesis
      unfolding bodies
    proof (rule run_scan_ends [OF run us coll])
      assume e: "e = ScanAlreadyRunning key" and t: "t = s"
      have "?a = raiseA (HTTPException 409 (DetailText (error_text (ScanAlreadyRunning key))))"
        "?d = with_tasks [] (render_change_list rq (Some ''A scan is already running. Try again shortly.'') Warning 409)"
        by (simp_all add: e scan_refused_def dashboard_scan_refused_def)
      from refusal [OF this t] show "corresponds (?a (t, w)) (?d (t, w))" by simp
    next
      assume e: "e = SourceNotFound key" and t: "t = s"
      have "?a = raiseA (HTTPException 404 (DetailText (error_text (SourceNotFound key))))"
        "?d = with_tasks [] (render_change_list rq (Some (''Source '' @ [CHR 0x27] @ key @ [CHR 0x27] @ '' is not registered.'')) Error 404)"
        by (simp_all add: e scan_refused_def dashboard_scan_refused_def)
      from refusal [OF this t] show "corresponds (?a (t, w)) (?d (t, w))" by simp
    next
      fix i
      assume e: "inner_error e" and ut: "usable t"
      show "corresponds (?a (t, w)) (?d (t, w))"
      proof (cases "source_failure e")
        case False
        then have "?a = raiseA e" "?d = raiseA e" using inner_error_unhandled recorded_raise e by blast+
        then show ?thesis using corresponds_raise [OF e] by simp
      next
        case True
        let ?sw = "(t\<lparr>durable := work t\<rparr>, w)"
        obtain sw' where d: "dispatcher_system_error cfg rq key ?sw = (Inr (), sw')"
          by (simp add: dispatcher_system_error_def swallow_def)
        then have "usable (fst sw')"
          using dispatcher_system_error_only_deliveries [of ?sw cfg rq key] ut
          by (auto simp: only_deliveries_def usable_def declared_ok_def)
        then obtain v where "with_tasks [] (render_change_list rq
            (Some ''Source database is unavailable. The failure was recorded.'') Error 503) sw' = (Inr ((503, v), []), sw')"
          by (rule render_returns)
        then show ?thesis
          unfolding source_failure_handled [OF True] dashboard_source_failure [OF True]
          using commit_done [OF ut, of w] d \<open>usable (fst sw')\<close> by (simp add: corresponds_def thenA_def bindA_def)
      qed
    next
      assume "session_error e \<or> (\<exists>x. e = LookupError x)"
      from lost_error [OF this] have "?a = raiseA e" "?d = raiseA e" "inner_error e" using recorded_raise by blast+
      then show "corresponds (?a (t, w)) (?d (t, w))" using corresponds_raise by simp
    qed
  qed
qed

lemma dashboard_scan_left:
  assumes "run_scan_endpoint cfg rq (Inr identity) key (s, w) = (resp, sw')"
    and "require_same_origin bracketed h identity cfg = Inr ()"
    and "driver_like (rq_driver rq)" and "declared_ok (durable s)"
  shows "\<exists>view. dashboard_scan_endpoint bracketed cfg rq h (Inr identity) key (s, w) = (view, sw') \<and>
    http_status view = (if http_status resp = 201 then 200 else http_status resp)"
proof (cases "valid_source_key key")
  case False
  then show ?thesis using assms(1) by (auto simp: run_scan_endpoint_def dashboard_scan_endpoint_def endpoint_def)
next
  case True
  have us: "usable (rollback s)" using assms(4) by (simp add: usable_def rollback_def declared_ok_def)
  obtain a sw1 where a: "run_scan_body cfg rq key (rollback s, w) = (a, sw1)" by (rule prod.exhaust)
  obtain d sw2 where d: "dashboard_scan_body bracketed cfg rq h key identity (rollback s, w) = (d, sw2)" by (rule prod.exhaust)
  have c: "corresponds (a, sw1) (d, sw2)" using bodies_correspond [OF us assms(3,2), of key w] a d by simp
  have api: "(case database_session (run_scan_body cfg rq key) (s, w) of (r, sw') \<Rightarrow> (response_of r, sw')) = (resp, sw')"
    using assms(1) True by (simp add: run_scan_endpoint_def endpoint_def)
  have dash: "dashboard_scan_endpoint bracketed cfg rq h (Inr identity) key (s, w) =
      (case database_session (dashboard_scan_body bracketed cfg rq h key identity) (s, w) of (r, sw') \<Rightarrow> (response_of r, sw'))"
    using True by (simp add: dashboard_scan_endpoint_def endpoint_def)
  show ?thesis
  proof (cases a)
    case (Inr x)
    then obtain b ts v where "a = Inr ((201, b), ts)" "d = Inr ((200, v), ts)" "sw2 = sw1"
      using c by (cases x) (auto simp: corresponds_def)
    then show ?thesis using api a d unfolding dash by (auto simp: database_session_def close_session_def)
  next
    case (Inl e)
    show ?thesis
    proof (cases "\<exists>n dt. e = HTTPException n dt")
      case True
      then obtain n dt v where "e = HTTPException n dt" "d = Inr ((n, v), [])" "sw2 = sw1" "usable (fst sw1)" "n \<noteq> 201"
        using c Inl by (auto simp: corresponds_def)
      moreover obtain sw3 where "commit_world sw1 = (Inr (), sw3)" using calculation(4) commit_world_eq by blast
      ultimately show ?thesis using api a d Inl unfolding dash by (auto simp: database_session_def close_session_def)
    next
      case False
      then have "d = Inl e" "sw2 = sw1" "\<not> is_http_exception e" using c Inl by (cases e; auto simp: corresponds_def)+
      then show ?thesis using api a d Inl unfolding dash
        by (auto simp: database_session_def close_session_def unhandled_response)
    qed
  qed
qed

text \<open>C21. The dashboard and the API are two faces of one scan: an action of the dashboard that passes the
  check of its origin leaves exactly the same behind as the request to the API, committed tables, messages sent
  and all, and its answer has the same status, with 200 in place of 201.\<close>

theorem dashboard_scan_as_api:
  assumes "run_scan_endpoint cfg rq (Inr identity) key (s, w) = (resp, sw')"
    and "require_same_origin bracketed h identity cfg = Inr ()"
    and "driver_like (rq_driver rq)" and "declared_ok (durable s)"
  shows "\<exists>view. dashboard_scan_endpoint bracketed cfg rq h (Inr identity) key (s, w) = (view, sw') \<and>
    http_status view = (if http_status resp = 201 then 200 else http_status resp)"
  by (rule dashboard_scan_left [OF assms])

section \<open>An example\<close>

definition sample_headers :: request_headers where
  "sample_headers = \<lparr>hdr_origin = None, hdr_referer = Some ''HTTP://localhost:8000/?tab=1''\<rparr>"

definition sample_browser :: operator_identity where
  "sample_browser = \<lparr>identity_subject = ''owner'', identity_mechanism = Proxy\<rparr>"

lemma sample_home: "urlsplit (\<lambda>_. True) (cfg_dashboard_url sample_settings) = Inr \<lparr>url_scheme = ''http'', url_netloc = ''localhost:8000''\<rparr>"
  by code_simp

lemma sample_origin: "require_same_origin (\<lambda>_. True) sample_headers identity sample_settings = Inr ()"
proof -
  have "urlsplit (\<lambda>_. True) ''HTTP://localhost:8000/?tab=1'' = Inr \<lparr>url_scheme = ''http'', url_netloc = ''localhost:8000''\<rparr>"
    by code_simp
  then show ?thesis by (simp add: require_same_origin_def supplied_url_def present_def sample_headers_def sample_home)
qed

theorem dashboard_scan_as_api_witness:
  "\<exists>view sw'. dashboard_scan_endpoint (\<lambda>_. True) sample_settings sample_rq sample_headers (Inr sample_browser) ''warehouse''
      (sample_session, []) = (view, sw') \<and> http_status view = 200"
proof -
  obtain body sw' where run: "run_scan_endpoint sample_settings sample_rq (Inr sample_browser) ''warehouse'' (sample_session, []) = (Answer 201 body, sw')"
    using sample_request_by [of sample_outside sample_browser, unfolded same_outside] by blast
  from dashboard_scan_as_api [OF run sample_origin sample_driver_like sample_declared_ok] show ?thesis by auto
qed

end
