(* ===== verification/Access.thy ===== *)
theory Access
  imports DashboardRuns
begin

text \<open>
  Who can make the application do something: which requests have an effect at all, what a request with an
  effect has shown, and what protects the actions of the dashboard from requests that another site forges.
\<close>

section \<open>Effects\<close>

definition effect :: "session \<times> world \<Rightarrow> session \<times> world \<Rightarrow> bool" where
  "effect sw sw' \<longleftrightarrow> committed sw' \<noteq> committed sw \<or> snd sw' \<noteq> snd sw"

lemma effect_closed [simp]: "\<not> effect sw (close_session sw)" "\<not> effect sw sw"
  by (simp_all add: effect_def close_session_def rollback_def)

text \<open>A body that only reads, or stops before it has changed anything, has no effect.\<close>

definition read_left :: "session \<times> world \<Rightarrow> session \<times> world \<Rightarrow> bool" where
  "read_left sw sw' \<longleftrightarrow> committed sw' = committed sw \<and> snd sw' = snd sw \<and> (poisoned (fst sw) \<longrightarrow> poisoned (fst sw')) \<and>
     (\<not> poisoned (fst sw') \<longrightarrow> work (fst sw') = work (fst sw)) \<and>
     (work (fst sw) = committed sw \<longrightarrow> work (fst sw') = committed sw)"

lemma read_left_refl [simp]: "read_left sw sw"
  by (simp add: read_left_def)

lemma read_left_trans: "read_left sw sw1 \<Longrightarrow> read_left sw1 sw2 \<Longrightarrow> read_left sw sw2"
  unfolding read_left_def by metis

definition reads_only :: "'a world_db \<Rightarrow> bool" where
  "reads_only m \<longleftrightarrow> (\<forall>sw. read_left sw (snd (m sw)))"

lemma reads_onlyD: "reads_only m \<Longrightarrow> m sw = (r, sw') \<Longrightarrow> read_left sw sw'"
  unfolding reads_only_def by (metis snd_conv)

lemma reads_only_basic:
  "reads_only (returnA x)" "reads_only (raiseA e)" "reads_only (liftA r)"
  by (simp_all add: reads_only_def)

lemma reads_only_bindA:
  assumes "reads_only m" and "\<And>x. reads_only (f x)"
  shows "reads_only (bindA m f)"
  unfolding reads_only_def
proof
  fix sw :: "session \<times> world"
  obtain r sw1 where m: "m sw = (r, sw1)" by (rule prod.exhaust)
  show "read_left sw (snd (bindA m f sw))"
  proof (cases r)
    case (Inl e)
    then show ?thesis using m reads_onlyD [OF assms(1) m] by (simp add: bindA_def)
  next
    case (Inr x)
    then have "bindA m f sw = f x sw1" using m by (simp add: bindA_def)
    then show ?thesis using read_left_trans [OF reads_onlyD [OF assms(1) m]] assms(2) [of x] unfolding reads_only_def by metis
  qed
qed

lemma reads_only_exceptA:
  assumes "reads_only m" and "\<And>e. reads_only (h e)"
  shows "reads_only (exceptA m h)"
  unfolding reads_only_def
proof
  fix sw :: "session \<times> world"
  obtain r sw1 where m: "m sw = (r, sw1)" by (rule prod.exhaust)
  show "read_left sw (snd (exceptA m h sw))"
  proof (cases r)
    case (Inr x)
    then show ?thesis using m reads_onlyD [OF assms(1) m] by (simp add: exceptA_def)
  next
    case (Inl e)
    then have "exceptA m h sw = h e sw1" using m by (simp add: exceptA_def)
    then show ?thesis using read_left_trans [OF reads_onlyD [OF assms(1) m]] assms(2) [of e] unfolding reads_only_def by metis
  qed
qed

lemma reads_only_query: "reads_only (on_db (query f))"
  by (auto simp: reads_only_def read_left_def on_db_def query_def thenA_def bindA_def flush_def split: prod.split)

lemma on_db_bindA: "on_db (bindA m f) = bindA (on_db m) (\<lambda>x. on_db (f x))"
  by (auto simp: on_db_def bindA_def fun_eq_iff split: prod.splits sum.splits)

lemma on_db_basic: "on_db (returnA x) = returnA x" "on_db (raiseA e) = raiseA e" "on_db (liftA r) = liftA r"
  by (auto simp: on_db_def fun_eq_iff)

lemma reads_only_forA: "(\<And>x a. reads_only (on_db (f x a))) \<Longrightarrow> reads_only (on_db (forA xs a f))"
  by (induction xs arbitrary: a) (auto simp: on_db_basic on_db_bindA intro!: reads_only_basic reads_only_bindA)

lemmas reads_only_rules = reads_only_basic reads_only_bindA reads_only_exceptA reads_only_query

lemma reads_only_persisted: "reads_only (on_db (to_persisted collate scan current))"
  unfolding to_persisted_def Let_def on_db_bindA on_db_basic
  by (intro reads_only_rules; (auto simp: on_db_basic on_db_bindA split: option.split intro!: reads_only_rules)?)

lemma reads_only_latest: "reads_only (on_db (latest_persisted collate))"
  unfolding latest_persisted_def on_db_bindA
  by (intro reads_only_rules) (auto simp: on_db_basic on_db_bindA split: list.split intro!: reads_only_rules reads_only_persisted)

lemma reads_only_get: "reads_only (on_db (get_persisted collate i))"
  unfolding get_persisted_def on_db_bindA
  by (intro reads_only_rules) (auto simp: on_db_basic on_db_bindA split: option.split intro!: reads_only_rules reads_only_persisted)

lemma reads_only_recent: "reads_only (on_db (recent_scans (sql_scan_query_repository collate) n))"
  unfolding recent_scans_def sql_scan_query_repository_def recent_persisted_def append_persisted_def
  by (auto simp: on_db_basic on_db_bindA intro!: reads_only_rules reads_only_forA reads_only_persisted)

lemma reads_only_validate: "reads_only (on_db (validate_pipeline sql_validation_repository key))"
  unfolding validate_pipeline_def sql_validation_repository_def list_open_breaking_changes_for_pipeline_def Let_def
  by (auto simp: on_db_basic on_db_bindA split: option.split intro!: reads_only_rules)

lemma commit_closed:
  assumes "work (fst sw) = committed sw"
  shows "committed (snd (commit_world sw)) = committed sw \<and> snd (snd (commit_world sw)) = snd sw"
  using assms by (cases sw) (auto simp: commit_world_def on_db_def commit_def thenA_def bindA_def flush_def)

text \<open>What a body leaves when it reads only and queues no task.\<close>

lemma database_session_reads:
  assumes "reads_only body" and "\<And>sw x ts sw'. body sw = (Inr (x, ts), sw') \<Longrightarrow> ts = []"
  shows "\<not> effect sw (snd (database_session body sw))"
proof -
  let ?sw = "close_session sw"
  obtain r sw1 where b: "body ?sw = (r, sw1)" by (rule prod.exhaust)
  have "work (fst ?sw) = committed ?sw" "committed ?sw = committed sw" "snd ?sw = snd sw"
    by (simp_all add: close_session_def rollback_def)
  then have 1: "committed sw1 = committed sw" "snd sw1 = snd sw" "work (fst sw1) = committed sw1"
    using reads_onlyD [OF assms(1) b] by (simp_all add: read_left_def)
  obtain q sw2 where c: "commit_world sw1 = (q, sw2)" by (rule prod.exhaust)
  have 2: "committed sw2 = committed sw" "snd sw2 = snd sw" using commit_closed [OF 1(3)] c 1 by simp_all
  show ?thesis
  proof (cases r)
    case (Inl e)
    then show ?thesis
      using b c 1 2 by (auto simp: database_session_def effect_def close_session_def rollback_def split: sum.split)
  next
    case (Inr y)
    then obtain x where "r = Inr (x, [])" using assms(2) b by (metis surj_pair)
    then show ?thesis using b c 2 by (simp add: database_session_def effect_def close_session_def rollback_def)
  qed
qed

lemma snd_respond [simp]: "snd (case m of (r, sw') \<Rightarrow> (response_of r, sw')) = snd m"
  by (cases m) simp

lemma scan_detail_reads:
  assumes "reads_only (on_db lookup)"
  shows "\<not> effect sw (snd (database_session (scan_detail_or_404 lookup) sw))"
proof (rule database_session_reads)
  show "reads_only (scan_detail_or_404 lookup)"
    unfolding scan_detail_or_404_def by (auto intro!: reads_only_rules assms split: option.split)
qed (auto simp: scan_detail_or_404_def bindA_eq_Inr split: option.splits)

lemma dashboard_reads: "\<not> effect sw (snd (database_session (dashboard_body rq) sw))"
proof (rule database_session_reads)
  show "reads_only (dashboard_body rq)"
    unfolding dashboard_body_def by (intro reads_only_rules reads_only_latest reads_only_recent)
qed (auto simp: dashboard_body_def bindA_eq_Inr)

lemma validation_reads: "\<not> effect sw (snd (validate_pipeline_endpoint operator key sw))"
proof -
  have "reads_only (validate_pipeline_body key)"
    unfolding validate_pipeline_body_def by (auto intro!: reads_only_rules reads_only_validate)
  then have "\<not> effect sw (snd (database_session (validate_pipeline_body key) sw))"
    by (rule database_session_reads) (auto simp: validate_pipeline_body_def bindA_eq_Inr)
  then show ?thesis
    by (cases operator) (simp_all add: validate_pipeline_endpoint_def endpoint_def)
qed

end
