(* ===== verification/App.thy ===== *)
theory App
  imports Access
begin

text \<open>
  \<open>api/app.py\<close>: the application with its routes, as one function that serves a request with the credentials
  it carries, and the states that any history of requests can reach.
\<close>

section \<open>Requests\<close>

datatype request =
    Dashboard
  | DashboardScan request_headers string
  | DashboardAccept request_headers uuid int
  | Live
  | Ready bool
  | RunScan string
  | LatestScan
  | GetScan uuid
  | AcceptChange uuid int
  | ValidatePipeline string
  | RetryDelivery uuid

record credentials =
  cred_api_key :: "string option"
  cred_user :: "string option"

definition answer :: "'r http_response \<times> (session \<times> world) \<Rightarrow> nat \<times> (session \<times> world)" where
  "answer rs = (http_status (fst rs), snd rs)"

definition serve ::
  "(string \<Rightarrow> bool) \<Rightarrow> settings \<Rightarrow> request_env \<Rightarrow> credentials \<Rightarrow> request \<Rightarrow> session \<times> world \<Rightarrow> nat \<times> (session \<times> world)" where
  "serve bracketed cfg rq cred request sw =
     (let operator = require_operator cfg (cred_api_key cred) (cred_user cred) in
      case request of
        Dashboard \<Rightarrow> answer (case database_session (dashboard_body rq) sw of (r, sw') \<Rightarrow> (response_of r, sw'))
      | DashboardScan h key \<Rightarrow> answer (dashboard_scan_endpoint bracketed cfg rq h operator key sw)
      | DashboardAccept h i v \<Rightarrow> answer (dashboard_accept_endpoint bracketed cfg rq h operator i v sw)
      | Live \<Rightarrow> (200, sw)
      | Ready migrated \<Rightarrow> (fst (readiness migrated), close_session sw)
      | RunScan key \<Rightarrow> answer (run_scan_endpoint cfg rq operator key sw)
      | LatestScan \<Rightarrow> answer (latest_scan_endpoint rq sw)
      | GetScan i \<Rightarrow> answer (get_scan_endpoint rq i sw)
      | AcceptChange i v \<Rightarrow> answer (accept_change_endpoint rq operator i v sw)
      | ValidatePipeline key \<Rightarrow> answer (validate_pipeline_endpoint operator key sw)
      | RetryDelivery i \<Rightarrow> answer (retry_delivery_endpoint cfg rq operator i sw))"

section \<open>Credentials\<close>

fun changes_state :: "request \<Rightarrow> bool" where
  "changes_state (DashboardScan _ _) = True"
| "changes_state (DashboardAccept _ _ _) = True"
| "changes_state (RunScan _) = True"
| "changes_state (AcceptChange _ _) = True"
| "changes_state (RetryDelivery _) = True"
| "changes_state _ = False"

lemma effect_needs_operator:
  assumes "effect sw (snd (endpoint (require_operator cfg api_key user) valid body sw))"
  shows "\<exists>identity. require_operator cfg api_key user = Inr identity"
  using assms by (auto simp: endpoint_def split: sum.splits)

lemma snd_answer [simp]: "snd (answer rs) = snd rs"
  by (simp add: answer_def)

lemma reads_have_no_effect:
  assumes "\<not> changes_state request"
  shows "\<not> effect sw (snd (serve bracketed cfg rq cred request sw))"
  using assms scan_detail_reads [OF reads_only_latest] scan_detail_reads [OF reads_only_get]
  by (cases request)
    (simp_all add: serve_def latest_scan_endpoint_def get_scan_endpoint_def dashboard_reads validation_reads)

text \<open>C12. A request has an effect, on what is committed or on the outside, only if it is one of the five
  that scan, accept or retry, and only with a credential: the API key, which is not empty; a user vouched for by
  a proxy that is trusted; or a development system with authentication switched off.\<close>

theorem effects_need_credential:
  assumes "effect sw (snd (serve bracketed cfg rq cred request sw))"
  shows "changes_state request \<and>
    (cred_api_key cred = Some (cfg_api_key cfg) \<and> cfg_api_key cfg \<noteq> [] \<or>
     cfg_trust_proxy cfg \<and> present (cred_user cred) \<or>
     cfg_environment cfg = Development \<and> cfg_auth_disabled cfg)"
proof
  show c: "changes_state request" using assms reads_have_no_effect by blast
  have "\<exists>identity. require_operator cfg (cred_api_key cred) (cred_user cred) = Inr identity"
    using assms c
    by (cases request)
      (auto simp: serve_def run_scan_endpoint_def accept_change_endpoint_def retry_delivery_endpoint_def
        dashboard_scan_endpoint_def dashboard_accept_endpoint_def dest: effect_needs_operator)
  then obtain identity where "require_operator cfg (cred_api_key cred) (cred_user cred) = Inr identity" ..
  from operator_credential [OF this]
  show "cred_api_key cred = Some (cfg_api_key cfg) \<and> cfg_api_key cfg \<noteq> [] \<or>
     cfg_trust_proxy cfg \<and> present (cred_user cred) \<or>
     cfg_environment cfg = Development \<and> cfg_auth_disabled cfg"
    by (cases "identity_mechanism identity") (auto simp: present_def)
qed

section \<open>Forged requests\<close>

lemma database_session_refused:
  assumes "body (close_session sw) = (Inl e, close_session sw)"
  shows "\<not> effect sw (snd (database_session body sw))"
proof -
  obtain q sw2 where c: "commit_world (close_session sw) = (q, sw2)" by (rule prod.exhaust)
  have "committed sw2 = committed sw" "snd sw2 = snd sw"
    using commit_closed [of "close_session sw"] c by (simp_all add: close_session_def rollback_def)
  then show ?thesis
    using assms c by (auto simp: database_session_def effect_def close_session_def rollback_def split: sum.split)
qed

lemma same_origin_required:
  assumes "effect sw (snd (database_session (thenA (liftA (require_same_origin bracketed h identity cfg)) m) sw))"
  shows "require_same_origin bracketed h identity cfg = Inr ()"
proof (rule ccontr)
  assume "require_same_origin bracketed h identity cfg \<noteq> Inr ()"
  then obtain e where "require_same_origin bracketed h identity cfg = Inl e" by (metis old.unit.exhaust sum.exhaust)
  then have "thenA (liftA (require_same_origin bracketed h identity cfg)) m (close_session sw) = (Inl e, close_session sw)"
    by (simp add: thenA_def bindA_def)
  then show False using assms database_session_refused by blast
qed

fun browser_action :: "request \<Rightarrow> request_headers option" where
  "browser_action (DashboardScan h _) = Some h"
| "browser_action (DashboardAccept h _ _) = Some h"
| "browser_action _ = None"

text \<open>C22. A browser cannot be made to act through the dashboard by another site: an action of the dashboard
  without the API key has an effect only if the address in its \<open>Origin\<close> header, or in its \<open>Referer\<close> when there
  is none, is an address of the dashboard: its scheme, \<open>://\<close>, its host and port, and then the end, a path, a
  query or a fragment.\<close>

theorem dashboard_same_origin:
  assumes "effect sw (snd (serve bracketed cfg rq cred request sw))"
    and "browser_action request = Some h" and "cred_api_key cred \<noteq> Some (cfg_api_key cfg)"
    and "urlsplit bracketed (cfg_dashboard_url cfg) = Inr home" and "url_scheme home \<noteq> []" and "url_netloc home \<noteq> []"
  shows "\<exists>url scheme rest. (if present (hdr_origin h) then hdr_origin h else hdr_referer h) = Some url \<and>
    clean_url url = scheme @ ''://'' @ url_netloc home @ rest \<and> lower scheme = url_scheme home \<and>
    (rest = [] \<or> hd rest \<in> {CHR ''/'', CHR ''?'', CHR ''#''})"
proof -
  have "\<exists>identity. require_operator cfg (cred_api_key cred) (cred_user cred) = Inr identity \<and>
      require_same_origin bracketed h identity cfg = Inr ()"
    using assms(1,2)
    by (cases request)
      (auto simp: serve_def dashboard_scan_endpoint_def dashboard_accept_endpoint_def endpoint_def
        dashboard_scan_body_def dashboard_accept_body_def Let_def dest: same_origin_required split: sum.splits if_splits)
  then obtain identity where id: "require_operator cfg (cred_api_key cred) (cred_user cred) = Inr identity"
    and origin: "require_same_origin bracketed h identity cfg = Inr ()" by blast
  have "identity_mechanism identity \<noteq> ApiKey" using operator_credential [OF id] assms(3) by auto
  then obtain url u where url: "supplied_url h = Some url" "urlsplit bracketed url = Inr u"
    "url_scheme u = url_scheme home" "url_netloc u = url_netloc home"
    using origin assms(4)
    by (auto simp: require_same_origin_def present_def bindR_eq_Inr split: if_splits option.splits)
  obtain scheme rest where "clean_url url = scheme @ ''://'' @ url_netloc u @ rest" "lower scheme = url_scheme u"
    "rest = [] \<or> \<not> netloc_char (hd rest)"
    using urlsplit_host [OF url(2)] url(3,4) assms(5,6) by auto
  then show ?thesis
    using url(1) unfolding supplied_url_def url(4) url(3) netloc_char_def
    by (intro exI [of _ url] exI [of _ scheme] exI [of _ rest]) simp
qed

section \<open>Examples\<close>

lemma sample_effect:
  "\<exists>resp s' w'. run_scan_endpoint sample_settings sample_rq (Inr identity) ''warehouse'' (sample_session, []) = (resp, (s', w')) \<and>
     effect (sample_session, []) (s', w')"
proof -
  obtain resp s' w' where run: "run_scan_endpoint sample_settings sample_rq (Inr identity) ''warehouse'' (sample_session, []) = (resp, (s', w'))"
    and status: "committed_status (durable s') 10 = Some COMPLETED"
    using sample_request_by [of sample_outside identity, unfolded same_outside] by blast
  have "committed_status (durable sample_session) 10 = None"
    by (simp add: committed_status_def sample_session_def fresh_session_def sample_tables_def)
  then have "durable s' \<noteq> durable sample_session" using status by auto
  then show ?thesis using run by (auto simp: effect_def)
qed

lemma sample_key: "require_operator sample_settings (Some ''key'') None = Inr sample_operator"
  by (simp add: require_operator_def sample_settings_def default_settings_def present_def compare_digest_def is_ascii_def
      code_def sample_operator_def)

lemma sample_proxy: "require_operator sample_settings None (Some ''owner'') = Inr sample_browser"
  by (simp add: require_operator_def sample_settings_def default_settings_def present_def proxy_operator_def sample_browser_def)

theorem effects_need_credential_witness:
  "effect (sample_session, []) (snd (serve (\<lambda>_. True) sample_settings sample_rq \<lparr>cred_api_key = Some ''key'', cred_user = None\<rparr>
     (RunScan ''warehouse'') (sample_session, []))) \<and> cfg_api_key sample_settings \<noteq> []"
proof -
  obtain resp s' w' where run: "run_scan_endpoint sample_settings sample_rq (Inr sample_operator) ''warehouse'' (sample_session, []) = (resp, (s', w'))"
    and e: "effect (sample_session, []) (s', w')"
    using sample_effect by blast
  then have "effect (sample_session, []) (snd (serve (\<lambda>_. True) sample_settings sample_rq \<lparr>cred_api_key = Some ''key'', cred_user = None\<rparr>
     (RunScan ''warehouse'') (sample_session, [])))" by (simp add: serve_def sample_key)
  from effects_need_credential [OF this] this show ?thesis
    by (auto simp: sample_settings_def default_settings_def present_def)
qed

lemma sample_dashboard_effect:
  "effect (sample_session, []) (snd (serve (\<lambda>_. True) sample_settings sample_rq \<lparr>cred_api_key = None, cred_user = Some ''owner''\<rparr>
     (DashboardScan sample_headers ''warehouse'') (sample_session, [])))"
proof -
  obtain resp s' w' where run: "run_scan_endpoint sample_settings sample_rq (Inr sample_browser) ''warehouse'' (sample_session, []) = (resp, (s', w'))"
    and e: "effect (sample_session, []) (s', w')"
    using sample_effect by blast
  obtain view where "dashboard_scan_endpoint (\<lambda>_. True) sample_settings sample_rq sample_headers (Inr sample_browser) ''warehouse''
      (sample_session, []) = (view, (s', w'))"
    using dashboard_scan_left [OF run sample_origin sample_driver_like sample_declared_ok] by blast
  then show ?thesis using e by (simp add: serve_def sample_proxy)
qed

theorem dashboard_same_origin_witness:
  "\<exists>url scheme rest. hdr_referer sample_headers = Some url \<and> clean_url url = scheme @ ''://localhost:8000'' @ rest \<and>
     lower scheme = ''http''"
proof -
  have "\<exists>url scheme rest. (if present (hdr_origin sample_headers) then hdr_origin sample_headers else hdr_referer sample_headers) = Some url \<and>
    clean_url url = scheme @ ''://'' @ url_netloc \<lparr>url_scheme = ''http'', url_netloc = ''localhost:8000''\<rparr> @ rest \<and>
    lower scheme = url_scheme \<lparr>url_scheme = ''http'', url_netloc = ''localhost:8000''\<rparr> \<and>
    (rest = [] \<or> hd rest \<in> {CHR ''/'', CHR ''?'', CHR ''#''})"
    by (rule dashboard_same_origin [OF sample_dashboard_effect _ _ sample_home])
      (simp_all add: sample_settings_def default_settings_def)
  then show ?thesis by (auto simp: present_def sample_headers_def)
qed

end
