(* ===== verification/CatalogService.thy ===== *)
theory CatalogService
  imports Lineage Json
begin

text \<open>
  \<open>application/catalog_service.py\<close>: the catalog of pipelines, its validation, and the synchronisation
  of the stored lineage with it, written against the persistence port. Reading the file, parsing
  YAML and checking its shape against the declared field types is done by libraries: \<open>loader\<close>
  stands for it and yields the fields as they are in the file, with the criticality still
  unchecked; \<open>explain\<close> is the text of the library's validation error.
\<close>

section \<open>The catalog file\<close>

record column_set_config =
  cs_dataset :: string
  cs_columns :: "string list"

record 'c pipeline_config =
  pcfg_key :: string
  pcfg_dag :: string
  pcfg_owner :: string
  pcfg_criticality :: 'c
  pcfg_inputs :: "column_set_config list"
  pcfg_outputs :: "column_set_config list"

type_synonym 'c catalog_config = "'c pipeline_config list"

definition validate_dataset_name :: "string \<Rightarrow> bool" where
  "validate_dataset_name v =
     (let parts = split_on (CHR ''.'') v in length parts = 2 \<and> list_all (\<lambda>p. p \<noteq> []) parts)"

definition validate_unique_columns :: "string list \<Rightarrow> bool" where
  "validate_unique_columns v \<longleftrightarrow> length v = card (set v)"

definition valid_column_set :: "column_set_config \<Rightarrow> bool" where
  "valid_column_set c \<longleftrightarrow>
     validate_dataset_name (cs_dataset c) \<and> cs_columns c \<noteq> [] \<and> validate_unique_columns (cs_columns c)"

text \<open>\<open>str.upper\<close> on the characters of the model; the sharp s becomes two letters, and U+00B5 and
  U+00FF, whose upper case lies outside of it, occur in no value that is compared.\<close>

definition upper_char :: "char \<Rightarrow> string" where
  "upper_char c =
     (let n = code c in
      if 97 \<le> n \<and> n \<le> 122 \<or> 224 \<le> n \<and> n \<le> 254 \<and> n \<noteq> 247 then [char_of (n - 32)]
      else if n = 223 then ''SS'' else [c])"

definition upper :: "string \<Rightarrow> string" where
  "upper s = concat (map upper_char s)"

definition normalize_criticality :: "json \<Rightarrow> json" where
  "normalize_criticality v = (case v of JStr s \<Rightarrow> JStr (upper s) | _ \<Rightarrow> v)"

definition criticality_of_json :: "json \<Rightarrow> criticality option" where
  "criticality_of_json v = (case v of
       JStr s \<Rightarrow> List.find (\<lambda>c. criticality_value c = s) [LOW, MEDIUM, HIGH, CRITICAL]
     | _ \<Rightarrow> None)"

definition validate_pipeline_config :: "json pipeline_config \<Rightarrow> criticality pipeline_config option" where
  "validate_pipeline_config p =
     (case criticality_of_json (normalize_criticality (pcfg_criticality p)) of
        None \<Rightarrow> None
      | Some c \<Rightarrow>
          if pcfg_key p \<noteq> [] \<and> pcfg_dag p \<noteq> [] \<and> pcfg_owner p \<noteq> [] \<and> pcfg_inputs p \<noteq> [] \<and> pcfg_outputs p \<noteq> [] \<and>
             list_all valid_column_set (pcfg_inputs p) \<and> list_all valid_column_set (pcfg_outputs p)
          then Some \<lparr>pcfg_key = pcfg_key p, pcfg_dag = pcfg_dag p, pcfg_owner = pcfg_owner p, pcfg_criticality = c,
                     pcfg_inputs = pcfg_inputs p, pcfg_outputs = pcfg_outputs p\<rparr>
          else None)"

fun validate_all :: "json catalog_config \<Rightarrow> criticality catalog_config option" where
  "validate_all [] = Some []"
| "validate_all (p # ps) = (case (validate_pipeline_config p, validate_all ps) of
       (Some q, Some qs) \<Rightarrow> Some (q # qs)
     | _ \<Rightarrow> None)"

definition validate_pipeline_identity :: "criticality catalog_config \<Rightarrow> bool" where
  "validate_pipeline_identity ps \<longleftrightarrow>
     length ps = card (set (map pcfg_key ps)) \<and> length ps = card (set (map pcfg_dag ps))"

definition validate_catalog :: "json catalog_config \<Rightarrow> criticality catalog_config option" where
  "validate_catalog raw = (case validate_all raw of
       None \<Rightarrow> None
     | Some ps \<Rightarrow> if ps \<noteq> [] \<and> validate_pipeline_identity ps then Some ps else None)"

type_synonym loader = "string \<Rightarrow> py_error + json catalog_config"

definition load_catalog :: "loader \<Rightarrow> (json catalog_config \<Rightarrow> string) \<Rightarrow> string \<Rightarrow> py_error + criticality catalog_config" where
  "load_catalog loader explain path = (case loader path of
       Inl (OSError m) \<Rightarrow> Inl (CatalogValidationError (''invalid catalog: '' @ m))
     | Inl (YAMLError m) \<Rightarrow> Inl (CatalogValidationError (''invalid catalog: '' @ m))
     | Inl (ValidationError m) \<Rightarrow> Inl (CatalogValidationError (''invalid catalog: '' @ m))
     | Inl e \<Rightarrow> Inl e
     | Inr raw \<Rightarrow> (case validate_catalog raw of
           None \<Rightarrow> Inl (CatalogValidationError (''invalid catalog: '' @ explain raw))
         | Some config \<Rightarrow> Inr config))"

section \<open>Synchronisation\<close>

record 's catalog_persistence =
  op_known_columns :: "('s, column_ref list) action"
  op_replace_catalog :: "pipeline_definition list \<Rightarrow> lineage_edge list \<Rightarrow> ('s, unit) action"

record catalog_sync_result =
  sync_pipelines :: int
  sync_edges :: int

fun refs_of_names :: "dataset_ref \<Rightarrow> string list \<Rightarrow> column_ref list \<Rightarrow> py_error + column_ref list" where
  "refs_of_names dataset [] known = Inr []"
| "refs_of_names dataset (name # names) known =
     (let ref = ColumnRef dataset name in
      if ref \<notin> set known then Inl (CatalogValidationError (''unknown column: '' @ column_qualified_name ref))
      else bindR (refs_of_names dataset names known) (\<lambda>refs. Inr (ref # refs)))"

fun column_refs :: "column_set_config list \<Rightarrow> column_ref list \<Rightarrow> py_error + column_ref list" where
  "column_refs [] known = Inr []"
| "column_refs (configured # rest) known =
     (case split_on (CHR ''.'') (cs_dataset configured) of
        [schema, table] \<Rightarrow>
          bindR (refs_of_names (DatasetRef schema table) (cs_columns configured) known) (\<lambda>refs.
          bindR (column_refs rest known) (\<lambda>more. Inr (refs @ more)))
      | _ \<Rightarrow> Inl (ValueError ''wrong number of values to unpack''))"

definition configured_pipeline :: "criticality pipeline_config \<Rightarrow> pipeline_definition" where
  "configured_pipeline c = \<lparr>pipeline_key = pcfg_key c, pipeline_dag = pcfg_dag c, pipeline_owner = pcfg_owner c,
     pipeline_criticality = pcfg_criticality c\<rparr>"

text \<open>The two inner loops, over the pairs of an input and an output in the order of the loops; the set
  of edges is a list without repetitions.\<close>

fun add_edges :: "pipeline_definition \<Rightarrow> (column_ref \<times> column_ref) list \<Rightarrow> lineage_edge list \<Rightarrow> py_error + lineage_edge list" where
  "add_edges pipeline [] edges = Inr edges"
| "add_edges pipeline ((upstream, downstream) # pairs) edges =
     (if upstream = downstream then
        Inl (CatalogValidationError (''self-loop lineage is not allowed: '' @ column_qualified_name upstream))
      else add_edges pipeline pairs
        (List.insert \<lparr>edge_pipeline = pipeline, edge_upstream = upstream, edge_downstream = downstream\<rparr> edges))"

fun collect_edges :: "criticality catalog_config \<Rightarrow> column_ref list \<Rightarrow> lineage_edge list \<Rightarrow> py_error + lineage_edge list" where
  "collect_edges [] known edges = Inr edges"
| "collect_edges (configured # rest) known edges =
     bindR (column_refs (pcfg_inputs configured) known) (\<lambda>inputs.
     bindR (column_refs (pcfg_outputs configured) known) (\<lambda>outputs.
     bindR (add_edges (configured_pipeline configured) (List.product inputs outputs) edges) (\<lambda>edges'.
       collect_edges rest known edges')))"

definition sync_edge_key :: "lineage_edge \<Rightarrow> string \<times> string \<times> string" where
  "sync_edge_key e = (pipeline_key (edge_pipeline e), column_qualified_name (edge_upstream e),
     column_qualified_name (edge_downstream e))"

definition sync :: "'s catalog_persistence \<Rightarrow> loader \<Rightarrow> (json catalog_config \<Rightarrow> string) \<Rightarrow> string
    \<Rightarrow> ('s, catalog_sync_result) action" where
  "sync repo loader explain path =
     bindA (liftA (load_catalog loader explain path)) (\<lambda>config.
     bindA (op_known_columns repo) (\<lambda>known.
     bindA (liftA (collect_edges config known [])) (\<lambda>edges.
       let ordered_pipelines = sort_key pipeline_key (map configured_pipeline config);
           ordered_edges = sort_key sync_edge_key edges
       in thenA (op_replace_catalog repo ordered_pipelines ordered_edges)
            (returnA \<lparr>sync_pipelines = int (length ordered_pipelines), sync_edges = int (length ordered_edges)\<rparr>))))"

section \<open>What a catalog declares\<close>

definition declared_refs :: "column_set_config list \<Rightarrow> column_ref set" where
  "declared_refs sets = {ColumnRef (DatasetRef schema table) name | schema table name.
     \<exists>c \<in> set sets. split_on (CHR ''.'') (cs_dataset c) = [schema, table] \<and> name \<in> set (cs_columns c)}"

definition declared_edges :: "criticality catalog_config \<Rightarrow> lineage_edge set" where
  "declared_edges config = {\<lparr>edge_pipeline = configured_pipeline c, edge_upstream = u, edge_downstream = d\<rparr> | c u d.
     c \<in> set config \<and> u \<in> declared_refs (pcfg_inputs c) \<and> d \<in> declared_refs (pcfg_outputs c)}"

definition declared_columns :: "criticality catalog_config \<Rightarrow> column_ref set" where
  "declared_columns config = (\<Union>c \<in> set config. declared_refs (pcfg_inputs c) \<union> declared_refs (pcfg_outputs c))"

text \<open>What \<open>load_catalog\<close> guarantees of a configuration.\<close>

definition well_formed_catalog :: "criticality catalog_config \<Rightarrow> bool" where
  "well_formed_catalog config \<longleftrightarrow> config \<noteq> [] \<and> distinct (map pcfg_key config) \<and> distinct (map pcfg_dag config) \<and>
     (\<forall>c \<in> set config. \<forall>s \<in> set (pcfg_inputs c) \<union> set (pcfg_outputs c). valid_column_set s)"

lemma valid_column_set_split:
  assumes "valid_column_set c"
  obtains schema table where "split_on (CHR ''.'') (cs_dataset c) = [schema, table]"
    and "CHR ''.'' \<notin> set schema" and "CHR ''.'' \<notin> set table"
proof -
  obtain schema table where s: "split_on (CHR ''.'') (cs_dataset c) = [schema, table]"
    using assms by (auto simp: valid_column_set_def validate_dataset_name_def Let_def numeral_2_eq_2 length_Suc_conv)
  then show thesis using that split_on_pieces [of _ "CHR ''.''" "cs_dataset c"] by simp
qed

lemma validate_all_Some:
  assumes "validate_all raw = Some config" and "c \<in> set config"
  shows "\<forall>s \<in> set (pcfg_inputs c) \<union> set (pcfg_outputs c). valid_column_set s"
  using assms
proof (induction raw arbitrary: config)
  case (Cons p ps)
  obtain q qs where q: "validate_pipeline_config p = Some q" "validate_all ps = Some qs" "config = q # qs"
    using Cons.prems(1) by (auto split: option.splits)
  have "\<forall>s \<in> set (pcfg_inputs q) \<union> set (pcfg_outputs q). valid_column_set s"
    using q(1) by (auto simp: validate_pipeline_config_def list_all_iff split: option.splits if_splits)
  then show ?case using Cons.IH [OF q(2)] Cons.prems(2) q(3) by auto
qed simp

lemma load_catalog_well_formed:
  assumes "load_catalog loader explain path = Inr config"
  shows "well_formed_catalog config"
proof -
  obtain raw where raw: "validate_catalog raw = Some config"
    using assms by (auto simp: load_catalog_def split: sum.splits option.splits py_error.splits)
  then have all: "validate_all raw = Some config" and ne: "config \<noteq> []" and id: "validate_pipeline_identity config"
    by (auto simp: validate_catalog_def split: option.splits if_splits)
  have "distinct (map pcfg_key config)" "distinct (map pcfg_dag config)"
    using id unfolding validate_pipeline_identity_def by (intro card_distinct, simp)+
  then show ?thesis using ne validate_all_Some [OF all] by (simp add: well_formed_catalog_def)
qed

section \<open>What is collected\<close>

lemma refs_of_names_eq:
  "refs_of_names dataset names known = Inr refs \<longleftrightarrow>
     refs = map (ColumnRef dataset) names \<and> ColumnRef dataset ` set names \<subseteq> set known"
  by (induction names arbitrary: refs) (auto simp: Let_def bindR_eq_Inr)

lemma refs_of_names_Inl: "refs_of_names dataset names known = Inl e \<Longrightarrow> \<exists>m. e = CatalogValidationError m"
  by (induction names) (auto simp: Let_def bindR_eq_Inl split: if_splits)

fun listed_refs :: "column_set_config list \<Rightarrow> column_ref list" where
  "listed_refs [] = []"
| "listed_refs (c # rest) = (case split_on (CHR ''.'') (cs_dataset c) of
       [schema, table] \<Rightarrow> map (ColumnRef (DatasetRef schema table)) (cs_columns c) @ listed_refs rest
     | _ \<Rightarrow> listed_refs rest)"

lemma set_listed_refs: "set (listed_refs sets) = declared_refs sets"
proof (induction sets)
  case (Cons c rest)
  have "declared_refs (c # rest) = {ColumnRef (DatasetRef schema table) name | schema table name.
      split_on (CHR ''.'') (cs_dataset c) = [schema, table] \<and> name \<in> set (cs_columns c)} \<union> declared_refs rest"
    by (auto simp: declared_refs_def)
  then show ?case using Cons by (auto split: list.splits)
qed (simp add: declared_refs_def)

lemma column_refs_eq:
  assumes "\<forall>c \<in> set sets. valid_column_set c"
  shows "column_refs sets known = Inr refs \<longleftrightarrow> refs = listed_refs sets \<and> declared_refs sets \<subseteq> set known"
  using assms
proof (induction sets arbitrary: refs)
  case (Cons c rest)
  obtain schema table where s: "split_on (CHR ''.'') (cs_dataset c) = [schema, table]"
    by (rule valid_column_set_split [of c]) (use Cons.prems in simp)
  have "declared_refs (c # rest) = ColumnRef (DatasetRef schema table) ` set (cs_columns c) \<union> declared_refs rest"
    unfolding set_listed_refs [symmetric] by (simp add: s)
  then show ?case using Cons by (auto simp: s bindR_eq_Inr refs_of_names_eq)
qed (simp add: declared_refs_def, blast)

lemma column_refs_Inl:
  assumes "\<forall>c \<in> set sets. valid_column_set c" and "column_refs sets known = Inl e"
  shows "\<exists>m. e = CatalogValidationError m"
  using assms
proof (induction sets)
  case (Cons c rest)
  obtain schema table where s: "split_on (CHR ''.'') (cs_dataset c) = [schema, table]"
    by (rule valid_column_set_split [of c]) (use Cons.prems in simp)
  then show ?case using Cons refs_of_names_Inl by (auto simp: bindR_eq_Inl)
qed simp

fun insert_edges :: "pipeline_definition \<Rightarrow> (column_ref \<times> column_ref) list \<Rightarrow> lineage_edge list \<Rightarrow> lineage_edge list" where
  "insert_edges p [] edges = edges"
| "insert_edges p ((u, d) # pairs) edges =
     insert_edges p pairs (List.insert \<lparr>edge_pipeline = p, edge_upstream = u, edge_downstream = d\<rparr> edges)"

lemma insert_edges_facts:
  "set (insert_edges p pairs edges) =
     set edges \<union> {\<lparr>edge_pipeline = p, edge_upstream = u, edge_downstream = d\<rparr> | u d. (u, d) \<in> set pairs}"
  "distinct edges \<Longrightarrow> distinct (insert_edges p pairs edges)"
  by (induction p pairs edges rule: insert_edges.induct) auto

lemma add_edges_eq:
  "add_edges p pairs edges = Inr edges' \<longleftrightarrow> edges' = insert_edges p pairs edges \<and> (\<forall>(u, d) \<in> set pairs. u \<noteq> d)"
  by (induction p pairs edges rule: add_edges.induct) auto

lemma add_edges_Inl: "add_edges p pairs edges = Inl e \<Longrightarrow> \<exists>m. e = CatalogValidationError m"
  by (induction p pairs edges rule: add_edges.induct) (auto split: if_splits)

definition edges_of_config :: "criticality catalog_config \<Rightarrow> lineage_edge list \<Rightarrow> lineage_edge list" where
  "edges_of_config config edges = fold (\<lambda>c. insert_edges (configured_pipeline c)
     (List.product (listed_refs (pcfg_inputs c)) (listed_refs (pcfg_outputs c)))) config edges"

lemma set_edges_of_config: "set (edges_of_config config edges) = set edges \<union> declared_edges config"
proof (induction config arbitrary: edges)
  case (Cons c rest)
  have "declared_edges (c # rest) = {\<lparr>edge_pipeline = configured_pipeline c, edge_upstream = u, edge_downstream = d\<rparr> | u d.
      u \<in> declared_refs (pcfg_inputs c) \<and> d \<in> declared_refs (pcfg_outputs c)} \<union> declared_edges rest"
    by (auto simp: declared_edges_def)
  then show ?case using Cons unfolding edges_of_config_def by (auto simp: insert_edges_facts set_listed_refs)
qed (simp add: edges_of_config_def declared_edges_def)

lemma distinct_edges_of_config: "distinct edges \<Longrightarrow> distinct (edges_of_config config edges)"
  by (induction config arbitrary: edges) (simp_all add: edges_of_config_def insert_edges_facts)

definition acceptable :: "criticality catalog_config \<Rightarrow> column_ref set \<Rightarrow> bool" where
  "acceptable config known \<longleftrightarrow> declared_columns config \<subseteq> known \<and>
     (\<forall>e \<in> declared_edges config. edge_upstream e \<noteq> edge_downstream e)"

lemma acceptable_iff:
  "acceptable config known \<longleftrightarrow> (\<forall>c \<in> set config. declared_refs (pcfg_inputs c) \<subseteq> known \<and>
     declared_refs (pcfg_outputs c) \<subseteq> known \<and>
     (\<forall>u \<in> declared_refs (pcfg_inputs c). \<forall>d \<in> declared_refs (pcfg_outputs c). u \<noteq> d))"
proof -
  have "(\<forall>e \<in> declared_edges config. edge_upstream e \<noteq> edge_downstream e) \<longleftrightarrow>
      (\<forall>c \<in> set config. \<forall>u \<in> declared_refs (pcfg_inputs c). \<forall>d \<in> declared_refs (pcfg_outputs c). u \<noteq> d)"
    (is "?l \<longleftrightarrow> ?r")
  proof
    assume ?l
    show ?r
    proof (intro ballI)
      fix c u d assume "c \<in> set config" "u \<in> declared_refs (pcfg_inputs c)" "d \<in> declared_refs (pcfg_outputs c)"
      then have "\<lparr>edge_pipeline = configured_pipeline c, edge_upstream = u, edge_downstream = d\<rparr> \<in> declared_edges config"
        unfolding declared_edges_def by blast
      then show "u \<noteq> d" using \<open>?l\<close> by fastforce
    qed
  qed (auto simp: declared_edges_def)
  then show ?thesis unfolding acceptable_def declared_columns_def by blast
qed

lemma collect_edges_eq:
  assumes "\<forall>c \<in> set config. \<forall>s \<in> set (pcfg_inputs c) \<union> set (pcfg_outputs c). valid_column_set s"
  shows "collect_edges config known edges = Inr es \<longleftrightarrow> es = edges_of_config config edges \<and> acceptable config (set known)"
  using assms
proof (induction config arbitrary: edges)
  case (Cons c rest)
  have v: "\<forall>s \<in> set (pcfg_inputs c). valid_column_set s" "\<forall>s \<in> set (pcfg_outputs c). valid_column_set s"
    using Cons.prems by auto
  have step: "edges_of_config (c # rest) edges = edges_of_config rest (insert_edges (configured_pipeline c)
      (List.product (listed_refs (pcfg_inputs c)) (listed_refs (pcfg_outputs c))) edges)"
    by (simp add: edges_of_config_def)
  have pairs: "(\<forall>(u, d) \<in> set (List.product (listed_refs (pcfg_inputs c)) (listed_refs (pcfg_outputs c))). u \<noteq> d) \<longleftrightarrow>
      (\<forall>u \<in> declared_refs (pcfg_inputs c). \<forall>d \<in> declared_refs (pcfg_outputs c). u \<noteq> d)"
    by (auto simp: set_listed_refs)
  have "collect_edges (c # rest) known edges = Inr es \<longleftrightarrow> declared_refs (pcfg_inputs c) \<subseteq> set known \<and>
      declared_refs (pcfg_outputs c) \<subseteq> set known \<and>
      (\<forall>u \<in> declared_refs (pcfg_inputs c). \<forall>d \<in> declared_refs (pcfg_outputs c). u \<noteq> d) \<and>
      collect_edges rest known (insert_edges (configured_pipeline c)
        (List.product (listed_refs (pcfg_inputs c)) (listed_refs (pcfg_outputs c))) edges) = Inr es"
    unfolding collect_edges.simps bindR_eq_Inr column_refs_eq [OF v(1)] column_refs_eq [OF v(2)] add_edges_eq pairs [symmetric]
    by blast
  then show ?case using Cons.IH Cons.prems unfolding acceptable_iff step by auto
qed (auto simp: edges_of_config_def acceptable_iff)

lemma collect_edges_Inl:
  assumes "\<forall>c \<in> set config. \<forall>s \<in> set (pcfg_inputs c) \<union> set (pcfg_outputs c). valid_column_set s"
    and "collect_edges config known edges = Inl e"
  shows "\<exists>m. e = CatalogValidationError m"
  using assms
proof (induction config arbitrary: edges)
  case (Cons c rest)
  have v: "\<forall>s \<in> set (pcfg_inputs c). valid_column_set s" "\<forall>s \<in> set (pcfg_outputs c). valid_column_set s"
    using Cons.prems by auto
  consider "column_refs (pcfg_inputs c) known = Inl e" | "column_refs (pcfg_outputs c) known = Inl e"
    | pairs where "add_edges (configured_pipeline c) pairs edges = Inl e"
    | edges' where "collect_edges rest known edges' = Inl e"
    using Cons.prems(2) by (auto simp: bindR_eq_Inl)
  then show ?case
  proof cases
    case 1
    then show ?thesis by (rule column_refs_Inl [OF v(1)])
  next
    case 2
    then show ?thesis by (rule column_refs_Inl [OF v(2)])
  next
    case 3
    then show ?thesis by (rule add_edges_Inl)
  next
    case 4
    then show ?thesis using Cons.IH Cons.prems(1) by simp
  qed
qed simp

text \<open>The key by which edges are sorted tells the declared edges apart: names of schemas and tables in
  a catalog have no dots.\<close>

lemma declared_ref_dot_free:
  assumes "\<forall>c \<in> set sets. valid_column_set c" and "r \<in> declared_refs sets"
  shows "dataset_dot_free (ref_dataset r)"
proof -
  obtain c schema table where c: "c \<in> set sets" "split_on (CHR ''.'') (cs_dataset c) = [schema, table]"
    and r: "ref_dataset r = DatasetRef schema table"
    using assms(2) by (auto simp: declared_refs_def)
  then show ?thesis
    using split_on_pieces [of _ "CHR ''.''" "cs_dataset c"] by (simp add: dataset_dot_free_def dot_free_def)
qed

lemma column_qualified_name_inj:
  assumes "dataset_dot_free (ref_dataset a)" and "dataset_dot_free (ref_dataset b)"
    and "column_qualified_name a = column_qualified_name b"
  shows "a = b"
proof -
  have eq: "ref_schema (ref_dataset x) @ ''.'' @ ref_table (ref_dataset x) @ ''.'' @ ref_name x = column_qualified_name x" for x
    by (simp add: column_qualified_name_def dataset_qualified_name_def)
  have split: "split_on (CHR ''.'') (column_qualified_name x) =
      ref_schema (ref_dataset x) # ref_table (ref_dataset x) # split_on (CHR ''.'') (ref_name x)"
    if "dataset_dot_free (ref_dataset x)" for x
    unfolding eq [symmetric] using that by (simp add: dataset_dot_free_def dot_free_def split_on_append)
  have "split_on (CHR ''.'') (ref_name a) = split_on (CHR ''.'') (ref_name b)"
    using split [OF assms(1)] split [OF assms(2)] assms(3) by simp
  then have "ref_name a = ref_name b" by (metis join_split_on)
  then show ?thesis
    using split [OF assms(1)] split [OF assms(2)] assms(3)
    by (cases a; cases b; cases "ref_dataset a"; cases "ref_dataset b") simp
qed

lemma sync_edge_key_inj:
  assumes "well_formed_catalog config"
  shows "inj_on sync_edge_key (declared_edges config)"
proof (rule inj_onI)
  fix x y assume "x \<in> declared_edges config" "y \<in> declared_edges config" "sync_edge_key x = sync_edge_key y"
  then obtain c u d c' u' d' where x: "c \<in> set config" "u \<in> declared_refs (pcfg_inputs c)" "d \<in> declared_refs (pcfg_outputs c)"
      "x = \<lparr>edge_pipeline = configured_pipeline c, edge_upstream = u, edge_downstream = d\<rparr>"
    and y: "c' \<in> set config" "u' \<in> declared_refs (pcfg_inputs c')" "d' \<in> declared_refs (pcfg_outputs c')"
      "y = \<lparr>edge_pipeline = configured_pipeline c', edge_upstream = u', edge_downstream = d'\<rparr>"
    and k: "pcfg_key c = pcfg_key c'" "column_qualified_name u = column_qualified_name u'" "column_qualified_name d = column_qualified_name d'"
    by (auto simp: declared_edges_def sync_edge_key_def configured_pipeline_def)
  have valid: "\<forall>s \<in> set (pcfg_inputs c). valid_column_set s" "\<forall>s \<in> set (pcfg_outputs c). valid_column_set s"
    "\<forall>s \<in> set (pcfg_inputs c'). valid_column_set s" "\<forall>s \<in> set (pcfg_outputs c'). valid_column_set s"
    using assms x(1) y(1) by (auto simp: well_formed_catalog_def)
  have "c = c'" using assms k(1) x(1) y(1) by (auto simp: well_formed_catalog_def distinct_map dest: inj_onD)
  moreover have "u = u'" "d = d'"
    using column_qualified_name_inj declared_ref_dot_free valid x(2,3) y(2,3) k(2,3) by blast+
  ultimately show "x = y" using x(4) y(4) by simp
qed

section \<open>The port and the synchronisation\<close>

locale catalog_protocol =
  fixes repo :: "'s catalog_persistence"
    and known :: "'s \<Rightarrow> column_ref set"
    and pipelines_of :: "'s \<Rightarrow> pipeline_definition list"
    and lineage_of :: "'s \<Rightarrow> lineage_edge set"
  assumes known_read: "op_known_columns repo s = (Inr k, s') \<Longrightarrow> s' = s \<and> set k = known s"
    and replaced: "op_replace_catalog repo ps es s = (Inr u, s') \<Longrightarrow> distinct (map pipeline_key ps) \<Longrightarrow>
      edge_pipeline ` set es \<subseteq> set ps \<Longrightarrow> pipelines_of s' = ps \<and> lineage_of s' = set es \<and> known s' = known s"
begin

lemma sync_returns:
  assumes "sync repo loader explain path s = (Inr r, s')"
  obtains config where "load_catalog loader explain path = Inr config" and "well_formed_catalog config"
    and "acceptable config (known s)" and "known s' = known s"
    and "pipelines_of s' = sort_key pipeline_key (map configured_pipeline config)"
    and "lineage_of s' = declared_edges config"
    and "r = \<lparr>sync_pipelines = int (length config), sync_edges = int (card (declared_edges config))\<rparr>"
    and "op_replace_catalog repo (sort_key pipeline_key (map configured_pipeline config))
      (sort_key sync_edge_key (edges_of_config config [])) s = (Inr (), s')"
proof -
  obtain config k es where load: "load_catalog loader explain path = Inr config"
    and k: "op_known_columns repo s = (Inr k, s)" and es: "collect_edges config k [] = Inr es"
    and rep: "op_replace_catalog repo (sort_key pipeline_key (map configured_pipeline config)) (sort_key sync_edge_key es) s = (Inr (), s')"
    and r: "r = \<lparr>sync_pipelines = int (length config), sync_edges = int (length es)\<rparr>"
    using assms known_read by (fastforce simp: sync_def bindA_eq_Inr thenA_eq_Inr Let_def)
  have wf: "well_formed_catalog config" by (rule load_catalog_well_formed [OF load])
  then have valid: "\<forall>c \<in> set config. \<forall>s \<in> set (pcfg_inputs c) \<union> set (pcfg_outputs c). valid_column_set s"
    by (simp add: well_formed_catalog_def)
  have es': "es = edges_of_config config []" and acc: "acceptable config (known s)"
    using es known_read [OF k] unfolding collect_edges_eq [OF valid] by simp_all
  have d: "set es = declared_edges config" "distinct es"
    by (simp_all add: es' set_edges_of_config distinct_edges_of_config)
  have keys: "map pipeline_key (map configured_pipeline config) = map pcfg_key config"
    by (simp add: configured_pipeline_def)
  have "distinct (map pipeline_key (sort_key pipeline_key (map configured_pipeline config)))"
    using wf unfolding well_formed_catalog_def by (metis distinct_map distinct_sort keys set_sort)
  moreover have "edge_pipeline ` set (sort_key sync_edge_key es) \<subseteq> set (sort_key pipeline_key (map configured_pipeline config))"
    by (auto simp: d(1) declared_edges_def)
  ultimately have st: "pipelines_of s' = sort_key pipeline_key (map configured_pipeline config)"
    "lineage_of s' = declared_edges config" "known s' = known s"
    using replaced [OF rep] d(1) by simp_all
  have "length es = card (declared_edges config)" using d distinct_card by metis
  then show thesis using that [OF load wf acc st(3,1,2)] r rep es' by simp
qed

lemma sync_refused:
  assumes "load_catalog loader explain path = Inr config" and "\<not> acceptable config (known s)"
    and "op_known_columns repo s = (Inr k, s)"
  shows "\<exists>m. sync repo loader explain path s = (Inl (CatalogValidationError m), s)"
proof -
  have valid: "\<forall>c \<in> set config. \<forall>s \<in> set (pcfg_inputs c) \<union> set (pcfg_outputs c). valid_column_set s"
    using load_catalog_well_formed [OF assms(1)] by (simp add: well_formed_catalog_def)
  have "collect_edges config k [] \<noteq> Inr es" for es
    using collect_edges_eq [OF valid] assms(2) known_read [OF assms(3)] by simp
  then obtain e where e: "collect_edges config k [] = Inl e" by (metis sum.exhaust)
  then obtain m where "e = CatalogValidationError m" using collect_edges_Inl [OF valid] by blast
  then show ?thesis using e assms(1,3) by (simp add: sync_def bindA_def)
qed

lemma sync_unreadable:
  assumes "load_catalog loader explain path = Inl e"
  shows "sync repo loader explain path s = (Inl e, s)"
  using assms by (simp add: sync_def bindA_def)

end

end
