(* ===== verification/CatalogRepo.thy ===== *)
theory CatalogRepo
  imports CatalogService Validation
begin

text \<open>
  \<open>repositories/catalog.py\<close> on the metadata tables, and the proof that it provides the protocol of
  the catalog: after \<open>replace_catalog\<close> the lineage that validation and queries read back is the
  given one.
\<close>

section \<open>Operations\<close>

definition add_source :: "source_row \<Rightarrow> source_row db" where
  "add_source source = thenA (modify (\<lambda>t. t\<lparr>t_sources := t_sources t @ [source]\<rparr>)) (thenA flush (returnA source))"

definition get_source_by_key :: "string \<Rightarrow> source_row option db" where
  "get_source_by_key key = query (\<lambda>t. List.find (\<lambda>r. src_key r = key) (t_sources t))"

definition add_dataset :: "dataset_row \<Rightarrow> dataset_row db" where
  "add_dataset dataset = thenA (modify (\<lambda>t. t\<lparr>t_datasets := t_datasets t @ [dataset]\<rparr>)) (thenA flush (returnA dataset))"

definition get_dataset :: "uuid \<Rightarrow> string \<Rightarrow> string \<Rightarrow> dataset_row option db" where
  "get_dataset source_id schema table =
     query (\<lambda>t. List.find (\<lambda>r. ds_source r = source_id \<and> ds_schema r = schema \<and> ds_table r = table) (t_datasets t))"

definition add_expected_column :: "expected_row \<Rightarrow> expected_row db" where
  "add_expected_column column =
     thenA (modify (\<lambda>t. t\<lparr>t_expected := t_expected t @ [column]\<rparr>)) (thenA flush (returnA column))"

definition list_expected_columns :: "uuid \<Rightarrow> expected_row list db" where
  "list_expected_columns dataset_id =
     query (\<lambda>t. sort_key ex_ordinal (filter (\<lambda>r. ex_dataset r = dataset_id) (t_expected t)))"

definition known_refs :: "tables \<Rightarrow> column_ref list" where
  "known_refs t = [ColumnRef (row_ref d) (ex_name c). c \<leftarrow> t_expected t, d \<leftarrow> t_datasets t, ex_dataset c = ds_id d]"

definition known_columns :: "column_ref list db" where
  "known_columns = query known_refs"

definition all_datasets_by_ref :: "tables \<Rightarrow> (dataset_ref \<times> dataset_row) list" where
  "all_datasets_by_ref t = fold (\<lambda>d m. AList.update (row_ref d) d m) (t_datasets t) []"

definition pipeline_row_of :: "uuid \<Rightarrow> pipeline_definition \<Rightarrow> pipeline_row" where
  "pipeline_row_of i p = \<lparr>pl_id = i, pl_key = pipeline_key p, pl_dag = pipeline_dag p, pl_owner = pipeline_owner p,
     pl_criticality = pipeline_criticality p\<rparr>"

definition store_pipeline :: "pipeline_definition \<Rightarrow> (string \<times> pipeline_row) list \<Rightarrow> (string \<times> pipeline_row) list db" where
  "store_pipeline pipeline models =
     bindA new_id (\<lambda>i.
     thenA (modify (\<lambda>t. t\<lparr>t_pipelines := t_pipelines t @ [pipeline_row_of i pipeline]\<rparr>))
     (returnA (AList.update (pipeline_key pipeline) (pipeline_row_of i pipeline) models)))"

definition item :: "('k \<times> 'v) list \<Rightarrow> 'k \<Rightarrow> string \<Rightarrow> py_error + 'v" where
  "item d k text_of_key = (case map_of d k of None \<Rightarrow> Inl (KeyError text_of_key) | Some v \<Rightarrow> Inr v)"

definition edge_row_of :: "uuid \<Rightarrow> lineage_edge \<Rightarrow> pipeline_row \<Rightarrow> dataset_row \<Rightarrow> dataset_row \<Rightarrow> edge_row" where
  "edge_row_of i e p u d = \<lparr>le_id = i, le_pipeline = pl_id p, le_up_dataset = ds_id u,
     le_up_column = ref_name (edge_upstream e), le_down_dataset = ds_id d, le_down_column = ref_name (edge_downstream e)\<rparr>"

definition store_edge ::
  "(string \<times> pipeline_row) list \<Rightarrow> (dataset_ref \<times> dataset_row) list \<Rightarrow> lineage_edge \<Rightarrow> unit \<Rightarrow> unit db" where
  "store_edge models datasets edge _ =
     bindA (liftA (item models (pipeline_key (edge_pipeline edge)) (pipeline_key (edge_pipeline edge)))) (\<lambda>p.
     bindA (liftA (item datasets (ref_dataset (edge_upstream edge)) (dataset_qualified_name (ref_dataset (edge_upstream edge))))) (\<lambda>u.
     bindA (liftA (item datasets (ref_dataset (edge_downstream edge)) (dataset_qualified_name (ref_dataset (edge_downstream edge))))) (\<lambda>d.
     bindA new_id (\<lambda>i. modify (\<lambda>t. t\<lparr>t_edges := t_edges t @ [edge_row_of i edge p u d]\<rparr>)))))"

definition replace_catalog :: "pipeline_definition list \<Rightarrow> lineage_edge list \<Rightarrow> unit db" where
  "replace_catalog pipelines edges =
     bindA (query all_datasets_by_ref) (\<lambda>datasets.
     thenA (modify (\<lambda>t. t\<lparr>t_edges := []\<rparr>))
     (thenA (modify (\<lambda>t. t\<lparr>t_pipelines := []\<rparr>))
     (thenA flush
     (bindA (forA pipelines [] store_pipeline) (\<lambda>models.
     thenA flush
     (thenA (forA edges () (store_edge models datasets))
     flush))))))"

definition digest_pipeline :: "pipeline_row \<Rightarrow> json" where
  "digest_pipeline p = JObj [(''key'', JStr (pl_key p)), (''airflow_dag_id'', JStr (pl_dag p)),
     (''owner'', JStr (pl_owner p)), (''criticality'', JStr (criticality_value (pl_criticality p)))]"

definition digest_edge_rows :: "(string \<Rightarrow> string) \<Rightarrow> tables \<Rightarrow> (edge_row \<times> pipeline_row) list" where
  "digest_edge_rows collate t =
     sort_key (\<lambda>(e, p). (collate (pl_key p), le_up_dataset e, collate (le_up_column e), le_down_dataset e, collate (le_down_column e)))
       [(e, p). e \<leftarrow> t_edges t, p \<leftarrow> t_pipelines t, le_pipeline e = pl_id p]"

definition digest_edge :: "edge_row \<times> pipeline_row \<Rightarrow> json" where
  "digest_edge = (\<lambda>(e, p). JObj [(''pipeline'', JStr (pl_key p)), (''upstream_dataset_id'', JStr (show_uuid (le_up_dataset e))),
     (''upstream_column'', JStr (le_up_column e)), (''downstream_dataset_id'', JStr (show_uuid (le_down_dataset e))),
     (''downstream_column'', JStr (le_down_column e))])"

definition digest_payload :: "(string \<Rightarrow> string) \<Rightarrow> tables \<Rightarrow> json" where
  "digest_payload collate t = JObj
     [(''pipelines'', JArr (map digest_pipeline (sort_key (\<lambda>p. collate (pl_key p)) (t_pipelines t)))),
      (''edges'', JArr (map digest_edge (digest_edge_rows collate t)))]"

definition catalog_digest :: "(string \<Rightarrow> string) \<Rightarrow> string db" where
  "catalog_digest collate = query (\<lambda>t. sha256_hexdigest (dumps (digest_payload collate t)))"

definition sql_catalog_repository :: "session catalog_persistence" where
  "sql_catalog_repository = \<lparr>op_known_columns = known_columns, op_replace_catalog = replace_catalog\<rparr>"

section \<open>What replacing leaves\<close>

lemma fresh_rows_simps [simp]:
  "fresh_rows row n [] = []"
  "fresh_rows row n (x # xs) = row n x # fresh_rows row (Suc n) xs"
proof -
  have "[n..<n + length (x # xs)] = n # [Suc n..<Suc n + length xs]" by (simp add: upt_conv_Cons del: upt_Suc)
  then show "fresh_rows row n (x # xs) = row n x # fresh_rows row (Suc n) xs"
    unfolding fresh_rows_def by (simp only: zip_Cons_Cons list.map case_prod_conv)
qed (simp add: fresh_rows_def)

lemma store_pipelines_run:
  "forA ps models store_pipeline s =
     (Inr (fold (\<lambda>r m. AList.update (pl_key r) r m) (fresh_rows pipeline_row_of (id_supply s) ps) models),
      s\<lparr>work := (work s)\<lparr>t_pipelines := t_pipelines (work s) @ fresh_rows pipeline_row_of (id_supply s) ps\<rparr>,
        id_supply := id_supply s + length ps\<rparr>)"
proof (induction ps arbitrary: s models)
  case (Cons p ps)
  let ?r = "pipeline_row_of (id_supply s) p"
  have one: "store_pipeline p models s = (Inr (AList.update (pl_key ?r) ?r models),
      s\<lparr>work := (work s)\<lparr>t_pipelines := t_pipelines (work s) @ [?r]\<rparr>, id_supply := Suc (id_supply s)\<rparr>)"
    by (simp add: store_pipeline_def bindA_def thenA_def new_id_def modify_def pipeline_row_of_def)
  then show ?case unfolding forA.simps bindA_step(1) [where m = "store_pipeline p models", OF one] Cons.IH by simp
qed simp

definition edge_stored ::
  "(string \<times> pipeline_row) list \<Rightarrow> (dataset_ref \<times> dataset_row) list \<Rightarrow> lineage_edge \<Rightarrow> edge_row \<Rightarrow> bool" where
  "edge_stored models datasets e r \<longleftrightarrow> (\<exists>i p u d. map_of models (pipeline_key (edge_pipeline e)) = Some p \<and>
     map_of datasets (ref_dataset (edge_upstream e)) = Some u \<and> map_of datasets (ref_dataset (edge_downstream e)) = Some d \<and>
     r = edge_row_of i e p u d)"

lemma item_eq: "item d k txt = Inr v \<longleftrightarrow> map_of d k = Some v"
  by (auto simp: item_def split: option.splits)

lemma store_edge_Inr:
  assumes "store_edge models datasets e x s = (Inr u, s')"
  obtains r where "work s' = (work s)\<lparr>t_edges := t_edges (work s) @ [r]\<rparr>" and "edge_stored models datasets e r"
    and "poisoned s' = poisoned s"
proof -
  obtain p up d where "map_of models (pipeline_key (edge_pipeline e)) = Some p"
    "map_of datasets (ref_dataset (edge_upstream e)) = Some up" "map_of datasets (ref_dataset (edge_downstream e)) = Some d"
    and "bindA new_id (\<lambda>i. modify (\<lambda>t. t\<lparr>t_edges := t_edges t @ [edge_row_of i e p up d]\<rparr>)) s = (Inr u, s')"
    using assms by (auto simp: store_edge_def bindA_eq_Inr item_eq)
  then show thesis
    by (intro that [of "edge_row_of (id_supply s) e p up d"]) (auto simp: bindA_def new_id_def modify_def edge_stored_def)
qed

lemma store_edges_Inr:
  assumes "forA es x (store_edge models datasets) s = (Inr u, s')"
  obtains rows where "work s' = (work s)\<lparr>t_edges := t_edges (work s) @ rows\<rparr>"
    and "list_all2 (edge_stored models datasets) es rows"
  using assms
proof (induction es arbitrary: s x thesis)
  case Nil
  then show ?case using Nil.prems(1) [of "[]"] by simp
next
  case (Cons e es)
  obtain y s1 where one: "store_edge models datasets e x s = (Inr y, s1)"
    and rest: "forA es y (store_edge models datasets) s1 = (Inr u, s')"
    using Cons.prems(2) by (auto simp: bindA_eq_Inr)
  obtain r where r: "work s1 = (work s)\<lparr>t_edges := t_edges (work s) @ [r]\<rparr>" "edge_stored models datasets e r"
    by (rule store_edge_Inr [OF one])
  obtain rows where rows: "work s' = (work s1)\<lparr>t_edges := t_edges (work s1) @ rows\<rparr>" "list_all2 (edge_stored models datasets) es rows"
    by (rule Cons.IH [OF _ rest])
  show ?case by (rule Cons.prems(1) [of "r # rows"]) (use r rows in simp_all)
qed

abbreviation models_of :: "pipeline_row list \<Rightarrow> (string \<times> pipeline_row) list" where
  "models_of rows \<equiv> fold (\<lambda>r m. AList.update (pl_key r) r m) rows []"

lemma replace_catalog_Inr:
  assumes "replace_catalog ps es s = (Inr u, s')"
  obtains rows where "usable s" and "usable s'"
    and "work s' = (work s)\<lparr>t_pipelines := fresh_rows pipeline_row_of (id_supply s) ps, t_edges := rows\<rparr>"
    and "list_all2 (edge_stored (models_of (fresh_rows pipeline_row_of (id_supply s) ps)) (all_datasets_by_ref (work s))) es rows"
proof -
  obtain s2 s3 where us: "usable s" "usable s'"
    and s2: "s2 = s\<lparr>work := (work s)\<lparr>t_edges := [], t_pipelines := fresh_rows pipeline_row_of (id_supply s) ps\<rparr>,
      id_supply := id_supply s + length ps\<rparr>"
    and edges: "forA es () (store_edge (models_of (fresh_rows pipeline_row_of (id_supply s) ps)) (all_datasets_by_ref (work s))) s2 =
      (Inr s3, s')"
    using assms unfolding replace_catalog_def store_pipelines_run
    by (auto simp: action_simps store_pipelines_run usable_def)
  show thesis
    by (rule store_edges_Inr [OF edges]) (rule that [OF us], simp_all add: s2)
qed

section \<open>The protocol\<close>

definition pipeline_of_row :: "pipeline_row \<Rightarrow> pipeline_definition" where
  "pipeline_of_row p = \<lparr>pipeline_key = pl_key p, pipeline_dag = pl_dag p, pipeline_owner = pl_owner p,
     pipeline_criticality = pl_criticality p\<rparr>"

lemma pipeline_of_row_of [simp]: "pipeline_of_row (pipeline_row_of i p) = p"
  by (simp add: pipeline_of_row_def pipeline_row_of_def)

lemma map_of_fold_update:
  "map_of (fold (\<lambda>r m. AList.update (f r) r m) rows d) k = Some r \<Longrightarrow> map_of d k = Some r \<or> r \<in> set rows \<and> f r = k"
proof (induction rows arbitrary: d)
  case (Cons x rows)
  then show ?case using Cons.IH [of "AList.update (f x) x d"] by (auto simp: map_of_update split: if_splits)
qed simp

lemma all_datasets_by_ref_Some: "map_of (all_datasets_by_ref t) k = Some d \<Longrightarrow> d \<in> set (t_datasets t) \<and> row_ref d = k"
  using map_of_fold_update [of row_ref "t_datasets t" "[]" k d] by (simp add: all_datasets_by_ref_def)

text \<open>A stored edge, joined with its pipeline and datasets, is the edge that was given.\<close>

lemma edge_stored_joined:
  assumes "edge_stored (models_of rows) (all_datasets_by_ref t) e r"
    and "edge_pipeline e \<in> pipeline_of_row ` set rows" and "distinct (map pl_key rows)"
  obtains p u d where "p \<in> set rows" and "u \<in> set (t_datasets t)" and "d \<in> set (t_datasets t)"
    and "le_pipeline r = pl_id p" and "le_up_dataset r = ds_id u" and "le_down_dataset r = ds_id d"
    and "edge_of_rows (r, p, u, d) = e" and "pl_key p = pipeline_key (edge_pipeline e)"
proof -
  obtain i p u d where m: "map_of (models_of rows) (pipeline_key (edge_pipeline e)) = Some p"
    and u: "map_of (all_datasets_by_ref t) (ref_dataset (edge_upstream e)) = Some u"
    and d: "map_of (all_datasets_by_ref t) (ref_dataset (edge_downstream e)) = Some d"
    and r: "r = edge_row_of i e p u d"
    using assms(1) by (auto simp: edge_stored_def)
  have p: "p \<in> set rows" "pl_key p = pipeline_key (edge_pipeline e)" using map_of_fold_update [OF m] by simp_all
  obtain q where q: "q \<in> set rows" "pipeline_of_row q = edge_pipeline e" using assms(2) by auto
  then have "pl_key q = pl_key p" using p(2) by (metis pipeline_of_row_def pipeline_definition.select_convs(1))
  then have "q = p" using assms(3) p(1) q(1) by (simp add: distinct_map inj_on_def)
  moreover have "edge_of_rows (r, p, u, d) =
      \<lparr>edge_pipeline = pipeline_of_row p, edge_upstream = ColumnRef (row_ref u) (ref_name (edge_upstream e)),
       edge_downstream = ColumnRef (row_ref d) (ref_name (edge_downstream e))\<rparr>"
    by (simp add: edge_of_rows_def pipeline_of_row_def r edge_row_of_def)
  ultimately have "edge_of_rows (r, p, u, d) = e"
    using q(2) all_datasets_by_ref_Some [OF u] all_datasets_by_ref_Some [OF d] by (cases e) simp
  then show thesis
    using all_datasets_by_ref_Some [OF u] all_datasets_by_ref_Some [OF d] p
    by (intro that [of p u d]) (simp_all add: r edge_row_of_def)
qed

lemma stored_edges_iff:
  "x \<in> set (stored_edges t) \<longleftrightarrow> (\<exists>e p u d. e \<in> set (t_edges t) \<and> p \<in> set (t_pipelines t) \<and> u \<in> set (t_datasets t) \<and>
     d \<in> set (t_datasets t) \<and> le_pipeline e = pl_id p \<and> le_up_dataset e = ds_id u \<and> le_down_dataset e = ds_id d \<and>
     x = edge_of_rows (e, p, u, d))"
  by (auto simp: stored_edges_def image_iff)

lemma map_pipeline_fresh_rows: "map pipeline_of_row (fresh_rows pipeline_row_of n ps) = ps"
  using fresh_rows_image [of pipeline_of_row pipeline_row_of "\<lambda>p. p" n ps] by simp

lemma map_key_fresh_rows: "map pl_key (fresh_rows pipeline_row_of n ps) = map pipeline_key ps"
  by (rule fresh_rows_image) (simp add: pipeline_row_of_def)

text \<open>Every stored edge row belongs to one given edge, and reads back as it.\<close>

definition joined_as :: "tables \<Rightarrow> lineage_edge \<Rightarrow> edge_row \<Rightarrow> bool" where
  "joined_as t e r \<longleftrightarrow> (\<exists>p u d. p \<in> set (t_pipelines t) \<and> u \<in> set (t_datasets t) \<and> d \<in> set (t_datasets t) \<and>
     le_pipeline r = pl_id p \<and> le_up_dataset r = ds_id u \<and> le_down_dataset r = ds_id d \<and>
     edge_of_rows (r, p, u, d) = e \<and> pl_key p = pipeline_key (edge_pipeline e))"

lemma replace_catalog_edges:
  assumes "replace_catalog ps es s = (Inr v, s')" and "distinct (map pipeline_key ps)" and "edge_pipeline ` set es \<subseteq> set ps"
  obtains rows where "work s' = (work s)\<lparr>t_pipelines := fresh_rows pipeline_row_of (id_supply s) ps, t_edges := rows\<rparr>"
    and "usable s" and "usable s'"
    and "list_all2 (edge_stored (models_of (fresh_rows pipeline_row_of (id_supply s) ps)) (all_datasets_by_ref (work s))) es rows"
    and "list_all2 (joined_as (work s')) es rows"
proof -
  let ?ps = "fresh_rows pipeline_row_of (id_supply s) ps"
  obtain rows where us: "usable s" "usable s'" and w: "work s' = (work s)\<lparr>t_pipelines := ?ps, t_edges := rows\<rparr>"
    and st: "list_all2 (edge_stored (models_of ?ps) (all_datasets_by_ref (work s))) es rows"
    by (rule replace_catalog_Inr [OF assms(1)])
  have "joined_as (work s') e r" if e: "e \<in> set es" and row: "edge_stored (models_of ?ps) (all_datasets_by_ref (work s)) e r" for e r
  proof -
    have "edge_pipeline e \<in> pipeline_of_row ` set ?ps"
      using assms(3) e map_pipeline_fresh_rows [of "id_supply s" ps] by (metis image_eqI image_set subset_iff)
    moreover have "distinct (map pl_key ?ps)" using assms(2) by (simp add: map_key_fresh_rows)
    ultimately obtain p u d where "p \<in> set ?ps" "u \<in> set (t_datasets (work s))" "d \<in> set (t_datasets (work s))"
      "le_pipeline r = pl_id p" "le_up_dataset r = ds_id u" "le_down_dataset r = ds_id d"
      "edge_of_rows (r, p, u, d) = e" "pl_key p = pipeline_key (edge_pipeline e)"
      by (rule edge_stored_joined [OF row])
    then show ?thesis unfolding joined_as_def by (intro exI [of _ p] exI [of _ u] exI [of _ d]) (simp add: w)
  qed
  then have "list_all2 (joined_as (work s')) es rows"
    using st unfolding list_all2_conv_all_nth by simp
  then show thesis using that [OF w us st] by simp
qed

lemma replace_catalog_stored:
  assumes "replace_catalog ps es s = (Inr v, s')" and "distinct (map pipeline_key ps)" and "edge_pipeline ` set es \<subseteq> set ps"
  shows "map pipeline_of_row (t_pipelines (work s')) = ps \<and> set (stored_edges (work s')) = set es \<and>
    set (known_refs (work s')) = set (known_refs (work s))"
proof -
  obtain rows where w: "work s' = (work s)\<lparr>t_pipelines := fresh_rows pipeline_row_of (id_supply s) ps, t_edges := rows\<rparr>"
    and us: "usable s'" and joined: "list_all2 (joined_as (work s')) es rows"
    by (rule replace_catalog_edges [OF assms])
  have rows: "t_edges (work s') = rows" by (simp add: w)
  have unique: "unique_on pl_id (t_pipelines (work s'))" "unique_on ds_id (t_datasets (work s'))"
    using us by (simp_all add: usable_def integrity_ok_def lineage_constraints_def catalog_constraints_def)
  have "x \<in> set es" if "x \<in> set (stored_edges (work s'))" for x
  proof -
    obtain r p u d where r: "r \<in> set rows" and j: "p \<in> set (t_pipelines (work s'))" "u \<in> set (t_datasets (work s'))" "d \<in> set (t_datasets (work s'))"
      "le_pipeline r = pl_id p" "le_up_dataset r = ds_id u" "le_down_dataset r = ds_id d" "x = edge_of_rows (r, p, u, d)"
      using \<open>x \<in> set (stored_edges (work s'))\<close> unfolding stored_edges_iff rows by blast
    obtain e where e: "e \<in> set es" "joined_as (work s') e r"
      using joined r unfolding list_all2_conv_all_nth in_set_conv_nth by metis
    obtain p' u' d' where j': "p' \<in> set (t_pipelines (work s'))" "u' \<in> set (t_datasets (work s'))" "d' \<in> set (t_datasets (work s'))"
      "le_pipeline r = pl_id p'" "le_up_dataset r = ds_id u'" "le_down_dataset r = ds_id d'" "edge_of_rows (r, p', u', d') = e"
      using e(2) unfolding joined_as_def by blast
    have "p' = p" using unique_onD [OF unique(1) j'(1) j(1)] j(4) j'(4) by simp
    moreover have "u' = u" using unique_onD [OF unique(2) j'(2) j(2)] j(5) j'(5) by simp
    moreover have "d' = d" using unique_onD [OF unique(2) j'(3) j(3)] j(6) j'(6) by simp
    ultimately show ?thesis using e(1) j(7) j'(7) by simp
  qed
  moreover have "e \<in> set (stored_edges (work s'))" if e: "e \<in> set es" for e
  proof -
    obtain r where r: "r \<in> set rows" "joined_as (work s') e r"
      using joined e unfolding list_all2_conv_all_nth in_set_conv_nth by metis
    then show ?thesis unfolding stored_edges_iff joined_as_def rows by blast
  qed
  moreover have "map pipeline_of_row (t_pipelines (work s')) = ps" by (simp add: w map_pipeline_fresh_rows)
  moreover have "set (known_refs (work s')) = set (known_refs (work s))" by (simp add: w known_refs_def)
  ultimately show ?thesis by blast
qed

interpretation sql_catalog: catalog_protocol sql_catalog_repository "\<lambda>s. set (known_refs (work s))"
  "\<lambda>s. map pipeline_of_row (t_pipelines (work s))" "\<lambda>s. set (stored_edges (work s))"
proof
  fix s s' k ps es u
  show "op_known_columns sql_catalog_repository s = (Inr k, s') \<Longrightarrow> s' = s \<and> set k = set (known_refs (work s))"
    by (simp add: sql_catalog_repository_def known_columns_def query_eq_Inr)
  show "op_replace_catalog sql_catalog_repository ps es s = (Inr u, s') \<Longrightarrow> distinct (map pipeline_key ps) \<Longrightarrow>
      edge_pipeline ` set es \<subseteq> set ps \<Longrightarrow>
      map pipeline_of_row (t_pipelines (work s')) = ps \<and> set (stored_edges (work s')) = set es \<and>
      set (known_refs (work s')) = set (known_refs (work s))"
    using replace_catalog_stored [of ps es s u s'] by (simp add: sql_catalog_repository_def)
qed

end
