(* ===== verification/Catalog.thy ===== *)
theory Catalog
  imports CatalogRepo Acceptance
begin

text \<open>
  What synchronising the catalog guarantees on the metadata tables: the stored lineage becomes the
  declared one, a catalog is either stored or refused without effect, and the digest by which a
  stored catalog is compared depends on the file and the datasets only.
\<close>

section \<open>An acceptable catalog can be stored\<close>

definition lineage_fits :: "pipeline_row list \<Rightarrow> edge_row list \<Rightarrow> bool" where
  "lineage_fits ps es \<longleftrightarrow>
     list_all (\<lambda>r. at_most 100 (pl_key r) \<and> at_most 250 (pl_dag r) \<and> at_most 200 (pl_owner r)) ps \<and>
     list_all (\<lambda>r. at_most 63 (le_up_column r) \<and> at_most 63 (le_down_column r)) es"

lemma usable_lineage:
  assumes "usable s" and "lineage_constraints ((work s)\<lparr>t_pipelines := ps, t_edges := es\<rparr>)" and "lineage_fits ps es"
  shows "usable (s\<lparr>work := (work s)\<lparr>t_pipelines := ps, t_edges := es\<rparr>, id_supply := n\<rparr>)"
  using assms by (simp add: usable_def integrity_ok_def data_ok_def lineage_fits_def catalog_constraints_def
      scan_constraints_def change_constraints_def delivery_constraints_def)

lemma no_lineage: "lineage_constraints (t\<lparr>t_pipelines := [], t_edges := []\<rparr>)" "lineage_fits [] []"
  by (simp_all add: lineage_constraints_def unique_on_def refer_to_def lineage_fits_def)

lemma map_id_fresh_rows:
  assumes "\<And>i x. f (row i x) = i"
  shows "map f (fresh_rows row n xs) = [n..<n + length xs]"
proof -
  have "map f (fresh_rows row n xs) = map fst (zip [n..<n + length xs] xs)"
    unfolding fresh_rows_def map_map by (rule map_cong) (auto simp: assms)
  then show ?thesis by (simp only: map_fst_zip length_upt diff_add_inverse)
qed

definition row_for ::
  "(string \<times> pipeline_row) list \<Rightarrow> (dataset_ref \<times> dataset_row) list \<Rightarrow> uuid \<Rightarrow> lineage_edge \<Rightarrow> edge_row" where
  "row_for models datasets i e = edge_row_of i e (the (map_of models (pipeline_key (edge_pipeline e))))
     (the (map_of datasets (ref_dataset (edge_upstream e)))) (the (map_of datasets (ref_dataset (edge_downstream e))))"

lemma store_edges_run:
  assumes "\<forall>e \<in> set es. map_of models (pipeline_key (edge_pipeline e)) \<noteq> None \<and>
      map_of datasets (ref_dataset (edge_upstream e)) \<noteq> None \<and> map_of datasets (ref_dataset (edge_downstream e)) \<noteq> None"
  shows "forA es () (store_edge models datasets) s = (Inr (),
    s\<lparr>work := (work s)\<lparr>t_edges := t_edges (work s) @ fresh_rows (row_for models datasets) (id_supply s) es\<rparr>,
      id_supply := id_supply s + length es\<rparr>)"
  using assms
proof (induction es arbitrary: s)
  case (Cons e es)
  have one: "store_edge models datasets e () s = (Inr (),
      s\<lparr>work := (work s)\<lparr>t_edges := t_edges (work s) @ [row_for models datasets (id_supply s) e]\<rparr>, id_supply := Suc (id_supply s)\<rparr>)"
    using Cons.prems by (auto simp: store_edge_def bindA_def item_def new_id_def modify_def row_for_def)
  have "\<forall>e \<in> set es. map_of models (pipeline_key (edge_pipeline e)) \<noteq> None \<and>
      map_of datasets (ref_dataset (edge_upstream e)) \<noteq> None \<and> map_of datasets (ref_dataset (edge_downstream e)) \<noteq> None"
    using Cons.prems by simp
  note Cons.IH [OF this]
  then show ?case unfolding forA.simps bindA_step(1) [where m = "store_edge models datasets e ()", OF one] by simp
qed simp

lemma dom_models_of: "dom (map_of (models_of rows)) = pl_key ` set rows"
proof -
  have "dom (map_of (fold (\<lambda>r m. AList.update (pl_key r) r m) rows d)) = dom (map_of d) \<union> pl_key ` set rows" for d
    by (induction rows arbitrary: d) (auto simp: map_of_update)
  then show ?thesis by simp
qed

lemma dom_all_datasets_by_ref: "dom (map_of (all_datasets_by_ref t)) = row_ref ` set (t_datasets t)"
proof -
  have "dom (map_of (fold (\<lambda>r m. AList.update (row_ref r) r m) rows d)) = dom (map_of d) \<union> row_ref ` set rows" for d rows
    by (induction rows arbitrary: d) (auto simp: map_of_update)
  then show ?thesis by (simp add: all_datasets_by_ref_def)
qed

text \<open>The edges of a set that can be stored: their pipelines are given, their columns known.\<close>

definition storable :: "pipeline_definition list \<Rightarrow> lineage_edge list \<Rightarrow> tables \<Rightarrow> bool" where
  "storable ps es t \<longleftrightarrow> distinct (map pipeline_key ps) \<and> distinct (map pipeline_dag ps) \<and> distinct es \<and>
     (\<forall>p \<in> set ps. at_most 100 (pipeline_key p) \<and> at_most 250 (pipeline_dag p) \<and> at_most 200 (pipeline_owner p)) \<and>
     (\<forall>e \<in> set es. edge_pipeline e \<in> set ps \<and> edge_upstream e \<in> set (known_refs t) \<and> edge_downstream e \<in> set (known_refs t))"

lemma known_ref_dataset: "r \<in> set (known_refs t) \<Longrightarrow> \<exists>d \<in> set (t_datasets t). row_ref d = ref_dataset r"
  by (auto simp: known_refs_def)

lemma known_ref_fits: "data_ok t \<Longrightarrow> r \<in> set (known_refs t) \<Longrightarrow> at_most 63 (ref_name r)"
  by (auto simp: known_refs_def data_ok_def list_all_iff)

definition finds :: "pipeline_row list \<Rightarrow> tables \<Rightarrow> lineage_edge \<Rightarrow> pipeline_row \<Rightarrow> dataset_row \<Rightarrow> dataset_row \<Rightarrow> bool" where
  "finds rows t e p u d \<longleftrightarrow> map_of (models_of rows) (pipeline_key (edge_pipeline e)) = Some p \<and> p \<in> set rows \<and>
     pl_key p = pipeline_key (edge_pipeline e) \<and>
     map_of (all_datasets_by_ref t) (ref_dataset (edge_upstream e)) = Some u \<and> u \<in> set (t_datasets t) \<and>
     row_ref u = ref_dataset (edge_upstream e) \<and>
     map_of (all_datasets_by_ref t) (ref_dataset (edge_downstream e)) = Some d \<and> d \<in> set (t_datasets t) \<and>
     row_ref d = ref_dataset (edge_downstream e)"

lemma storable_finds:
  assumes "storable ps es t" and "map pl_key rows = map pipeline_key ps" and "e \<in> set es"
  obtains p u d where "finds rows t e p u d"
proof -
  have "pipeline_key (edge_pipeline e) \<in> dom (map_of (models_of rows))"
    using assms unfolding storable_def dom_models_of by (metis image_eqI image_set)
  moreover have "ref_dataset (edge_upstream e) \<in> dom (map_of (all_datasets_by_ref t))"
    "ref_dataset (edge_downstream e) \<in> dom (map_of (all_datasets_by_ref t))"
    using assms(1,3) known_ref_dataset unfolding storable_def dom_all_datasets_by_ref by (metis image_eqI)+
  ultimately obtain p u d where m: "map_of (models_of rows) (pipeline_key (edge_pipeline e)) = Some p"
    "map_of (all_datasets_by_ref t) (ref_dataset (edge_upstream e)) = Some u"
    "map_of (all_datasets_by_ref t) (ref_dataset (edge_downstream e)) = Some d" by blast
  have "p \<in> set rows \<and> pl_key p = pipeline_key (edge_pipeline e)" using map_of_fold_update [OF m(1)] by simp
  then have "finds rows t e p u d"
    using m all_datasets_by_ref_Some [OF m(2)] all_datasets_by_ref_Some [OF m(3)] by (simp add: finds_def)
  then show thesis by (rule that)
qed

definition edge_identity :: "edge_row \<Rightarrow> uuid \<times> uuid \<times> string \<times> uuid \<times> string" where
  "edge_identity r = (le_pipeline r, le_up_dataset r, le_up_column r, le_down_dataset r, le_down_column r)"

lemma edge_identity_row_for:
  assumes "finds rows t e p u d"
  shows "edge_identity (row_for (models_of rows) (all_datasets_by_ref t) i e) =
    (pl_id p, ds_id u, ref_name (edge_upstream e), ds_id d, ref_name (edge_downstream e))"
  using assms by (simp add: edge_identity_def row_for_def edge_row_of_def finds_def)

lemma edge_identity_inj:
  assumes "storable ps es t" and "map pl_key rows = map pipeline_key ps" and "unique_on pl_id rows"
    and "unique_on ds_id (t_datasets t)"
  shows "inj_on (\<lambda>e. edge_identity (row_for (models_of rows) (all_datasets_by_ref t) 0 e)) (set es)"
proof (rule inj_onI)
  fix e e' assume e: "e \<in> set es" and e': "e' \<in> set es"
    and same: "edge_identity (row_for (models_of rows) (all_datasets_by_ref t) 0 e) =
      edge_identity (row_for (models_of rows) (all_datasets_by_ref t) 0 e')"
  obtain p u d where f: "finds rows t e p u d" by (rule storable_finds [OF assms(1,2) e])
  obtain p' u' d' where f': "finds rows t e' p' u' d'" by (rule storable_finds [OF assms(1,2) e'])
  have eqs: "pl_id p = pl_id p'" "ds_id u = ds_id u'" "ds_id d = ds_id d'"
    "ref_name (edge_upstream e) = ref_name (edge_upstream e')" "ref_name (edge_downstream e) = ref_name (edge_downstream e')"
    using same unfolding edge_identity_row_for [OF f] edge_identity_row_for [OF f'] by simp_all
  have same_rows: "p = p'" "u = u'" "d = d'"
    using unique_onD [OF assms(3), of p p'] unique_onD [OF assms(4), of u u'] unique_onD [OF assms(4), of d d'] eqs f f'
    by (simp_all add: finds_def)
  have "pipeline_key (edge_pipeline e) = pipeline_key (edge_pipeline e')" using f f' same_rows unfolding finds_def by metis
  moreover have "edge_upstream e = edge_upstream e'" "edge_downstream e = edge_downstream e'"
    using f f' same_rows eqs unfolding finds_def by (metis column_ref.expand)+
  moreover have "edge_pipeline e \<in> set ps" "edge_pipeline e' \<in> set ps" "distinct (map pipeline_key ps)"
    using assms(1) e e' by (simp_all add: storable_def)
  ultimately show "e = e'" by (cases e; cases e') (simp add: distinct_map inj_on_def)
qed

lemma set_fresh_rows: "r \<in> set (fresh_rows row n xs) \<Longrightarrow> \<exists>i x. x \<in> set xs \<and> r = row i x"
  unfolding fresh_rows_def by (auto dest: set_zip_rightD)

lemma stored_edge_rows:
  assumes "storable ps es t" and "integrity_ok t" and "data_ok t"
    and "rows = fresh_rows pipeline_row_of n ps"
    and "edges = fresh_rows (row_for (models_of rows) (all_datasets_by_ref t)) m es"
  shows "lineage_constraints (t\<lparr>t_pipelines := rows, t_edges := edges\<rparr>) \<and> lineage_fits rows edges"
proof -
  let ?row = "row_for (models_of rows) (all_datasets_by_ref t)"
  have keys: "map pl_key rows = map pipeline_key ps" "map pl_dag rows = map pipeline_dag ps"
    unfolding assms(4) by (rule fresh_rows_image, simp add: pipeline_row_of_def)+
  have ids: "map pl_id rows = [n..<n + length ps]" "map le_id edges = [m..<m + length es]"
    unfolding assms(4,5) by (rule map_id_fresh_rows, simp add: pipeline_row_of_def row_for_def edge_row_of_def)+
  have unique: "unique_on pl_id rows" "unique_on ds_id (t_datasets t)"
    using ids assms(2) by (simp_all add: unique_on_def integrity_ok_def catalog_constraints_def)
  have "map edge_identity edges = map (\<lambda>e. edge_identity (?row 0 e)) es"
    unfolding assms(5) by (rule fresh_rows_image) (simp add: edge_identity_def row_for_def edge_row_of_def)
  then have identity: "unique_on edge_identity edges"
    using edge_identity_inj [OF assms(1) keys(1) unique] assms(1) by (simp add: unique_on_def distinct_map storable_def)
  have row: "le_pipeline r \<in> pl_id ` set rows \<and> le_up_dataset r \<in> ds_id ` set (t_datasets t) \<and>
      le_down_dataset r \<in> ds_id ` set (t_datasets t) \<and> at_most 63 (le_up_column r) \<and> at_most 63 (le_down_column r)"
    if r: "r \<in> set edges" for r
  proof -
    obtain i e where e: "e \<in> set es" "r = ?row i e" using set_fresh_rows [OF r [unfolded assms(5)]] by blast
    obtain p u d where f: "finds rows t e p u d" by (rule storable_finds [OF assms(1) keys(1) e(1)])
    have "edge_upstream e \<in> set (known_refs t)" "edge_downstream e \<in> set (known_refs t)"
      using assms(1) e(1) by (simp_all add: storable_def)
    then show ?thesis using f known_ref_fits [OF assms(3)] by (simp add: e(2) row_for_def edge_row_of_def finds_def)
  qed
  have "at_most 100 (pl_key r) \<and> at_most 250 (pl_dag r) \<and> at_most 200 (pl_owner r)" if r: "r \<in> set rows" for r
  proof -
    obtain i p where "p \<in> set ps" "r = pipeline_row_of i p" using set_fresh_rows [OF r [unfolded assms(4)]] by blast
    then show ?thesis using assms(1) by (simp add: storable_def pipeline_row_of_def)
  qed
  then have "lineage_fits rows edges" using row by (simp add: lineage_fits_def list_all_iff)
  moreover have "refer_to le_pipeline edges (map pl_id rows)" "refer_to le_up_dataset edges (map ds_id (t_datasets t))"
    "refer_to le_down_dataset edges (map ds_id (t_datasets t))"
    using row by (simp_all add: refer_to_def list_all_iff)
  ultimately show ?thesis
    using keys ids identity assms(1) unique(1)
    by (simp add: lineage_constraints_def unique_on_def storable_def edge_identity_def [abs_def])
qed

lemma lineage_updates: "t\<lparr>t_edges := es, t_pipelines := ps\<rparr> = (t :: tables)\<lparr>t_pipelines := ps, t_edges := es\<rparr>"
  by simp

lemma replace_catalog_total:
  assumes "usable s" and "storable ps es (work s)"
  shows "\<exists>s'. replace_catalog ps es s = (Inr (), s')"
proof -
  let ?t = "work s" and ?n = "id_supply s"
  define rows where "rows = fresh_rows pipeline_row_of ?n ps"
  define edges where "edges = fresh_rows (row_for (models_of rows) (all_datasets_by_ref ?t)) (?n + length ps) es"
  have ok: "integrity_ok ?t" "data_ok ?t" using assms(1) by (simp_all add: usable_def)
  have fits: "lineage_constraints (?t\<lparr>t_pipelines := rows, t_edges := edges\<rparr>)" "lineage_fits rows edges"
    using stored_edge_rows [OF assms(2) ok rows_def edges_def] by simp_all
  have key: "map pl_key rows = map pipeline_key ps"
    unfolding rows_def by (rule fresh_rows_image) (simp add: pipeline_row_of_def)
  let ?s0 = "s\<lparr>work := ?t\<lparr>t_edges := [], t_pipelines := []\<rparr>\<rparr>"
  let ?s1 = "s\<lparr>work := ?t\<lparr>t_edges := [], t_pipelines := rows\<rparr>, id_supply := ?n + length ps\<rparr>"
  let ?s2 = "s\<lparr>work := ?t\<lparr>t_edges := edges, t_pipelines := rows\<rparr>, id_supply := ?n + length ps + length es\<rparr>"
  have us: "usable ?s0" "usable ?s1" "usable ?s2"
  proof -
    have no_edges: "lineage_constraints (?t\<lparr>t_pipelines := rows, t_edges := []\<rparr>)" "lineage_fits rows []"
      using fits by (simp_all add: lineage_constraints_def unique_on_def refer_to_def lineage_fits_def)
    show "usable ?s0" using usable_lineage [OF assms(1) no_lineage, of ?n] by (simp add: lineage_updates)
    show "usable ?s1" using usable_lineage [OF assms(1) no_edges, of "?n + length ps"] by (simp add: lineage_updates)
    show "usable ?s2" using usable_lineage [OF assms(1) fits, of "?n + length ps + length es"] by (simp add: lineage_updates)
  qed
  have found: "\<forall>e \<in> set es. map_of (models_of rows) (pipeline_key (edge_pipeline e)) \<noteq> None \<and>
      map_of (all_datasets_by_ref ?t) (ref_dataset (edge_upstream e)) \<noteq> None \<and>
      map_of (all_datasets_by_ref ?t) (ref_dataset (edge_downstream e)) \<noteq> None"
  proof
    fix e assume "e \<in> set es"
    then obtain p u d where "finds rows ?t e p u d" by (rule storable_finds [OF assms(2) key])
    then show "map_of (models_of rows) (pipeline_key (edge_pipeline e)) \<noteq> None \<and>
      map_of (all_datasets_by_ref ?t) (ref_dataset (edge_upstream e)) \<noteq> None \<and>
      map_of (all_datasets_by_ref ?t) (ref_dataset (edge_downstream e)) \<noteq> None" by (simp add: finds_def)
  qed
  have read: "query all_datasets_by_ref s = (Inr (all_datasets_by_ref ?t), s)" by (rule usable_run(2) [OF assms(1)])
  have pipelines: "forA ps [] store_pipeline ?s0 = (Inr (models_of rows), ?s1)"
    unfolding store_pipelines_run rows_def by simp
  have edges_run: "forA es () (store_edge (models_of rows) (all_datasets_by_ref ?t)) ?s1 = (Inr (), ?s2)"
    unfolding store_edges_run [OF found] edges_def by simp
  have "replace_catalog ps es s = (Inr (), ?s2)"
    unfolding replace_catalog_def bindA_step(1) [where m = "query all_datasets_by_ref", OF read]
    by (simp add: thenA_def bindA_def modify_def usable_run(1) [OF us(1)] pipelines usable_run(1) [OF us(2)] edges_run usable_run(1) [OF us(3)])
  then show ?thesis by blast
qed

section \<open>The stored lineage is the declared one\<close>

definition others :: "tables \<Rightarrow> tables" where
  "others t = t\<lparr>t_pipelines := [], t_edges := []\<rparr>"

text \<open>C16. Synchronising refines the file: when it returns, the file held a valid catalog whose columns
  are all known and whose edges are no loops, the lineage that validation reads back is exactly the
  one it declares (every input of a pipeline feeding every output), whatever was stored before, its
  pipelines are the stored ones, ordered by key, and nothing else changed.\<close>

theorem sync_stores_catalog:
  assumes "sync sql_catalog_repository loader explain path s = (Inr r, s')"
  shows "\<exists>config. load_catalog loader explain path = Inr config \<and> declared_columns config \<subseteq> set (known_refs (work s)) \<and>
    (\<forall>e \<in> declared_edges config. edge_upstream e \<noteq> edge_downstream e) \<and>
    set (stored_edges (work s')) = declared_edges config \<and>
    map pipeline_of_row (t_pipelines (work s')) = sort_key pipeline_key (map configured_pipeline config) \<and>
    r = \<lparr>sync_pipelines = int (length config), sync_edges = int (card (declared_edges config))\<rparr> \<and>
    others (work s') = others (work s) \<and> usable s'"
proof -
  obtain config where c: "load_catalog loader explain path = Inr config" "acceptable config (set (known_refs (work s)))"
    "map pipeline_of_row (t_pipelines (work s')) = sort_key pipeline_key (map configured_pipeline config)"
    "set (stored_edges (work s')) = declared_edges config"
    "r = \<lparr>sync_pipelines = int (length config), sync_edges = int (card (declared_edges config))\<rparr>"
    and rep: "op_replace_catalog sql_catalog_repository (sort_key pipeline_key (map configured_pipeline config))
      (sort_key sync_edge_key (edges_of_config config [])) s = (Inr (), s')"
    by (rule sql_catalog.sync_returns [OF assms])
  from rep have rep': "replace_catalog (sort_key pipeline_key (map configured_pipeline config))
      (sort_key sync_edge_key (edges_of_config config [])) s = (Inr (), s')" by (simp add: sql_catalog_repository_def)
  have "others (work s') = others (work s) \<and> usable s'"
    by (rule replace_catalog_Inr [OF rep']) (simp add: others_def)
  then show ?thesis using c by (intro exI [of _ config]) (simp add: acceptable_def)
qed

definition names_fit :: "criticality catalog_config \<Rightarrow> bool" where
  "names_fit config \<longleftrightarrow> (\<forall>c \<in> set config. at_most 100 (pcfg_key c) \<and> at_most 250 (pcfg_dag c) \<and> at_most 200 (pcfg_owner c))"

lemma known_columns_run: "usable s \<Longrightarrow> op_known_columns sql_catalog_repository s = (Inr (known_refs (work s)), s)"
  by (simp add: sql_catalog_repository_def known_columns_def usable_run)

lemma declared_edges_declared:
  assumes "e \<in> declared_edges config"
  shows "edge_pipeline e \<in> configured_pipeline ` set config \<and> edge_upstream e \<in> declared_columns config \<and>
    edge_downstream e \<in> declared_columns config"
  using assms by (auto simp: declared_edges_def declared_columns_def)

lemma acceptable_storable:
  assumes "well_formed_catalog config" and "acceptable config (set (known_refs t))" and "names_fit config"
  shows "storable (sort_key pipeline_key (map configured_pipeline config)) (sort_key sync_edge_key (edges_of_config config [])) t"
proof -
  have d: "distinct (map f (sort_key pipeline_key (map configured_pipeline config)))"
    if g: "distinct (map g config)" "\<And>c. f (configured_pipeline c) = g c" for f :: "pipeline_definition \<Rightarrow> string" and g
  proof -
    have same: "map f (map configured_pipeline config) = map g config" by (simp add: g(2))
    have "distinct (map f (map configured_pipeline config))" unfolding same by (rule g(1))
    then show ?thesis unfolding distinct_map set_sort distinct_sort .
  qed
  have "distinct (map pipeline_key (sort_key pipeline_key (map configured_pipeline config)))"
    "distinct (map pipeline_dag (sort_key pipeline_key (map configured_pipeline config)))"
    using assms(1) by (rule_tac d, simp_all add: well_formed_catalog_def configured_pipeline_def)+
  moreover have "edge_pipeline e \<in> configured_pipeline ` set config \<and> edge_upstream e \<in> set (known_refs t) \<and>
      edge_downstream e \<in> set (known_refs t)" if "e \<in> declared_edges config" for e
    using declared_edges_declared [OF that] assms(2) by (auto simp: acceptable_def)
  ultimately show ?thesis
    using assms(3) distinct_edges_of_config [of "[]" config]
    by (auto simp: storable_def set_edges_of_config names_fit_def configured_pipeline_def)
qed

lemma sync_total:
  assumes "usable s" and "load_catalog loader explain path = Inr config" and "names_fit config"
    and "acceptable config (set (known_refs (work s)))"
  shows "\<exists>r s'. sync sql_catalog_repository loader explain path s = (Inr r, s')"
proof -
  have wf: "well_formed_catalog config" by (rule load_catalog_well_formed [OF assms(2)])
  then have valid: "\<forall>c \<in> set config. \<forall>s \<in> set (pcfg_inputs c) \<union> set (pcfg_outputs c). valid_column_set s"
    by (simp add: well_formed_catalog_def)
  have edges: "collect_edges config (known_refs (work s)) [] = Inr (edges_of_config config [])"
    using collect_edges_eq [OF valid] assms(4) by simp
  obtain s' where "replace_catalog (sort_key pipeline_key (map configured_pipeline config))
      (sort_key sync_edge_key (edges_of_config config [])) s = (Inr (), s')"
    using replace_catalog_total [OF assms(1) acceptable_storable [OF wf assms(4,3)]] by blast
  then have "op_replace_catalog sql_catalog_repository (sort_key pipeline_key (map configured_pipeline config))
      (sort_key sync_edge_key (edges_of_config config [])) s = (Inr (), s')" by (simp add: sql_catalog_repository_def)
  then show ?thesis
    by (simp add: sync_def bindA_def thenA_def assms(2) known_columns_run [OF assms(1)] edges Let_def)
qed

text \<open>Whether a catalog is stored is decided by the file and the known columns alone: on usable
  tables a readable, valid catalog whose names fit their columns is stored if all its columns are
  known and no column feeds itself, and refused with a \<open>CatalogValidationError\<close> otherwise; a refusal
  has no effect.\<close>

theorem sync_decides:
  assumes "usable s" and "load_catalog loader explain path = Inr config" and "names_fit config"
  shows "if acceptable config (set (known_refs (work s)))
    then \<exists>r s'. sync sql_catalog_repository loader explain path s = (Inr r, s')
    else \<exists>m. sync sql_catalog_repository loader explain path s = (Inl (CatalogValidationError m), s)"
  using sync_total [OF assms] sql_catalog.sync_refused [OF assms(2) _ known_columns_run [OF assms(1)]] by simp

section \<open>The digest\<close>

type_synonym edge_content = "string \<times> uuid \<times> string \<times> uuid \<times> string"

definition content_of :: "(dataset_ref \<times> dataset_row) list \<Rightarrow> lineage_edge \<Rightarrow> edge_content" where
  "content_of datasets e = (pipeline_key (edge_pipeline e),
     ds_id (the (map_of datasets (ref_dataset (edge_upstream e)))), ref_name (edge_upstream e),
     ds_id (the (map_of datasets (ref_dataset (edge_downstream e)))), ref_name (edge_downstream e))"

definition row_content :: "edge_row \<times> pipeline_row \<Rightarrow> edge_content" where
  "row_content = (\<lambda>(e, p). (pl_key p, le_up_dataset e, le_up_column e, le_down_dataset e, le_down_column e))"

definition edge_json :: "edge_content \<Rightarrow> json" where
  "edge_json = (\<lambda>(k, u, uc, d, dc). JObj [(''pipeline'', JStr k), (''upstream_dataset_id'', JStr (show_uuid u)),
     (''upstream_column'', JStr uc), (''downstream_dataset_id'', JStr (show_uuid d)), (''downstream_column'', JStr dc)])"

definition collated :: "(string \<Rightarrow> string) \<Rightarrow> edge_content \<Rightarrow> edge_content" where
  "collated collate = (\<lambda>(k, u, uc, d, dc). (collate k, u, collate uc, d, collate dc))"

lemma joined_single:
  assumes "unique_on pl_id rows" and "p \<in> set rows"
  shows "[(e, q). q \<leftarrow> rows, pl_id p = pl_id q] = [(e, p)]"
  using assms
proof (induction rows)
  case (Cons q rows)
  have d: "unique_on pl_id rows" using Cons.prems(1) by (simp add: unique_on_def)
  show ?case
  proof (cases "q = p")
    case True
    then have "pl_id p \<noteq> pl_id r" if "r \<in> set rows" for r using Cons.prems(1) that by (auto simp: unique_on_def)
    then have "[(e, r). r \<leftarrow> rows, pl_id p = pl_id r] = []" by (simp add: concat_eq_Nil_conv)
    then show ?thesis using True by simp
  next
    case False
    then have p: "p \<in> set rows" using Cons.prems(2) by simp
    moreover have "pl_id q \<notin> pl_id ` set rows" using Cons.prems(1) by (simp add: unique_on_def)
    ultimately have "pl_id p \<noteq> pl_id q" by (metis imageI)
    then show ?thesis using Cons.IH [OF d p] by simp
  qed
qed simp

lemma joined_content:
  assumes "list_all2 (edge_stored (models_of rows) datasets) es edges" and "unique_on pl_id rows"
  shows "map row_content [(e, p). e \<leftarrow> edges, p \<leftarrow> rows, le_pipeline e = pl_id p] = map (content_of datasets) es"
  using assms(1)
proof (induction rule: list_all2_induct)
  case (Cons e es r edges)
  obtain i p u d where m: "map_of (models_of rows) (pipeline_key (edge_pipeline e)) = Some p"
    "map_of datasets (ref_dataset (edge_upstream e)) = Some u" "map_of datasets (ref_dataset (edge_downstream e)) = Some d"
    and r: "r = edge_row_of i e p u d"
    using Cons(1) by (auto simp: edge_stored_def)
  have p: "p \<in> set rows" "pl_key p = pipeline_key (edge_pipeline e)" using map_of_fold_update [OF m(1)] by simp_all
  have le: "le_pipeline r = pl_id p" by (simp add: r edge_row_of_def)
  have "[(r, q). q \<leftarrow> rows, le_pipeline r = pl_id q] = [(r, p)]"
    unfolding le joined_single [OF assms(2) p(1)] by (rule refl)
  moreover have "row_content (r, p) = content_of datasets e"
    by (simp add: row_content_def content_of_def m p r edge_row_of_def)
  ultimately show ?case using Cons.IH by simp
qed simp

lemma digest_after_replace:
  assumes "replace_catalog ps es s = (Inr v, s')"
  shows "digest_payload collate (work s') = JObj
     [(''pipelines'', JArr (map (\<lambda>p. digest_pipeline (pipeline_row_of 0 p)) (sort_key (\<lambda>p. collate (pipeline_key p)) ps))),
      (''edges'', JArr (map edge_json (sort_key (collated collate) (map (content_of (all_datasets_by_ref (work s))) es))))]"
proof -
  let ?ps = "fresh_rows pipeline_row_of (id_supply s) ps"
  obtain rows where us: "usable s'" and w: "work s' = (work s)\<lparr>t_pipelines := ?ps, t_edges := rows\<rparr>"
    and st: "list_all2 (edge_stored (models_of ?ps) (all_datasets_by_ref (work s))) es rows"
    by (rule replace_catalog_Inr [OF assms])
  have unique: "unique_on pl_id ?ps"
    by (simp add: unique_on_def map_id_fresh_rows [of pl_id pipeline_row_of] pipeline_row_of_def)
  let ?joined = "[(e, p). e \<leftarrow> rows, p \<leftarrow> ?ps, le_pipeline e = pl_id p]"
  let ?k = "\<lambda>(e, p). (collate (pl_key p), le_up_dataset e, collate (le_up_column e), le_down_dataset e, collate (le_down_column e))"
  have json: "digest_edge x = edge_json (row_content x)" "collated collate (row_content x) = ?k x" for x
    by (cases x, simp add: digest_edge_def edge_json_def row_content_def collated_def)+
  have "map digest_edge (sort_key ?k ?joined) = map edge_json (map row_content (sort_key ?k ?joined))"
    by (simp add: json(1))
  also have "map row_content (sort_key ?k ?joined) = sort_key (collated collate) (map row_content ?joined)"
    by (rule sort_key_map [where f = ?k, symmetric]) (rule json(2))
  finally have edges: "map digest_edge (digest_edge_rows collate (work s')) =
      map edge_json (sort_key (collated collate) (map (content_of (all_datasets_by_ref (work s))) es))"
    by (simp add: digest_edge_rows_def w joined_content [OF st unique])
  have row: "digest_pipeline r = digest_pipeline (pipeline_row_of 0 (pipeline_of_row r))"
    "collate (pipeline_key (pipeline_of_row r)) = collate (pl_key r)" for r
    by (simp_all add: digest_pipeline_def pipeline_row_of_def pipeline_of_row_def)
  have "map digest_pipeline (sort_key (\<lambda>p. collate (pl_key p)) ?ps) =
      map (\<lambda>p. digest_pipeline (pipeline_row_of 0 p)) (map pipeline_of_row (sort_key (\<lambda>p. collate (pl_key p)) ?ps))"
    by (simp add: row(1) [symmetric])
  also have "map pipeline_of_row (sort_key (\<lambda>p. collate (pl_key p)) ?ps) = sort_key (\<lambda>p. collate (pipeline_key p)) (map pipeline_of_row ?ps)"
    by (rule sort_key_map [where f = "\<lambda>p. collate (pl_key p)", symmetric]) (rule row(2))
  finally show ?thesis unfolding digest_payload_def edges map_pipeline_fresh_rows by (simp add: w)
qed

lemma edges_of_config_mset:
  assumes "mset c1 = mset c2" and "well_formed_catalog c1" and "well_formed_catalog c2"
  shows "sort_key sync_edge_key (edges_of_config c1 []) = sort_key sync_edge_key (edges_of_config c2 [])"
proof (rule sort_key_inj_key_eq)
  have "set c1 = set c2" using assms(1) by (metis set_mset_mset)
  then have "set (edges_of_config c1 []) = set (edges_of_config c2 [])"
    by (simp add: set_edges_of_config declared_edges_def)
  then have "mset (edges_of_config c1 []) = mset (edges_of_config c2 [])"
    by (simp add: set_eq_iff_mset_eq_distinct [symmetric] distinct_edges_of_config)
  then show "mset (edges_of_config c1 []) = mset (sort_key sync_edge_key (edges_of_config c2 []))" by simp
  show "inj_on sync_edge_key (set (edges_of_config c1 []))"
    using sync_edge_key_inj [OF assms(2)] by (simp add: set_edges_of_config)
qed simp

lemma pipelines_of_config_mset:
  assumes "mset c1 = mset c2" and "well_formed_catalog c1"
  shows "sort_key pipeline_key (map configured_pipeline c1) = sort_key pipeline_key (map configured_pipeline c2)"
proof (rule sort_key_inj_key_eq)
  show "mset (map configured_pipeline c1) = mset (sort_key pipeline_key (map configured_pipeline c2))"
    using assms(1) by simp
  show "inj_on pipeline_key (set (map configured_pipeline c1))"
    using assms(2) by (auto simp: well_formed_catalog_def distinct_map inj_on_def configured_pipeline_def)
qed simp

text \<open>C36. The digest of a stored catalog depends on the catalog and the datasets only: whatever was
  stored before, in whatever order a file lists its pipelines, and with whatever new identifiers,
  two synchronisations over the same datasets give the same digest. So synchronising again changes
  no digest.\<close>

theorem catalog_digest_stable:
  assumes "sync sql_catalog_repository loader1 explain path1 s1 = (Inr r1, s1')"
    and "sync sql_catalog_repository loader2 explain path2 s2 = (Inr r2, s2')"
    and "load_catalog loader1 explain path1 = Inr c1" and "load_catalog loader2 explain path2 = Inr c2"
    and "mset c1 = mset c2" and "t_datasets (work s1) = t_datasets (work s2)"
  shows "r1 = r2 \<and> fst (catalog_digest collate s1') = fst (catalog_digest collate s2')"
proof -
  have wf: "well_formed_catalog c1" "well_formed_catalog c2" by (rule load_catalog_well_formed [OF assms(3)], rule load_catalog_well_formed [OF assms(4)])
  obtain d1 where d1: "load_catalog loader1 explain path1 = Inr d1"
      "r1 = \<lparr>sync_pipelines = int (length d1), sync_edges = int (card (declared_edges d1))\<rparr>"
    and p1: "op_replace_catalog sql_catalog_repository (sort_key pipeline_key (map configured_pipeline d1))
      (sort_key sync_edge_key (edges_of_config d1 [])) s1 = (Inr (), s1')"
    by (rule sql_catalog.sync_returns [OF assms(1)])
  obtain d2 where d2: "load_catalog loader2 explain path2 = Inr d2"
      "r2 = \<lparr>sync_pipelines = int (length d2), sync_edges = int (card (declared_edges d2))\<rparr>"
    and p2: "op_replace_catalog sql_catalog_repository (sort_key pipeline_key (map configured_pipeline d2))
      (sort_key sync_edge_key (edges_of_config d2 [])) s2 = (Inr (), s2')"
    by (rule sql_catalog.sync_returns [OF assms(2)])
  have same: "d1 = c1" "d2 = c2" using d1(1) d2(1) assms(3,4) by simp_all
  have "set c1 = set c2" "length c1 = length c2" using assms(5) by (metis set_mset_mset, metis size_mset)
  then have r: "r1 = r2" by (simp add: d1(2) d2(2) same declared_edges_def)
  note rep = p1 [unfolded same sql_catalog_repository_def, simplified] p2 [unfolded same sql_catalog_repository_def, simplified]
  have "all_datasets_by_ref (work s1) = all_datasets_by_ref (work s2)" by (simp add: all_datasets_by_ref_def assms(6))
  then have "digest_payload collate (work s1') = digest_payload collate (work s2')"
    unfolding digest_after_replace [OF rep(1)] digest_after_replace [OF rep(2)]
      pipelines_of_config_mset [OF assms(5) wf(1)] edges_of_config_mset [OF assms(5) wf] by simp
  moreover have "usable s1'" "usable s2'" by (rule replace_catalog_Inr [OF rep(1)], simp) (rule replace_catalog_Inr [OF rep(2)], simp)
  ultimately show ?thesis using r by (simp add: catalog_digest_def usable_run)
qed

section \<open>Examples\<close>

definition catalog_session :: "uuid \<Rightarrow> session" where
  "catalog_session n = fresh_session (sample_tables\<lparr>t_expected := t_expected sample_tables @
     [(hd (t_expected sample_tables))\<lparr>ex_id := 4, ex_name := ''total'', ex_ordinal := 2\<rparr>]\<rparr>) n"

definition sample_loader :: loader where
  "sample_loader path = Inr [\<lparr>pcfg_key = ''daily'', pcfg_dag = ''daily_dag'', pcfg_owner = ''team'', pcfg_criticality = JStr ''high'',
     pcfg_inputs = [\<lparr>cs_dataset = ''public.orders'', cs_columns = [''id'']\<rparr>],
     pcfg_outputs = [\<lparr>cs_dataset = ''public.orders'', cs_columns = [''total'']\<rparr>]\<rparr>]"

definition sample_config :: "criticality catalog_config" where
  "sample_config = [\<lparr>pcfg_key = ''daily'', pcfg_dag = ''daily_dag'', pcfg_owner = ''team'', pcfg_criticality = HIGH,
     pcfg_inputs = [\<lparr>cs_dataset = ''public.orders'', cs_columns = [''id'']\<rparr>],
     pcfg_outputs = [\<lparr>cs_dataset = ''public.orders'', cs_columns = [''total'']\<rparr>]\<rparr>]"

abbreviation sample_sync :: "(session, catalog_sync_result) action" where
  "sample_sync \<equiv> sync sql_catalog_repository sample_loader (\<lambda>_. '''') ''catalog.yaml''"

lemma sample_load: "load_catalog sample_loader (\<lambda>_. '''') ''catalog.yaml'' = Inr sample_config"
  by code_simp

lemma catalog_session_usable: "usable (catalog_session n)"
  by (simp add: usable_def catalog_session_def sample_defs constraint_defs at_most_def [of 63] at_most_def [of 100]
      at_most_def [of 200] int32_def)

lemma sample_known: "set (known_refs (work (catalog_session n))) =
    {ColumnRef (DatasetRef ''public'' ''orders'') ''id'', ColumnRef (DatasetRef ''public'' ''orders'') ''total''}"
  by (simp add: known_refs_def catalog_session_def sample_defs row_ref_def)

lemma sample_declared:
  "declared_refs [\<lparr>cs_dataset = ''public.orders'', cs_columns = [c]\<rparr>] = {ColumnRef (DatasetRef ''public'' ''orders'') c}"
  unfolding set_listed_refs [symmetric] by simp

lemma sample_acceptable: "acceptable sample_config (set (known_refs (work (catalog_session n))))"
  unfolding acceptable_iff sample_known by (simp add: sample_config_def sample_declared)

lemma sample_fits: "names_fit sample_config"
  by (simp add: names_fit_def sample_config_def at_most_def)

lemma sample_sync_returns: "\<exists>r s'. sample_sync (catalog_session n) = (Inr r, s')"
  by (rule sync_total [OF catalog_session_usable sample_load sample_fits sample_acceptable])

theorem sync_stores_catalog_witness:
  "\<exists>r s'. sample_sync (catalog_session 40) = (Inr r, s') \<and>
     set (stored_edges (work s')) = {\<lparr>edge_pipeline = configured_pipeline (hd sample_config),
       edge_upstream = ColumnRef (DatasetRef ''public'' ''orders'') ''id'',
       edge_downstream = ColumnRef (DatasetRef ''public'' ''orders'') ''total''\<rparr>}"
proof -
  obtain r s' where run: "sample_sync (catalog_session 40) = (Inr r, s')" using sample_sync_returns by blast
  have "declared_edges sample_config = {\<lparr>edge_pipeline = configured_pipeline (hd sample_config),
       edge_upstream = ColumnRef (DatasetRef ''public'' ''orders'') ''id'',
       edge_downstream = ColumnRef (DatasetRef ''public'' ''orders'') ''total''\<rparr>}"
    by (simp add: declared_edges_def sample_config_def sample_declared)
  then show ?thesis using sync_stores_catalog [OF run] run sample_load by auto
qed

theorem sync_decides_witness: "\<exists>r s'. sample_sync (catalog_session 40) = (Inr r, s')"
  using sync_decides [OF catalog_session_usable sample_load sample_fits, of 40] sample_acceptable [of 40] by simp

theorem catalog_digest_stable_witness:
  "fst (catalog_digest id (snd (sample_sync (catalog_session 40)))) = fst (catalog_digest id (snd (sample_sync (catalog_session 90))))"
proof -
  obtain r1 s1 where one: "sample_sync (catalog_session 40) = (Inr r1, s1)" using sample_sync_returns by blast
  obtain r2 s2 where two: "sample_sync (catalog_session 90) = (Inr r2, s2)" using sample_sync_returns by blast
  have "t_datasets (work (catalog_session 40)) = t_datasets (work (catalog_session 90))"
    by (simp add: catalog_session_def fresh_session_def)
  then show ?thesis using catalog_digest_stable [OF one two sample_load sample_load refl] one two by simp
qed

end
