(* ===== verification/Cli.thy ===== *)
theory Cli
  imports App Catalog
begin

text \<open>
  \<open>cli.py\<close>: the command that synchronises the catalog, in a transaction of its own.
\<close>

section \<open>The synchronisation\<close>

definition sync_catalog_scope ::
  "py_error + settings \<Rightarrow> loader \<Rightarrow> (json catalog_config \<Rightarrow> string) \<Rightarrow> string \<Rightarrow> catalog_sync_result world_db" where
  "sync_catalog_scope settings loader explain path =
     bindA (liftA settings) (\<lambda>_.
       other_session (on_db (session_scope (sync sql_catalog_repository loader explain path))))"

definition sync_message :: "catalog_sync_result \<Rightarrow> string" where
  "sync_message result =
     ''synced pipelines='' @ show_int (sync_pipelines result) @ '' edges='' @ show_int (sync_edges result)"

definition sync_catalog ::
  "py_error + settings \<Rightarrow> loader \<Rightarrow> (json catalog_config \<Rightarrow> string) \<Rightarrow> string \<Rightarrow> string world_db" where
  "sync_catalog settings loader explain path =
     bindA (sync_catalog_scope settings loader explain path) (\<lambda>result. returnA (sync_message result))"

section \<open>What it leaves alone\<close>

definition scans_and_deliveries :: "tables \<Rightarrow> scan_row list \<times> delivery_row list" where
  "scans_and_deliveries t = (t_scans t, t_deliveries t)"

lemma keeps_parts:
  assumes "keeps scans_and_deliveries m"
  shows "keeps t_scans m" "keeps t_deliveries m"
  using assms by (auto simp: keeps_def scans_and_deliveries_def)

lemma keeps_replace: "keeps scans_and_deliveries (replace_catalog ps es)"
proof -
  have "keeps scans_and_deliveries (store_pipeline p m)" for p m
    unfolding store_pipeline_def by (intro keeps_bindA keeps_thenA keeps_basic keeps_modify) (simp add: scans_and_deliveries_def)
  moreover have "keeps scans_and_deliveries (store_edge ms ds e u)" for ms ds e u
    unfolding store_edge_def by (intro keeps_bindA keeps_basic keeps_modify) (simp add: scans_and_deliveries_def)
  moreover have "keeps scans_and_deliveries (modify (\<lambda>t. t\<lparr>t_edges := []\<rparr>))" "keeps scans_and_deliveries (modify (\<lambda>t. t\<lparr>t_pipelines := []\<rparr>))"
    by (rule keeps_modify, simp add: scans_and_deliveries_def)+
  ultimately show ?thesis
    unfolding replace_catalog_def by (intro keeps_bindA keeps_thenA keeps_forA keeps_basic)
qed

lemma keeps_durable_replace: "keeps_durable (replace_catalog ps es)"
proof -
  have "keeps_durable (store_pipeline p m)" for p m
    unfolding store_pipeline_def by (intro durable_rules)
  moreover have "keeps_durable (store_edge ms ds e u)" for ms ds e u
    unfolding store_edge_def by (intro durable_rules)
  ultimately show ?thesis
    unfolding replace_catalog_def by (intro durable_rules)
qed

lemma keeps_sync: "keeps scans_and_deliveries (sync sql_catalog_repository loader explain path)"
  unfolding sync_def sql_catalog_repository_def known_columns_def Let_def catalog_persistence.simps
  by (intro keeps_bindA keeps_thenA keeps_basic keeps_replace)

lemma keeps_durable_sync: "keeps_durable (sync sql_catalog_repository loader explain path)"
  unfolding sync_def sql_catalog_repository_def known_columns_def Let_def catalog_persistence.simps
  by (intro durable_rules keeps_durable_replace)

lemma sync_scope_leaves:
  assumes "session_scope (sync sql_catalog_repository loader explain path) s = (r, s')" and "work s = durable s"
  shows "scans_and_deliveries (durable s') = scans_and_deliveries (durable s) \<and> (declared_ok (durable s) \<longrightarrow> declared_ok (durable s'))"
proof (cases r)
  case (Inl e)
  then show ?thesis using session_scope_Inl [OF keeps_durable_sync] assms(1) by simp
next
  case (Inr x)
  then obtain t where t: "sync sql_catalog_repository loader explain path s = (Inr x, t)" "usable t"
    "s' = t\<lparr>durable := work t\<rparr>"
    using assms(1) by (auto simp: session_scope_Inr)
  then have "scans_and_deliveries (work t) = scans_and_deliveries (work s)"
    using keeps_sync [of loader explain path] unfolding keeps_def usable_def by (metis snd_conv)
  then show ?thesis using t assms(2) by (simp add: usable_def declared_ok_def)
qed

end
