(* ===== verification/History.thy ===== *)
theory History
  imports Cli
begin

text \<open>
  Everything that can happen to the metadata: requests to the application, in any order, with any clock, any
  answer of the source and of the providers, and synchronisations of the catalog (\<open>cli.py\<close>). The invariant of
  the committed tables: every declared constraint holds, and every delivery is at rest with at most three
  attempts.
\<close>

section \<open>Deliveries at rest\<close>

definition deliveries_ok :: "tables \<Rightarrow> bool" where
  "deliveries_ok t \<longleftrightarrow> (\<forall>i d. deliveries_in t i = Some d \<longrightarrow> delivery_ok d)"

lemma deliveries_ok_cong: "t_deliveries t = t_deliveries t' \<Longrightarrow> deliveries_ok t = deliveries_ok t'"
  by (simp add: deliveries_ok_def deliveries_in_def find_delivery_def)

definition maintains :: "'a db \<Rightarrow> bool" where
  "maintains m \<longleftrightarrow> (\<forall>s. (poisoned s \<longrightarrow> poisoned (snd (m s))) \<and>
     (\<not> poisoned (snd (m s)) \<longrightarrow> deliveries_ok (work s) \<longrightarrow> deliveries_ok (work (snd (m s)))))"

lemma maintains_keeps: "keeps t_deliveries m \<Longrightarrow> maintains m"
  unfolding keeps_def maintains_def using deliveries_ok_cong by metis

lemma maintains_bindA:
  assumes "maintains m" and "\<And>x. maintains (f x)"
  shows "maintains (bindA m f)"
  unfolding maintains_def
proof
  fix s
  obtain r s1 where m: "m s = (r, s1)" by fastforce
  show "(poisoned s \<longrightarrow> poisoned (snd (bindA m f s))) \<and>
     (\<not> poisoned (snd (bindA m f s)) \<longrightarrow> deliveries_ok (work s) \<longrightarrow> deliveries_ok (work (snd (bindA m f s))))"
  proof (cases r)
    case (Inl e)
    then have "snd (bindA m f s) = snd (m s)" using m by (simp add: bindA_def)
    then show ?thesis using assms(1) unfolding maintains_def by metis
  next
    case (Inr x)
    then have "bindA m f s = f x s1" using m by (simp add: bindA_def)
    then show ?thesis using assms(1) assms(2) [of x] m unfolding maintains_def by (metis snd_conv)
  qed
qed

lemma maintains_exceptA:
  assumes "maintains m" and "\<And>e. maintains (h e)"
  shows "maintains (exceptA m h)"
  unfolding maintains_def
proof
  fix s
  obtain r s1 where m: "m s = (r, s1)" by fastforce
  show "(poisoned s \<longrightarrow> poisoned (snd (exceptA m h s))) \<and>
     (\<not> poisoned (snd (exceptA m h s)) \<longrightarrow> deliveries_ok (work s) \<longrightarrow> deliveries_ok (work (snd (exceptA m h s))))"
  proof (cases r)
    case (Inr x)
    then have "snd (exceptA m h s) = snd (m s)" using m by (simp add: exceptA_def)
    then show ?thesis using assms(1) unfolding maintains_def by metis
  next
    case (Inl e)
    then have "exceptA m h s = h e s1" using m by (simp add: exceptA_def)
    then show ?thesis using assms(1) assms(2) [of e] m unfolding maintains_def by (metis snd_conv)
  qed
qed

lemma maintains_thenA: "maintains m \<Longrightarrow> maintains k \<Longrightarrow> maintains (thenA m k)"
  by (simp add: thenA_def maintains_bindA)

lemma find_delivery_append:
  "find_delivery i (t\<lparr>t_deliveries := rows @ new\<rparr>) =
     (case List.find (\<lambda>r. dl_id r = i) rows of Some r \<Rightarrow> Some r | None \<Rightarrow> List.find (\<lambda>r. dl_id r = i) new)"
  by (simp add: find_delivery_def find_append)

lemma pending_ok: "delivery_ok (delivery_record_of (delivery_row_of now scan i channel))"
  by (simp add: delivery_ok_def delivery_record_of_def delivery_row_of_def)

lemma maintains_create: "maintains (create_pending_deliveries channels now scan)"
  unfolding maintains_def
proof (intro allI conjI impI)
  fix s :: session
  assume ok: "deliveries_ok (work s)"
  let ?rows = "fresh_rows (delivery_row_of now scan) (id_supply s) channels"
  have new: "delivery_ok (delivery_record_of r)" if "List.find (\<lambda>r. dl_id r = i) ?rows = Some r" for i r
    using that pending_ok by (auto simp: find_Some_iff fresh_rows_def)
  have old: "delivery_ok (delivery_record_of r)" if "List.find (\<lambda>r. dl_id r = i) (t_deliveries (work s)) = Some r" for i r
    using ok that by (auto simp: deliveries_ok_def deliveries_in_def find_delivery_def)
  show "deliveries_ok (work (snd (create_pending_deliveries channels now scan s)))"
    unfolding create_pending_deliveries_run deliveries_ok_def deliveries_in_def
    by (auto simp: find_delivery_append split: option.splits intro: new old)
qed (simp add: create_pending_deliveries_run)

lemma maintains_alerts: "maintains (if b then create_pending_deliveries channels now scan else returnA ())"
  by (simp add: maintains_create) (intro impI maintains_keeps keeps_basic)

section \<open>Scans and acceptances\<close>

lemma keeps_deliveries_steps:
  "keeps t_deliveries (dataset_for source c ds)" "keeps t_deliveries (record_change k source scan now ds' opens chg a)"
  "keeps t_deliveries (resolve_change active f x u)" "keeps t_deliveries (persist_observations scan cs)"
  "keeps t_deliveries (complete_scan scan f)"
proof -
  show "keeps t_deliveries (dataset_for source c ds)"
    by (cases "map_of ds (col_dataset c)") (simp_all add: dataset_for_def Let_def, (intro keeps_rules; simp)+)
  show "keeps t_deliveries (record_change k source scan now ds' opens chg a)"
    by (cases a; cases "map_of ds' (change_dataset chg)")
      (simp_all add: record_change_def Let_def, (intro conjI impI keeps_rules; simp)+)
  show "keeps t_deliveries (resolve_change active f x u)" by (cases x) (auto simp: resolve_change_def)
qed (auto simp: persist_observations_def complete_scan_def intro!: keeps_rules)

lemma keeps_reads_initial:
  "keeps t_deliveries (load_expected_columns c k)" "keeps t_deliveries (load_dependency_columns c k)"
  "keeps t_deliveries (complete_initial_baseline i k observed f)" "keeps t_deliveries (create_running_scan k tr now)"
  "keeps t_deliveries (try_source_lock acquired)"
  unfolding load_expected_columns_def load_dependency_columns_def complete_initial_baseline_def store_expected_def
    datasets_by_ref_def create_running_scan_def try_source_lock_def
  by (auto intro!: keeps_bindA keeps_thenA keeps_forA keeps_find_source keeps_find_scan keeps_basic keeps_deliveries_steps
      keeps_modify simp: case_prod_unfold)

lemmas maintains_leaves = keeps_reads_initial [THEN maintains_keeps] keeps_find_source [THEN maintains_keeps]
  keeps_find_scan [THEN maintains_keeps] keeps_basic [THEN maintains_keeps] keeps_deliveries_steps [THEN maintains_keeps]
  maintains_alerts maintains_create

lemma maintains_merge:
  "maintains (forA changes a (record_change k source scan now ds opens))"
  "maintains (forA opens () (resolve_change active f))" "maintains (datasets_by_ref i)"
  unfolding datasets_by_ref_def by (intro maintains_keeps keeps_forA keeps_deliveries_steps keeps_basic)+

lemma maintains_drift: "maintains (complete_drift_scan channels now i k observed changes f)"
  unfolding complete_drift_scan_def case_prod_unfold
  by (intro maintains_bindA maintains_thenA maintains_merge maintains_leaves)

lemma maintains_fail: "maintains (fail_scan channels now i c m g)"
proof -
  have "maintains (modify (\<lambda>t. t\<lparr>t_scans := update_where p u (t_scans t)\<rparr>))" for p u
    by (intro maintains_keeps keeps_modify) simp
  then show ?thesis unfolding fail_scan_def by (intro maintains_bindA maintains_thenA maintains_leaves)
qed

lemma maintains_run: "maintains (run_scan (sql_scan_repository env) collector f g key trigger)"
  unfolding run_scan_def scan_body_def sql_scan_repository_def scan_persistence.simps
  by (auto intro!: maintains_bindA maintains_thenA maintains_exceptA maintains_drift maintains_fail maintains_leaves)

lemma accept_steps:
  "accept (sql_change_repository now) i v =
     bindA (query (find_open_change i)) (\<lambda>change. case change of None \<Rightarrow> raiseA (ChangeNotFound i) | Some c \<Rightarrow>
       bindA (query (\<lambda>t. List.find (\<lambda>r. src_id r = ch_source c) (t_sources t))) (\<lambda>source. case source of
         None \<Rightarrow> raiseA (ChangeNotFound i)
       | Some r \<Rightarrow>
           if src_version r \<noteq> v then raiseA (BaselineVersionConflict v (src_version r))
           else bindA (apply_change now r c) (\<lambda>n. returnA \<lparr>accepted_change = i, accepted_version = n\<rparr>)))"
  by (auto simp: accept_def sql_change_repository_def acceptance_transaction_def bindA_def fun_eq_iff
      split: prod.splits sum.splits option.splits)

lemma keeps_accept: "keeps scans_and_deliveries (accept (sql_change_repository now) i v)"
proof -
  have base: "keeps scans_and_deliveries (apply_to_baseline c e)" for c e
    unfolding apply_to_baseline_def set_expected_def
    by (auto intro!: keeps_bindA keeps_thenA keeps_basic keeps_modify simp: scans_and_deliveries_def
        split: option.split change_type.split)
  have "keeps scans_and_deliveries (apply_change now r c)" for r c
    unfolding apply_change_def by (intro keeps_bindA keeps_thenA base keeps_basic keeps_modify) (simp_all add: scans_and_deliveries_def)
  then show ?thesis
    unfolding accept_steps by (auto intro!: keeps_bindA keeps_basic split: option.split)
qed

lemma maintains_accept: "maintains (accept (sql_change_repository now) i v)"
  by (intro maintains_keeps keeps_parts keeps_accept)

section \<open>Attempts\<close>

text \<open>Errors for which the retry endpoint does not answer with a refusal.\<close>

fun attempt_error :: "py_error \<Rightarrow> bool" where
  "attempt_error (DeliveryNotFound _) = False"
| "attempt_error (MaxAttemptsExceeded _) = False"
| "attempt_error (RetryNotDue _) = False"
| "attempt_error (HTTPException _ _) = False"
| "attempt_error _ = True"

lemma session_attempt_error: "session_error e \<Longrightarrow> attempt_error e"
  by (auto simp: session_error_def)

definition only_raises :: "(py_error \<Rightarrow> bool) \<Rightarrow> 'a world_db \<Rightarrow> bool" where
  "only_raises E m \<longleftrightarrow> (\<forall>sw e sw'. m sw = (Inl e, sw') \<longrightarrow> E e)"

lemma only_raisesD: "only_raises E m \<Longrightarrow> m sw = (Inl e, sw') \<Longrightarrow> E e"
  unfolding only_raises_def by blast

lemma only_raises_basic:
  "only_raises E (returnA x)" "E e \<Longrightarrow> only_raises E (raiseA e)" "(\<And>e. r = Inl e \<Longrightarrow> E e) \<Longrightarrow> only_raises E (liftA r)"
  by (auto simp: only_raises_def)

lemma only_raises_bindA: "only_raises E m \<Longrightarrow> (\<And>x. only_raises E (f x)) \<Longrightarrow> only_raises E (bindA m f)"
  by (simp add: only_raises_def bindA_eq_Inl) blast

lemma only_raises_thenA: "only_raises E m \<Longrightarrow> only_raises E k \<Longrightarrow> only_raises E (thenA m k)"
  by (simp add: thenA_def only_raises_bindA)

lemma only_raises_on_db: "raises (\<lambda>_. True) E m \<Longrightarrow> only_raises E (on_db m)"
  unfolding only_raises_def raises_def by (metis (no_types, lifting) on_db_eq sum.simps(5))

lemma try_delivery_Inl: "try_delivery m sw = (Inl e, sw') \<Longrightarrow> m sw = (Inl e, sw')"
  by (auto simp: try_delivery_def split: prod.splits sum.splits py_error.splits)

lemma only_raises_try: "only_raises E m \<Longrightarrow> only_raises E (try_delivery m)"
  unfolding only_raises_def using try_delivery_Inl by metis

lemma attempt_basic:
  "raises (\<lambda>_. True) attempt_error flush" "raises (\<lambda>_. True) attempt_error (returnA x)"
  "raises (\<lambda>_. True) attempt_error (query g)" "raises (\<lambda>_. True) attempt_error (modify f)"
  by (rule raises_basic, erule session_attempt_error)+ (rule raises_modify, rule TrueI)

lemma raises_alert_operations:
  "raises (\<lambda>_. True) attempt_error (lock_delivery i)" "raises (\<lambda>_. True) attempt_error (mark_attempt_started i now)"
  "raises (\<lambda>_. True) attempt_error (mark_sent i p now)" "raises (\<lambda>_. True) attempt_error (mark_failed i e rt)"
proof -
  have get: "raises (\<lambda>_. True) attempt_error (get_delivery i)" for i
    unfolding get_delivery_def
    by (intro raises_bindA raises_basic session_attempt_error)
      (auto split: option.split intro: raises_basic session_attempt_error)
  show "raises (\<lambda>_. True) attempt_error (lock_delivery i)"
    unfolding lock_delivery_def by (intro raises_bindA attempt_basic)
  show "raises (\<lambda>_. True) attempt_error (mark_attempt_started i now)" "raises (\<lambda>_. True) attempt_error (mark_sent i p now)"
    "raises (\<lambda>_. True) attempt_error (mark_failed i e rt)"
    unfolding mark_attempt_started_def mark_sent_def mark_failed_def set_delivery_def
    by (rule raises_bindA [OF get], intro raises_thenA attempt_basic)+
qed

lemma type_of_json_attempt: "canonical_type_of_json j = Inl e \<Longrightarrow> attempt_error e"
  by (auto simp: canonical_type_of_json_def json_to_int_opt_def bindR_eq_Inl split: json.splits if_splits option.splits)

lemma payload_get_error: "payload_get p k = Inl e \<Longrightarrow> attempt_error e"
  by (cases p) (auto simp: payload_get_def)

lemma render_error:
  assumes "render_payload_type p = Inl e"
  shows "attempt_error e"
proof -
  obtain q where q: "p = Some q" using assms by (cases p) (simp_all add: render_payload_type_def)
  show ?thesis
  proof (cases "payload_get q ''data_type''")
    case (Inl f)
    then show ?thesis using assms q payload_get_error by (simp add: render_payload_type_def)
  next
    case (Inr d)
    then obtain kvs where "d = Some (JObj kvs)" "canonical_type_of_json (JObj kvs) = Inl e"
      using assms q by (auto simp: render_payload_type_def bindR_eq_Inl split: option.splits json.splits)
    then show ?thesis using type_of_json_attempt by blast
  qed
qed

lemma contexts_error: "mapR (alert_change_of collate t) rows = Inl e \<Longrightarrow> attempt_error e"
proof (induction rows)
  case (Cons r rows)
  then show ?case by (cases r) (auto simp: bindR_eq_Inl alert_change_of_def dest: render_error)
qed simp

lemma context_error:
  assumes "get_scan_context collate i s = (Inl e, s')"
  shows "attempt_error e"
proof -
  consider "flush s = (Inl e, s')" | rows t where "mapR (alert_change_of collate t) rows = Inl e"
    using assms
    by (auto simp: get_scan_context_def bindA_eq_Inl query_error query_eq_Inr split: option.splits)
  then show ?thesis
    by cases (use flush_session_error session_attempt_error contexts_error in blast)+
qed

text \<open>Providers that raise none of the errors with which the endpoint refuses.\<close>

definition providers_ok :: "(alert_channel \<times> provider) list \<Rightarrow> bool" where
  "providers_ok ps \<longleftrightarrow> (\<forall>c p w m e. map_of (rev ps) c = Some p \<longrightarrow> p w m = Inl e \<longrightarrow> attempt_error e)"

lemma clients_providers:
  assumes "clients_ok out"
  shows "providers_ok (configured_notifiers out cfg)"
  unfolding providers_ok_def
proof (intro allI impI)
  fix c p w m e
  assume p: "map_of (rev (configured_notifiers out cfg)) c = Some p" and e: "p w m = Inl e"
  from p have "p = slack_send (out_post out) (the (cfg_slack_webhook cfg)) \<or>
      p = email_send (out_smtp out) (out_msgid out) (cfg_smtp_host cfg) (cfg_smtp_port cfg) (cfg_email_from cfg) (cfg_email_to cfg)"
    by (auto simp: configured_notifiers_def dest!: map_of_SomeD split: if_splits)
  then show "attempt_error e"
  proof
    assume "p = slack_send (out_post out) (the (cfg_slack_webhook cfg))"
    then have "e = DeliveryFailure ''slack_delivery_failed''" using slack_raises [OF assms] e by blast
    then show ?thesis by simp
  next
    assume p: "p = email_send (out_smtp out) (out_msgid out) (cfg_smtp_host cfg) (cfg_smtp_port cfg) (cfg_email_from cfg) (cfg_email_to cfg)"
    show ?thesis
    proof (cases "headers_ok cfg m")
      case True
      then show ?thesis using email_raises [OF assms True] e p by fastforce
    next
      case False
      then have "e = ValueError ''Header values may not contain linefeed or carriage return characters''"
        using e unfolding p email_send_def build_multipart_email_def mail_header_def headers_ok_def
        by (auto split: if_splits)
      then show ?thesis by simp
    qed
  qed
qed

lemma attempt_sends:
  assumes "providers_ok ps" and "notifiers_by_channel ps c = Some send"
  shows "only_raises attempt_error (bindA (op_started (sql_alert_repository collate) i now) (\<lambda>attempted.
     finish_attempt (sql_alert_repository collate) send message delivery attempted now))"
proof -
  obtain p where p: "map_of (rev ps) c = Some p" and send: "send = send_to c p"
    using assms(2) by (auto simp: notifiers_by_channel_def)
  have "only_raises attempt_error (send message)"
    using assms(1) p unfolding only_raises_def send send_to_def providers_ok_def by (auto simp: Let_def)
  moreover have "next_retry_at n now = Inl e \<Longrightarrow> attempt_error e" for n e
    by (auto simp: next_retry_at_def retry_delay_def split: if_splits)
  ultimately show ?thesis
    unfolding finish_attempt_def sql_alert_repository_def
    by (auto intro!: only_raises_bindA only_raises_thenA only_raises_try only_raises_basic only_raises_on_db
        raises_alert_operations split: sum.split)
qed

lemma attempt_refused:
  assumes "providers_ok ps"
    and "attempt (sql_alert_repository collate) (notifiers_by_channel ps) base now i sw = (Inl e, sw')" and "\<not> attempt_error e"
  shows "sw' = sw"
proof -
  let ?repo = "sql_alert_repository collate"
  obtain r sw1 where lock: "op_lock_delivery ?repo i sw = (r, sw1)" by (rule prod.exhaust)
  show ?thesis
  proof (cases r)
    case (Inl f)
    then have "op_lock_delivery ?repo i sw = (Inl e, sw')" using assms(2) lock by (simp add: attempt_def bindA_def)
    then have "on_db (lock_delivery i) sw = (Inl e, sw')" by (simp add: sql_alert_repository_def)
    then have "attempt_error e" by (rule only_raisesD [OF only_raises_on_db [OF raises_alert_operations(1)]])
    then show ?thesis using assms(3) by simp
  next
    case (Inr d)
    then have [simp]: "sw1 = sw" using sql_alerts.lock [of collate i sw d sw1] lock by simp
    show ?thesis
    proof (cases d)
      case None
      then show ?thesis using assms(2) lock Inr by (simp add: attempt_def bindA_def)
    next
      case (Some delivery)
      show ?thesis
      proof (cases "dr_attempts delivery \<ge> max_attempts \<or> (case dr_retry delivery of None \<Rightarrow> False | Some t \<Rightarrow> now < t)")
        case True
        then show ?thesis using assms(2) lock Inr Some by (auto simp: attempt_def bindA_def split: if_splits)
      next
        case False
        obtain q sw2 where ctx: "op_scan_context ?repo (dr_scan delivery) sw = (q, sw2)" by (rule prod.exhaust)
        show ?thesis
        proof (cases q)
          case (Inl f)
          then have "op_scan_context ?repo (dr_scan delivery) sw = (Inl e, sw')"
            using assms(2) lock ctx \<open>r = Inr d\<close> Some False by (simp add: attempt_def bindA_def)
          then have "attempt_error e"
            using context_error by (auto simp: sql_alert_repository_def on_db_eq)
          then show ?thesis using assms(3) by simp
        next
          case (Inr c)
          then have [simp]: "sw2 = sw" using sql_alerts.context_reads ctx by blast
          have rest: "(case c of None \<Rightarrow> raiseA (DeliveryNotFound i) | Some ctx \<Rightarrow>
              (case notifiers_by_channel ps (dr_channel delivery) of
                 None \<Rightarrow> raiseA (DeliveryFailure ''notification_channel_not_configured'')
               | Some send \<Rightarrow> bindA (op_started ?repo i now) (\<lambda>attempted.
                   finish_attempt ?repo send (build_alert_message ctx base) delivery attempted now))) sw = (Inl e, sw')"
            using assms(2) lock ctx \<open>r = Inr d\<close> Some False Inr by (simp add: attempt_def bindA_def)
          show ?thesis
          proof (cases c)
            case None
            then show ?thesis using rest by simp
          next
            case ctx: (Some ctx)
            show ?thesis
            proof (cases "notifiers_by_channel ps (dr_channel delivery)")
              case None
              then show ?thesis using rest ctx by simp
            next
              case (Some send)
              then have "attempt_error e"
                using rest ctx by (intro only_raisesD [OF attempt_sends [OF assms(1) Some], of collate i now
                    "build_alert_message ctx base" delivery sw e sw']) simp
              then show ?thesis using assms(3) by simp
            qed
          qed
        qed
      qed
    qed
  qed
qed

end
