(* ===== verification/ServiceInvariant.thy ===== *)
theory ServiceInvariant
  imports History
begin

text \<open>
  The invariant of the committed metadata, over every history of requests and catalog synchronisations.
\<close>

section \<open>Blocks that respect the invariant\<close>

definition metadata_ok :: "tables \<Rightarrow> bool" where
  "metadata_ok t \<longleftrightarrow> declared_ok t \<and> deliveries_ok t"

text \<open>In a living transaction the deliveries are at rest.\<close>

definition committable_ok :: "session \<times> world \<Rightarrow> bool" where
  "committable_ok sw \<longleftrightarrow> (\<not> poisoned (fst sw) \<longrightarrow> deliveries_ok (work (fst sw)))"

definition safe_block :: "'a world_db \<Rightarrow> bool" where
  "safe_block m \<longleftrightarrow> (\<forall>sw. metadata_ok (committed sw) \<longrightarrow> committable_ok sw \<longrightarrow>
     metadata_ok (committed (snd (m sw))) \<and> committable_ok (snd (m sw)))"

lemma safe_blockD:
  "safe_block m \<Longrightarrow> metadata_ok (committed sw) \<Longrightarrow> committable_ok sw \<Longrightarrow> m sw = (r, sw') \<Longrightarrow>
     metadata_ok (committed sw') \<and> committable_ok sw'"
  unfolding safe_block_def by (metis snd_conv)

lemma safe_block_basic: "safe_block (returnA x)" "safe_block (raiseA e)" "safe_block (liftA r)"
  by (simp_all add: safe_block_def)

lemma safe_block_bindA:
  assumes "safe_block m" and "\<And>x. safe_block (f x)"
  shows "safe_block (bindA m f)"
  unfolding safe_block_def
proof (intro allI impI)
  fix sw :: "session \<times> world"
  assume ok: "metadata_ok (committed sw)" "committable_ok sw"
  obtain r sw1 where m: "m sw = (r, sw1)" by (rule prod.exhaust)
  note 1 = safe_blockD [OF assms(1) ok m]
  show "metadata_ok (committed (snd (bindA m f sw))) \<and> committable_ok (snd (bindA m f sw))"
  proof (cases r)
    case (Inl e)
    then show ?thesis using m 1 by (simp add: bindA_def)
  next
    case (Inr x)
    then have "bindA m f sw = f x sw1" using m by (simp add: bindA_def)
    then show ?thesis using 1 assms(2) [of x] unfolding safe_block_def by metis
  qed
qed

lemma safe_block_exceptA:
  assumes "safe_block m" and "\<And>e. safe_block (h e)"
  shows "safe_block (exceptA m h)"
  unfolding safe_block_def
proof (intro allI impI)
  fix sw :: "session \<times> world"
  assume ok: "metadata_ok (committed sw)" "committable_ok sw"
  obtain r sw1 where m: "m sw = (r, sw1)" by (rule prod.exhaust)
  note 1 = safe_blockD [OF assms(1) ok m]
  show "metadata_ok (committed (snd (exceptA m h sw))) \<and> committable_ok (snd (exceptA m h sw))"
  proof (cases r)
    case (Inr x)
    then show ?thesis using m 1 by (simp add: exceptA_def)
  next
    case (Inl e)
    then have "exceptA m h sw = h e sw1" using m by (simp add: exceptA_def)
    then show ?thesis using 1 assms(2) [of e] unfolding safe_block_def by metis
  qed
qed

lemma safe_block_thenA: "safe_block m \<Longrightarrow> safe_block k \<Longrightarrow> safe_block (thenA m k)"
  by (simp add: thenA_def safe_block_bindA)

lemma safe_block_on_db:
  assumes "maintains m" and "keeps_durable m"
  shows "safe_block (on_db m)"
  unfolding safe_block_def
proof (intro allI impI)
  fix sw :: "session \<times> world"
  assume ok: "metadata_ok (committed sw)" "committable_ok sw"
  obtain r s' where m: "m (fst sw) = (r, s')" by fastforce
  then have on: "on_db m sw = (r, (s', snd sw))" by (cases sw) (simp add: on_db_def)
  have "durable s' = durable (fst sw)" using assms(2) m unfolding keeps_durable_def by (metis snd_conv)
  moreover have "\<not> poisoned s' \<longrightarrow> deliveries_ok (work s')"
    using assms(1) m ok(2) unfolding maintains_def committable_ok_def by (metis snd_conv)
  ultimately show "metadata_ok (committed (snd (on_db m sw))) \<and> committable_ok (snd (on_db m sw))"
    using ok on by (simp add: committable_ok_def)
qed

lemma safe_commit: "safe_block commit_world"
  unfolding safe_block_def
proof (intro allI impI)
  fix sw :: "session \<times> world"
  assume ok: "metadata_ok (committed sw)" "committable_ok sw"
  show "metadata_ok (committed (snd (commit_world sw))) \<and> committable_ok (snd (commit_world sw))"
  proof (cases "usable (fst sw)")
    case True
    then have "commit_world sw = (Inr (), ((fst sw)\<lparr>durable := work (fst sw)\<rparr>, snd sw))" by (simp add: commit_world_eq)
    then show ?thesis using ok True by (simp add: metadata_ok_def declared_ok_def usable_def committable_ok_def)
  next
    case False
    then have "committed (snd (commit_world sw)) = committed sw" "poisoned (fst (snd (commit_world sw)))"
      by (cases sw; auto simp: commit_world_def on_db_def commit_def thenA_def bindA_def flush_def usable_def)+
    then show ?thesis using ok by (simp add: committable_ok_def)
  qed
qed

lemmas safe_rules = safe_block_bindA safe_block_thenA safe_block_exceptA safe_block_basic safe_commit

section \<open>Notifications\<close>

lemma dispatch_at_rest:
  assumes "deliveries_ok (work (fst sw))"
    and "dispatch_scan (sql_alert_repository collate) (notifiers_by_channel ps) base now i sw = (Inr rs, sw')"
  shows "deliveries_ok (work (fst sw'))"
  using sql_alerts.dispatch_keeps_ok [OF assms(2)] assms(1) by (simp add: deliveries_ok_def delivery_view_def)

lemma scope_at_rest:
  assumes m: "\<And>sw rs sw'. deliveries_ok (work (fst sw)) \<Longrightarrow> m sw = (Inr rs, sw') \<Longrightarrow> deliveries_ok (work (fst sw'))"
    and keeps: "keeps_world other_tables m" "preserves committed m"
  shows "safe_block (swallow (other_session (world_scope m)))"
  unfolding safe_block_def
proof (intro allI impI)
  fix sw :: "session \<times> world"
  assume ok: "metadata_ok (committed sw)" "committable_ok sw"
  let ?new = "(fresh_session (committed sw) (id_supply (fst sw)), snd sw)"
  obtain r s w where run: "world_scope m ?new = (r, (s, w))" by (metis surj_pair)
  have new: "work (fst ?new) = committed sw" "committed ?new = committed sw" by (simp_all add: fresh_session_def)
  have "deliveries_ok (durable s)"
  proof (cases r)
    case (Inl e)
    then show ?thesis using world_scope_Inl [OF keeps(2), of ?new e "(s, w)"] run new ok(1) by (simp add: metadata_ok_def)
  next
    case (Inr x)
    then obtain t where "m ?new = (Inr x, t)" "(s, w) = ((fst t)\<lparr>durable := work (fst t)\<rparr>, snd t)"
      using world_scope_Inr [of m ?new x "(s, w)"] run by metis
    then show ?thesis using m [of ?new x t] new ok(1) by (simp add: metadata_ok_def)
  qed
  moreover have "declared_ok (durable s)"
    using scope_keeps_other_tables [OF keeps, of ?new] run new ok(1) by (simp add: metadata_ok_def)
  ultimately show "metadata_ok (committed (snd (swallow (other_session (world_scope m)) sw))) \<and>
      committable_ok (snd (swallow (other_session (world_scope m)) sw))"
    using run by (simp add: swallow_def other_session_def metadata_ok_def committable_ok_def)
qed

lemma safe_dispatcher_scan: "safe_block (dispatcher_scan cfg rq i)"
  unfolding dispatcher_scan_def notification_dispatch_def
  by (rule scope_at_rest [OF dispatch_at_rest keeps_world_dispatch dispatch_preserves])

lemma safe_dispatcher_system_error: "safe_block (dispatcher_system_error cfg rq key)"
  unfolding dispatcher_system_error_def notification_dispatch_def
proof (rule scope_at_rest)
  fix sw rs sw'
  assume ok: "deliveries_ok (work (fst sw))" and "bindA (on_db (latest_failed_scan_id key)) (\<lambda>latest.
     case latest of None \<Rightarrow> returnA [] | Some scan_id \<Rightarrow>
       dispatch_scan (sql_alert_repository (env_collate (rq_scan rq)))
         (notifiers_by_channel (configured_notifiers (rq_outside rq) cfg)) (cfg_dashboard_url cfg) (rq_now rq) scan_id) sw = (Inr rs, sw')"
  then obtain latest sw1 where "on_db (latest_failed_scan_id key) sw = (Inr latest, sw1)"
    and rest: "(case latest of None \<Rightarrow> returnA [] | Some scan_id \<Rightarrow>
       dispatch_scan (sql_alert_repository (env_collate (rq_scan rq)))
         (notifiers_by_channel (configured_notifiers (rq_outside rq) cfg)) (cfg_dashboard_url cfg) (rq_now rq) scan_id) sw1 = (Inr rs, sw')"
    by (auto simp: bindA_eq_Inr)
  then have "fst sw1 = fst sw" by (auto simp: latest_failed_scan_id_def on_db_eq query_eq_Inr)
  then have rested: "deliveries_ok (work (fst sw1))" using ok by simp
  show "deliveries_ok (work (fst sw'))"
  proof (cases latest)
    case None
    then show ?thesis using rest rested by simp
  next
    case (Some i)
    then show ?thesis by (intro dispatch_at_rest [OF rested]) (use rest in simp)
  qed
next
  show "keeps_world other_tables (bindA (on_db (latest_failed_scan_id key)) (\<lambda>latest.
     case latest of None \<Rightarrow> returnA [] | Some scan_id \<Rightarrow>
       dispatch_scan (sql_alert_repository (env_collate (rq_scan rq)))
         (notifiers_by_channel (configured_notifiers (rq_outside rq) cfg)) (cfg_dashboard_url cfg) (rq_now rq) scan_id))"
    by (rule system_error_frame)
  show "preserves committed (bindA (on_db (latest_failed_scan_id key)) (\<lambda>latest.
     case latest of None \<Rightarrow> returnA [] | Some scan_id \<Rightarrow>
       dispatch_scan (sql_alert_repository (env_collate (rq_scan rq)))
         (notifiers_by_channel (configured_notifiers (rq_outside rq) cfg)) (cfg_dashboard_url cfg) (rq_now rq) scan_id))"
    by (rule system_error_frame)
qed

section \<open>Requests\<close>

text \<open>What the body of an endpoint must respect: what it leaves to be committed is at rest, when it returns or
  refuses, and its tasks respect the invariant; any other error rolls back.\<close>

definition request_block :: "('r \<times> tasks) world_db \<Rightarrow> bool" where
  "request_block body \<longleftrightarrow> (\<forall>sw. metadata_ok (committed sw) \<longrightarrow> committable_ok sw \<longrightarrow>
     metadata_ok (committed (snd (body sw))) \<and>
     (case fst (body sw) of
        Inr (x, ts) \<Rightarrow> committable_ok (snd (body sw)) \<and> (\<forall>t \<in> set ts. safe_block t)
      | Inl e \<Rightarrow> is_http_exception e \<longrightarrow> committable_ok (snd (body sw))))"

lemma request_block_safe:
  assumes "safe_block body" and "\<And>sw x ts sw'. body sw = (Inr (x, ts), sw') \<Longrightarrow> \<forall>t \<in> set ts. safe_block t"
  shows "request_block body"
  unfolding request_block_def
proof (intro allI impI)
  fix sw :: "session \<times> world"
  assume ok: "metadata_ok (committed sw)" "committable_ok sw"
  obtain r sw1 where b: "body sw = (r, sw1)" by (rule prod.exhaust)
  note 1 = safe_blockD [OF assms(1) ok b]
  have "\<forall>t \<in> set ts. safe_block t" if "r = Inr (x, ts)" for x ts using assms(2) b that by blast
  then show "metadata_ok (committed (snd (body sw))) \<and>
     (case fst (body sw) of
        Inr (x, ts) \<Rightarrow> committable_ok (snd (body sw)) \<and> (\<forall>t \<in> set ts. safe_block t)
      | Inl e \<Rightarrow> is_http_exception e \<longrightarrow> committable_ok (snd (body sw)))"
    using b 1 by (auto split: sum.split)
qed

lemma run_tasks_safe:
  assumes "\<forall>t \<in> set ts. safe_block t" and "metadata_ok (committed sw)" and "committable_ok sw"
  shows "metadata_ok (committed (run_tasks ts sw)) \<and> committable_ok (run_tasks ts sw)"
  using assms
proof (induction ts arbitrary: sw)
  case (Cons t ts)
  obtain r sw1 where t: "t sw = (r, sw1)" by (rule prod.exhaust)
  have "safe_block t" using Cons.prems(1) by simp
  from safe_blockD [OF this Cons.prems(2,3) t] show ?case using Cons.IH [of sw1] Cons.prems(1) t by simp
qed simp

lemma close_ok: "metadata_ok (committed sw) \<Longrightarrow> metadata_ok (committed (close_session sw)) \<and> committable_ok (close_session sw)"
  by (simp add: close_session_def rollback_def committable_ok_def metadata_ok_def)

lemma commit_ok:
  "metadata_ok (committed sw) \<Longrightarrow> committable_ok sw \<Longrightarrow> metadata_ok (committed (snd (commit_world sw)))"
  using safe_commit unfolding safe_block_def by blast

lemma session_invariant:
  assumes "request_block body" and "metadata_ok (committed sw)"
  shows "metadata_ok (committed (snd (database_session body sw)))"
proof -
  obtain r sw1 where b: "body (close_session sw) = (r, sw1)" by (rule prod.exhaust)
  have closed: "committed (close_session t) = committed t" for t :: "session \<times> world"
    by (simp add: close_session_def rollback_def)
  have 1: "metadata_ok (committed sw1)"
    "case r of Inr (x, ts) \<Rightarrow> committable_ok sw1 \<and> (\<forall>t \<in> set ts. safe_block t) | Inl e \<Rightarrow> is_http_exception e \<longrightarrow> committable_ok sw1"
    using assms(1) [unfolded request_block_def, rule_format, of "close_session sw", unfolded b fst_conv snd_conv]
      close_ok [OF assms(2)] by simp_all
  show ?thesis
  proof (cases r)
    case (Inr y)
    then obtain x ts where y: "y = (x, ts)" by (cases y)
    then have "metadata_ok (committed (run_tasks ts sw1)) \<and> committable_ok (run_tasks ts sw1)"
      using 1 Inr by (intro run_tasks_safe) simp_all
    then show ?thesis using commit_ok b Inr y by (simp add: database_session_def closed)
  next
    case (Inl e)
    show ?thesis
    proof (cases "is_http_exception e")
      case True
      obtain q sw2 where c: "commit_world sw1 = (q, sw2)" by (rule prod.exhaust)
      have "metadata_ok (committed sw2)" using commit_ok [of sw1] 1 Inl True c by simp
      then show ?thesis using b Inl True c by (cases q) (simp_all add: database_session_def closed)
    qed (use b Inl 1 in \<open>simp add: database_session_def closed\<close>)
  qed
qed

lemma endpoint_invariant:
  assumes "\<And>identity. request_block (body identity)" and "metadata_ok (committed sw)"
  shows "metadata_ok (committed (snd (endpoint operator valid body sw)))"
  using assms(2) close_ok session_invariant [OF assms(1)] by (cases operator) (simp_all add: endpoint_def)

section \<open>Endpoints\<close>

lemma safe_block_reads: "reads_only m \<Longrightarrow> safe_block m"
  by (auto simp: safe_block_def reads_only_def read_left_def committable_ok_def)

lemma safe_block_run: "safe_block (request_run_scan cfg rq key)"
  unfolding request_run_scan_def request_scan_repository_def
  by (intro safe_block_on_db maintains_run keeps_durable_run)

lemma keeps_durable_accept: "keeps_durable (accept (sql_change_repository now) i v)"
proof -
  have base: "keeps_durable (apply_to_baseline c e)" for c e
    unfolding apply_to_baseline_def set_expected_def
    by (auto intro!: durable_rules split: option.split change_type.split)
  then have "keeps_durable (apply_change now r c)" for r c
    unfolding apply_change_def by (intro durable_rules)
  then show ?thesis
    unfolding accept_steps by (auto intro!: durable_rules split: option.split)
qed

lemma safe_block_accept: "safe_block (on_db (accept (sql_change_repository now) i v))"
  by (rule safe_block_on_db [OF maintains_accept keeps_durable_accept])

lemma safe_block_refused:
  "safe_block (scan_refused cfg rq key e)" "safe_block (with_tasks ts (render_change_list rq m k n))"
  "safe_block (dashboard_scan_refused cfg rq key e)"
proof -
  show render: "safe_block (with_tasks ts (render_change_list rq m k n))" for ts m k n
    unfolding with_tasks_def render_change_list_def by (intro safe_rules safe_block_reads reads_only_latest)
  show "safe_block (scan_refused cfg rq key e)"
    unfolding scan_refused_def by (cases e) (auto intro!: safe_rules safe_dispatcher_system_error)
  show "safe_block (dashboard_scan_refused cfg rq key e)"
    unfolding dashboard_scan_refused_def
    by (cases e) (auto intro!: safe_block_thenA safe_block_basic safe_commit render safe_dispatcher_system_error)
qed

definition queues_safe :: "('r \<times> tasks) world_db \<Rightarrow> bool" where
  "queues_safe body \<longleftrightarrow> (\<forall>sw x ts sw'. body sw = (Inr (x, ts), sw') \<longrightarrow> (\<forall>t \<in> set ts. safe_block t))"

lemma queues_bindA: "(\<And>x. queues_safe (f x)) \<Longrightarrow> queues_safe (bindA m f)"
  by (simp add: queues_safe_def bindA_eq_Inr) blast

lemma queues_thenA: "queues_safe k \<Longrightarrow> queues_safe (thenA m k)"
  by (simp add: thenA_def queues_bindA)

lemma queues_exceptA: "queues_safe m \<Longrightarrow> (\<And>e. queues_safe (h e)) \<Longrightarrow> queues_safe (exceptA m h)"
  by (fastforce simp: queues_safe_def exceptA_def split: prod.splits sum.splits)

lemma queues_basic: "queues_safe (raiseA e)" "(\<And>t. t \<in> set ts \<Longrightarrow> safe_block t) \<Longrightarrow> queues_safe (returnA (x, ts))"
  by (simp_all add: queues_safe_def)

lemma queues_with_tasks: "(\<And>t. t \<in> set ts \<Longrightarrow> safe_block t) \<Longrightarrow> queues_safe (with_tasks ts m)"
  unfolding with_tasks_def by (intro queues_bindA queues_basic)

lemmas queues_rules = queues_thenA queues_bindA queues_exceptA queues_with_tasks queues_basic

lemma request_block_queues: "safe_block body \<Longrightarrow> queues_safe body \<Longrightarrow> request_block body"
proof (rule request_block_safe)
  fix sw :: "session \<times> world" and x :: 'a and ts sw'
  assume "queues_safe body" and "body sw = (Inr (x, ts), sw')"
  then show "\<forall>t \<in> set ts. safe_block t" unfolding queues_safe_def by metis
qed

lemma queues_refused: "queues_safe (scan_refused cfg rq key e)" "queues_safe (dashboard_scan_refused cfg rq key e)"
  unfolding scan_refused_def dashboard_scan_refused_def by (cases e; auto intro!: queues_rules)+

lemma request_scan_blocks:
  "request_block (run_scan_body cfg rq key)" "request_block (dashboard_scan_body bracketed cfg rq h key identity)"
proof -
  show "request_block (run_scan_body cfg rq key)"
    unfolding run_scan_body_def
    by (rule request_block_queues)
      (auto intro!: safe_block_exceptA safe_block_bindA safe_block_thenA safe_block_basic safe_commit safe_block_run
        safe_block_refused queues_rules queues_refused safe_dispatcher_scan)
  show "request_block (dashboard_scan_body bracketed cfg rq h key identity)"
    unfolding dashboard_scan_body_def
    by (rule request_block_queues)
      (auto intro!: safe_block_exceptA safe_block_bindA safe_block_thenA safe_block_basic safe_commit safe_block_run
        safe_block_refused queues_rules queues_refused safe_dispatcher_scan)
qed

lemma request_accept_blocks:
  "request_block (accept_change_body rq i v)" "request_block (dashboard_accept_body bracketed cfg rq h i v identity)"
proof -
  show "request_block (accept_change_body rq i v)"
    unfolding accept_change_body_def
    by (rule request_block_queues)
      (auto intro!: safe_rules safe_block_accept queues_rules split: py_error.split)
  show "request_block (dashboard_accept_body bracketed cfg rq h i v identity)"
    unfolding dashboard_accept_body_def case_prod_unfold
    by (rule request_block_queues)
      (auto intro!: safe_block_thenA safe_block_bindA safe_block_exceptA safe_block_basic safe_block_accept safe_block_refused
        queues_thenA queues_bindA queues_with_tasks split: py_error.split)
qed

lemma keeps_world_attempt:
  "keeps_world other_tables (attempt (sql_alert_repository collate) (notifiers_by_channel ps) base now i)"
  unfolding attempt_def finish_attempt_def sql_alert_repository_def
  by (auto intro!: keeps_world_bindA keeps_world_thenA keeps_world_try keeps_world_on_db
      keeps_world_basic keeps_alert_operations keeps_world_send split: option.split sum.split)

lemma retry_block:
  assumes "clients_ok (rq_outside rq)"
  shows "request_block (retry_delivery_body cfg rq i)"
  unfolding request_block_def
proof (intro allI impI)
  fix sw :: "session \<times> world"
  assume ok: "metadata_ok (committed sw)" "committable_ok sw"
  define m where "m = attempt (sql_alert_repository (env_collate (rq_scan rq)))
    (notifiers_by_channel (configured_notifiers (rq_outside rq) cfg)) (cfg_dashboard_url cfg) (rq_now rq) i"
  obtain r sw1 where m: "m sw = (r, sw1)" by (rule prod.exhaust)
  have committed: "committed sw1 = committed sw"
    using attempt_preserves m unfolding preserves_def m_def by (metis snd_conv)
  show "metadata_ok (committed (snd (retry_delivery_body cfg rq i sw))) \<and>
     (case fst (retry_delivery_body cfg rq i sw) of
        Inr (x, ts) \<Rightarrow> committable_ok (snd (retry_delivery_body cfg rq i sw)) \<and> (\<forall>t \<in> set ts. safe_block t)
      | Inl e \<Rightarrow> is_http_exception e \<longrightarrow> committable_ok (snd (retry_delivery_body cfg rq i sw)))"
  proof (cases r)
    case (Inr x)
    then have "retry_delivery_body cfg rq i sw = (Inr ((200, delivery_response_of_result x), []), sw1)"
      using m by (simp add: retry_delivery_body_def retry_def m_def exceptA_def bindA_def)
    moreover have "deliveries_ok (work (fst sw1))" if "deliveries_ok (work (fst sw))"
      using sql_alerts.attempt_keeps_ok [of _ _ _ _ i sw x sw1] m Inr that
      by (simp add: m_def deliveries_ok_def delivery_view_def)
    moreover have "\<not> poisoned (fst sw)" if "\<not> poisoned (fst sw1)"
      using keeps_worldD [OF keeps_world_attempt m [unfolded m_def] that] by simp
    ultimately show ?thesis using ok committed by (simp add: committable_ok_def)
  next
    case (Inl e)
    then have run: "retry_delivery_body cfg rq i sw =
      (case e of
          DeliveryNotFound _ \<Rightarrow> raiseA (HTTPException 404 (DetailText (error_text e)))
        | MaxAttemptsExceeded _ \<Rightarrow> raiseA (HTTPException 409 (DetailText (error_text e)))
        | RetryNotDue t \<Rightarrow> raiseA (HTTPException 409 (DetailRetryAt t))
        | _ \<Rightarrow> raiseA e) sw1"
      using m by (simp add: retry_delivery_body_def retry_def m_def exceptA_def bindA_def)
    show ?thesis
    proof (cases "attempt_error e")
      case True
      then have "retry_delivery_body cfg rq i sw = (Inl e, sw1)" "\<not> is_http_exception e"
        unfolding run by (cases e; simp)+
      then show ?thesis using ok committed by simp
    next
      case False
      then have "sw1 = sw"
        using attempt_refused [OF clients_providers [OF assms]] m Inl unfolding m_def by blast
      moreover obtain f where "retry_delivery_body cfg rq i sw = (Inl f, sw1)"
        unfolding run by (cases e) auto
      ultimately show ?thesis using ok by simp
    qed
  qed
qed

section \<open>Scans in flight\<close>

text \<open>No committed scan is \<open>RUNNING\<close>: a transaction that starts a scan also ends it.\<close>

definition scans_settled :: "tables \<Rightarrow> bool" where
  "scans_settled t \<longleftrightarrow> (\<forall>i. committed_status t i \<noteq> Some RUNNING)"

lemma scans_settled_cong: "t_scans t = t_scans t' \<Longrightarrow> scans_settled t = scans_settled t'"
  by (simp add: scans_settled_def committed_status_def)

lemma keeps_world_reads: "reads_only m \<Longrightarrow> keeps_world g m"
  by (auto simp: reads_only_def read_left_def keeps_world_def)

lemma keeps_world_exceptA:
  assumes "keeps_world g m" and "\<And>e. keeps_world g (h e)"
  shows "keeps_world g (exceptA m h)"
  unfolding keeps_world_def
proof
  fix sw :: "session \<times> world"
  obtain r sw1 where m: "m sw = (r, sw1)" by (rule prod.exhaust)
  show "(poisoned (fst sw) \<longrightarrow> poisoned (fst (snd (exceptA m h sw)))) \<and>
     (\<not> poisoned (fst (snd (exceptA m h sw))) \<longrightarrow> g (work (fst (snd (exceptA m h sw)))) = g (work (fst sw)))"
  proof (cases r)
    case (Inr x)
    then have "snd (exceptA m h sw) = snd (m sw)" using m by (simp add: exceptA_def)
    then show ?thesis using assms(1) unfolding keeps_world_def by metis
  next
    case (Inl e)
    then have "exceptA m h sw = h e sw1" using m by (simp add: exceptA_def)
    then show ?thesis using assms(1) assms(2) [of e] m unfolding keeps_world_def by (metis snd_conv)
  qed
qed

lemma preserves_reads: "reads_only m \<Longrightarrow> preserves committed m"
  by (auto simp: reads_only_def read_left_def preserves_def)

lemma preserves_exceptA: "preserves f m \<Longrightarrow> (\<And>e. preserves f (h e)) \<Longrightarrow> preserves f (exceptA m h)"
  by (auto simp: preserves_def exceptA_def split: prod.split sum.split) (metis snd_conv)+

lemma database_session_frame:
  assumes "keeps_world g body" and "preserves committed body"
    and "\<And>sw x ts sw'. body sw = (Inr (x, ts), sw') \<Longrightarrow> ts = []"
  shows "g (committed (snd (database_session body sw))) = g (committed sw)"
proof -
  obtain r sw1 where b: "body (close_session sw) = (r, sw1)" by (rule prod.exhaust)
  have closed: "committed (close_session t) = committed t" for t :: "session \<times> world"
    by (simp add: close_session_def rollback_def)
  have 1: "committed sw1 = committed sw"
    using assms(2) b closed unfolding preserves_def by (metis snd_conv)
  have 2: "g (work (fst sw1)) = g (committed sw)" if "\<not> poisoned (fst sw1)"
    using keeps_worldD [OF assms(1) b that] by (simp add: close_session_def rollback_def)
  have commit: "g (committed (snd (commit_world sw1))) = g (committed sw)"
  proof (cases "usable (fst sw1)")
    case True
    then have "commit_world sw1 = (Inr (), ((fst sw1)\<lparr>durable := work (fst sw1)\<rparr>, snd sw1))" by (simp add: commit_world_eq)
    then show ?thesis using 2 True by (simp add: usable_def)
  next
    case False
    then have "committed (snd (commit_world sw1)) = committed sw1"
      by (cases sw1) (auto simp: commit_world_def on_db_def commit_def thenA_def bindA_def flush_def usable_def)
    then show ?thesis using 1 by simp
  qed
  show ?thesis
  proof (cases r)
    case (Inr y)
    then obtain x where "y = (x, [])" using assms(3) b by (cases y) blast
    then show ?thesis using b Inr commit by (simp add: database_session_def closed)
  next
    case (Inl e)
    then show ?thesis using b 1 commit closed
      by (cases "is_http_exception e"; cases "commit_world sw1"; cases "fst (commit_world sw1)")
        (simp_all add: database_session_def)
  qed
qed

lemma keeps_world_accept: "keeps_world t_scans (on_db (accept (sql_change_repository now) i v))"
  by (intro keeps_world_on_db keeps_parts keeps_accept)

lemma preserves_accept: "preserves committed (on_db (accept (sql_change_repository now) i v))"
  by (rule preserves_on_db [OF keeps_durable_accept])

lemma accept_keeps_scans: "t_scans (committed (snd (database_session (accept_change_body rq i v) sw))) = t_scans (committed sw)"
proof (rule database_session_frame)
  show "keeps_world t_scans (accept_change_body rq i v)"
    unfolding accept_change_body_def
    by (auto intro!: keeps_world_exceptA keeps_world_bindA keeps_world_accept keeps_world_basic split: py_error.split)
  show "preserves committed (accept_change_body rq i v)"
    unfolding accept_change_body_def
    by (auto intro!: preserves_exceptA preserves_bindA preserves_accept preserves_basic split: py_error.split)
qed (auto simp: accept_change_body_def exceptA_def bindA_def split: prod.splits sum.splits py_error.splits)

lemma render_reads: "reads_only (with_tasks ts (render_change_list rq m k n))"
  unfolding with_tasks_def render_change_list_def by (intro reads_only_bindA reads_only_latest reads_only_basic)

lemma dashboard_accept_keeps_scans:
  "t_scans (committed (snd (database_session (dashboard_accept_body bracketed cfg rq h i v identity) sw))) = t_scans (committed sw)"
proof (rule database_session_frame)
  show "keeps_world t_scans (dashboard_accept_body bracketed cfg rq h i v identity)"
    unfolding dashboard_accept_body_def case_prod_unfold
    by (auto intro!: keeps_world_thenA keeps_world_bindA keeps_world_exceptA keeps_world_accept keeps_world_basic
        render_reads [THEN keeps_world_reads] split: py_error.split)
  show "preserves committed (dashboard_accept_body bracketed cfg rq h i v identity)"
    unfolding dashboard_accept_body_def case_prod_unfold
    by (auto intro!: preserves_thenA preserves_bindA preserves_exceptA preserves_accept preserves_basic
        render_reads [THEN preserves_reads] split: py_error.split)
qed (auto simp: dashboard_accept_body_def thenA_eq_Inr bindA_eq_Inr with_tasks_def case_prod_unfold)

lemma retry_keeps_scans: "t_scans (committed (snd (database_session (retry_delivery_body cfg rq i) sw))) = t_scans (committed sw)"
proof -
  have "other_tables (committed (snd (database_session (retry_delivery_body cfg rq i) sw))) = other_tables (committed sw)"
  proof (rule database_session_frame)
    show "keeps_world other_tables (retry_delivery_body cfg rq i)"
      unfolding retry_delivery_body_def retry_def
      by (auto intro!: keeps_world_exceptA keeps_world_bindA keeps_world_attempt keeps_world_basic split: py_error.split)
    show "preserves committed (retry_delivery_body cfg rq i)"
      unfolding retry_delivery_body_def retry_def
      by (auto intro!: preserves_exceptA preserves_bindA attempt_preserves preserves_basic split: py_error.split)
  qed (auto simp: retry_delivery_body_def exceptA_def bindA_def split: prod.splits sum.splits py_error.splits)
  then show ?thesis by (simp add: other_tables_def) (metis tables.ext_inject tables.surjective tables.update_convs(7))
qed

lemma scan_request_settles:
  assumes "run_scan_endpoint cfg rq (Inr ident) key (s, w) = (resp, (s', w'))"
    and "driver_like (rq_driver rq)" and "declared_ok (durable s)" and "scans_settled (durable s)"
  shows "scans_settled (durable s')"
proof -
  have upd: "scans_settled t" if "committed_status t = (committed_status (durable s))(i \<mapsto> x)" "x \<noteq> RUNNING" for t i x
    using that assms(4) by (simp add: scans_settled_def)
  have same: "scans_settled t" if "durable s' = durable s" "t = durable s'" for t using that assms(4) by simp
  show ?thesis
    using assms(1-3)
  proof (cases rule: scan_request_cases)
    case (completed report t)
    then have "scan_status_of t = (scan_status_of (rollback s))(report_scan_id report \<mapsto> COMPLETED)"
      using sql_scans.run_returns [where s = "rollback s" and s' = t and r = report] by (auto simp: request_scan_repository_def)
    then show ?thesis
      using committed_status_other [OF completed(4)] upd [of "durable s'"]
      by (simp add: status_of_work rollback_def)
  next
    case (failed e t i)
    then show ?thesis using committed_status_other [OF failed(5)] upd [of "durable s'" i scan_status.FAILED] by simp
  qed (use same in simp_all)
qed

section \<open>Histories\<close>

datatype event =
    Request request_env credentials request
  | Synchronise "py_error + settings" loader "json catalog_config \<Rightarrow> string" string

text \<open>The clients of the source and of the providers raise the errors they document.\<close>

fun event_ok :: "event \<Rightarrow> bool" where
  "event_ok (Request rq _ _) = (clients_ok (rq_outside rq) \<and> driver_like (rq_driver rq))"
| "event_ok (Synchronise _ _ _ _) = True"

fun happen :: "(string \<Rightarrow> bool) \<Rightarrow> settings \<Rightarrow> event \<Rightarrow> session \<times> world \<Rightarrow> session \<times> world" where
  "happen bracketed cfg (Request rq cred request) sw = snd (serve bracketed cfg rq cred request sw)"
| "happen bracketed cfg (Synchronise settings loader explain path) sw = snd (sync_catalog settings loader explain path sw)"

inductive history :: "(string \<Rightarrow> bool) \<Rightarrow> settings \<Rightarrow> session \<times> world \<Rightarrow> event list \<Rightarrow> session \<times> world \<Rightarrow> bool"
  for bracketed :: "string \<Rightarrow> bool" and cfg :: settings and sw :: "session \<times> world" where
  start: "history bracketed cfg sw [] sw"
| extend: "history bracketed cfg sw es sw1 \<Longrightarrow> event_ok e \<Longrightarrow> history bracketed cfg sw (es @ [e]) (happen bracketed cfg e sw1)"

definition service_ok :: "session \<times> world \<Rightarrow> bool" where
  "service_ok sw \<longleftrightarrow> metadata_ok (committed sw) \<and> scans_settled (committed sw)"

lemma no_effect_ok: "\<not> effect sw sw' \<Longrightarrow> service_ok sw \<Longrightarrow> service_ok sw'"
  by (simp add: effect_def service_ok_def)

lemma synchronise_ok:
  assumes "service_ok sw"
  shows "service_ok (snd (sync_catalog settings loader explain path sw))"
proof (cases settings)
  case (Inl e)
  then show ?thesis using assms by (simp add: sync_catalog_def sync_catalog_scope_def bindA_def)
next
  case (Inr cfg)
  let ?s = "fresh_session (committed sw) (id_supply (fst sw))"
  obtain r s' where run: "session_scope (sync sql_catalog_repository loader explain path) ?s = (r, s')" by (rule prod.exhaust)
  have after: "committed (snd (sync_catalog settings loader explain path sw)) = durable s'"
    using run Inr by (cases r) (simp_all add: sync_catalog_def sync_catalog_scope_def bindA_def other_session_def on_db_def)
  have "scans_and_deliveries (durable s') = scans_and_deliveries (committed sw)"
    "declared_ok (committed sw) \<Longrightarrow> declared_ok (durable s')"
    using sync_scope_leaves [OF run] by (simp_all add: fresh_session_def)
  then show ?thesis
    using assms deliveries_ok_cong [of "durable s'" "committed sw"] scans_settled_cong [of "durable s'" "committed sw"]
    by (simp add: service_ok_def metadata_ok_def scans_and_deliveries_def after)
qed

lemma endpoint_ok:
  assumes "\<And>identity. request_block (body identity)"
    and "\<And>identity. valid \<Longrightarrow> scans_settled (committed (snd (database_session (body identity) sw)))" and "service_ok sw"
  shows "service_ok (snd (endpoint operator valid body sw))"
proof (cases operator)
  case (Inl e)
  then show ?thesis using assms(3) by (simp add: endpoint_def)
next
  case (Inr identity)
  have closed: "service_ok (close_session sw)" using assms(3) by (simp add: service_ok_def close_session_def rollback_def)
  show ?thesis
    using assms(2,3) endpoint_invariant [OF assms(1), of sw operator valid] closed Inr
    by (cases valid) (simp_all add: service_ok_def endpoint_def)
qed

lemma scans_kept: "t_scans (committed sw') = t_scans (committed sw) \<Longrightarrow> service_ok sw \<Longrightarrow> scans_settled (committed sw')"
  using scans_settled_cong [of "committed sw'" "committed sw"] by (simp add: service_ok_def)

lemma run_scan_ok:
  assumes "service_ok sw" and "driver_like (rq_driver rq)"
  shows "service_ok (snd (run_scan_endpoint cfg rq operator key sw))"
  unfolding run_scan_endpoint_def
proof (rule endpoint_ok [OF request_scan_blocks(1) _ assms(1)])
  fix identity :: operator_identity
  assume valid: "valid_source_key key"
  obtain resp s' w' where run: "run_scan_endpoint cfg rq (Inr identity) key (fst sw, snd sw) = (resp, (s', w'))" by (metis surj_pair)
  have "snd (database_session (run_scan_body cfg rq key) sw) = snd (run_scan_endpoint cfg rq (Inr identity) key sw)"
    using valid by (simp add: run_scan_endpoint_def endpoint_def)
  then have "snd (database_session (run_scan_body cfg rq key) sw) = (s', w')" using run by simp
  moreover have "scans_settled (durable s')"
    using scan_request_settles [OF run assms(2)] assms(1) by (simp add: service_ok_def metadata_ok_def)
  ultimately show "scans_settled (committed (snd (database_session (run_scan_body cfg rq key) sw)))"
    by simp
qed

lemma dashboard_scan_ok:
  assumes "service_ok sw" and "driver_like (rq_driver rq)"
  shows "service_ok (snd (dashboard_scan_endpoint bracketed cfg rq h operator key sw))"
proof (cases operator)
  case (Inl e)
  then show ?thesis using assms(1) by (simp add: dashboard_scan_endpoint_def endpoint_def)
next
  case (Inr identity)
  show ?thesis
  proof (cases "require_same_origin bracketed h identity cfg = Inr ()")
    case True
    obtain resp sw' where run: "run_scan_endpoint cfg rq (Inr identity) key (fst sw, snd sw) = (resp, sw')" by (rule prod.exhaust)
    then have "service_ok sw'" using run_scan_ok [OF assms, of cfg "Inr identity" key] by simp
    moreover have "snd (dashboard_scan_endpoint bracketed cfg rq h (Inr identity) key sw) = sw'"
      using dashboard_scan_left [OF run True assms(2)] assms(1) by (auto simp: service_ok_def metadata_ok_def)
    ultimately show ?thesis using Inr by simp
  next
    case False
    have "\<not> effect sw (snd (dashboard_scan_endpoint bracketed cfg rq h operator key sw))"
    proof (cases "valid_source_key key")
      case True
      have "\<not> effect sw (snd (database_session (dashboard_scan_body bracketed cfg rq h key identity) sw))"
        using False same_origin_required unfolding dashboard_scan_body_def by blast
      then show ?thesis using True Inr by (simp add: dashboard_scan_endpoint_def endpoint_def)
    qed (simp add: dashboard_scan_endpoint_def endpoint_def Inr)
    then show ?thesis using no_effect_ok assms(1) by blast
  qed
qed

lemma serve_ok:
  assumes ok: "service_ok sw" and "clients_ok (rq_outside rq)" and "driver_like (rq_driver rq)"
  shows "service_ok (snd (serve bracketed cfg rq cred request sw))"
proof (cases "changes_state request")
  case False
  then show ?thesis using no_effect_ok [OF reads_have_no_effect ok] by blast
next
  case True
  define operator where "operator = require_operator cfg (cred_api_key cred) (cred_user cred)"
  have "service_ok (snd (accept_change_endpoint rq operator i v sw))" for i v
    unfolding accept_change_endpoint_def
    by (rule endpoint_ok [OF request_accept_blocks(1) _ ok]) (rule scans_kept [OF accept_keeps_scans ok])
  moreover have "service_ok (snd (dashboard_accept_endpoint bracketed cfg rq h operator i v sw))" for h i v
    unfolding dashboard_accept_endpoint_def
    by (rule endpoint_ok [OF request_accept_blocks(2) _ ok]) (rule scans_kept [OF dashboard_accept_keeps_scans ok])
  moreover have "service_ok (snd (retry_delivery_endpoint cfg rq operator i sw))" for i
    unfolding retry_delivery_endpoint_def
    by (rule endpoint_ok [OF retry_block [OF assms(2)] _ ok]) (rule scans_kept [OF retry_keeps_scans ok])
  ultimately show ?thesis
    using True run_scan_ok [OF ok assms(3)] dashboard_scan_ok [OF ok assms(3)]
    by (cases request) (simp_all add: serve_def Let_def operator_def)
qed

text \<open>C4. Whatever happens, the committed metadata is sound: after any history of requests and catalog
  synchronisations, whatever the source and the providers answer, every constraint of the schema holds, no
  delivery is stuck half-way through an attempt or has more than three, and no scan is left \<open>RUNNING\<close>.\<close>

theorem service_invariant:
  assumes "history bracketed cfg sw events sw'"
    and "metadata_ok (committed sw)" and "scans_settled (committed sw)"
  shows "metadata_ok (committed sw') \<and> scans_settled (committed sw')"
proof -
  have "service_ok sw'"
    using assms
  proof (induction rule: history.induct)
    case (extend es sw1 e)
    then have "service_ok sw1" by simp
    with extend(2) show ?case by (cases e) (simp_all add: serve_ok synchronise_ok)
  qed (simp add: service_ok_def)
  then show ?thesis by (simp add: service_ok_def)
qed

lemma history_fold: "list_all event_ok es \<Longrightarrow> history bracketed cfg sw es (fold (happen bracketed cfg) es sw)"
  by (induction es rule: rev_induct) (auto intro: history.intros)

section \<open>An example\<close>

definition quiet_tables :: tables where
  "quiet_tables = sample_tables\<lparr>t_scans := []\<rparr>"

definition sample_cred :: credentials where
  "sample_cred = \<lparr>cred_api_key = Some ''key'', cred_user = None\<rparr>"

definition sample_history :: "event list" where
  "sample_history = [Request sample_rq sample_cred (RunScan ''warehouse''),
     Synchronise (Inr sample_settings) sample_loader (\<lambda>_. []) ''catalog.yaml'',
     Request sample_rq sample_cred (RetryDelivery 14)]"

lemma quiet_ok: "metadata_ok quiet_tables" "scans_settled quiet_tables"
proof -
  show "metadata_ok quiet_tables"
    by (simp add: at_most_def int32_def metadata_ok_def declared_ok_def deliveries_ok_def deliveries_in_def find_delivery_def quiet_tables_def
        constraint_defs sample_defs)
  show "scans_settled quiet_tables" by (simp add: scans_settled_def committed_status_def quiet_tables_def)
qed

lemma sample_event_ok: "list_all event_ok sample_history"
  using sample_driver_like by (simp add: sample_history_def clients_ok_def sample_rq_def sample_outside_def)

theorem service_invariant_witness:
  "\<exists>sw'. history (\<lambda>_. True) sample_settings (fresh_session quiet_tables 10, []) sample_history sw' \<and>
     metadata_ok (committed sw') \<and> scans_settled (committed sw')"
proof -
  have start: "metadata_ok (committed (fresh_session quiet_tables 10, []))" "scans_settled (committed (fresh_session quiet_tables 10, []))"
    using quiet_ok by (simp_all add: fresh_session_def)
  note h = history_fold [OF sample_event_ok, of "\<lambda>_. True" sample_settings "(fresh_session quiet_tables 10, [])"]
  from service_invariant [OF h start] h show ?thesis by blast
qed


end
