(* ===== verification/Airflow.thy ===== *)
theory Airflow
  imports App
begin

text \<open>
  \<open>airflow/dags/*.py\<close>: the client of the API, the guard in front of the aggregation of the daily revenue and
  the periodic scan. The network, \<open>json.loads\<close>, the driver of the database and the scheduler are arguments.
\<close>

section \<open>The client (\<open>schema_sentry_client.py\<close>)\<close>

record json_response =
  resp_status :: nat
  resp_body :: "(string \<times> json) list"

record url_request =
  req_url :: string
  req_data :: string
  req_headers :: "(string \<times> string) list"
  req_method :: string

text \<open>\<open>urlopen\<close> returns a response, or raises an \<open>HTTPError\<close>, which is a response as well; the body of either is
  still to be read. Any other exception is an error of the action.\<close>

datatype opened = Opened nat "py_error + string" | StatusError nat "py_error + string"

type_synonym 's network = "url_request \<Rightarrow> ('s, opened) action"
type_synonym environ = "string \<Rightarrow> string option"

definition decode_body :: "(string \<Rightarrow> py_error + json) \<Rightarrow> string \<Rightarrow> py_error + (string \<times> json) list" where
  "decode_body loads raw =
     (if raw = [] then Inr []
      else bindR (loads raw) (\<lambda>decoded. case decoded of
          JObj kvs \<Rightarrow> Inr kvs
        | _ \<Rightarrow> Inl (AirflowException ''Schema Sentry returned an invalid JSON object'')))"

text \<open>\<open>json.dumps\<close> of a dictionary of strings, with the default separators.\<close>

definition payload_text :: "(string \<times> string) list \<Rightarrow> string" where
  "payload_text payload = ''{'' @ join '', '' (map (\<lambda>(k, v). quote k @ '': '' @ quote v) payload) @ ''}''"

definition post_request :: "string \<Rightarrow> string \<Rightarrow> string \<Rightarrow> (string \<times> string) list \<Rightarrow> url_request" where
  "post_request base_url api_key path payload =
     \<lparr>req_url = base_url @ path, req_data = payload_text payload,
      req_headers = [(''Content-Type'', ''application/json''), (''X-API-Key'', api_key)], req_method = ''POST''\<rparr>"

definition unavailable :: py_error where
  "unavailable = AirflowException ''Schema Sentry API is unavailable''"

text \<open>\<open>except OSError\<close>\<close>

definition os_error_as_unavailable :: "py_error + 'a \<Rightarrow> py_error + 'a" where
  "os_error_as_unavailable r = (case r of Inl (OSError _) \<Rightarrow> Inl unavailable | _ \<Rightarrow> r)"

definition post_json ::
  "environ \<Rightarrow> 's network \<Rightarrow> (string \<Rightarrow> py_error + json) \<Rightarrow> string \<Rightarrow> (string \<times> string) list \<Rightarrow> ('s, json_response) action" where
  "post_json env net loads path payload =
     (case env ''SCHEMA_SENTRY_API_KEY'' of
        None \<Rightarrow> raiseA (KeyError ''SCHEMA_SENTRY_API_KEY'')
      | Some api_key \<Rightarrow> (\<lambda>s.
          case net (post_request (rstrip_slash (case env ''SCHEMA_SENTRY_API_URL'' of None \<Rightarrow> ''http://api:8000'' | Some u \<Rightarrow> u))
              api_key path payload) s of
            (Inl e, s') \<Rightarrow> (os_error_as_unavailable (Inl e), s')
          | (Inr (Opened status raw), s') \<Rightarrow>
              (os_error_as_unavailable (bindR (bindR raw (decode_body loads)) (\<lambda>b. Inr \<lparr>resp_status = status, resp_body = b\<rparr>)), s')
          | (Inr (StatusError status raw), s') \<Rightarrow>
              (bindR (bindR raw (decode_body loads)) (\<lambda>b. Inr \<lparr>resp_status = status, resp_body = b\<rparr>), s')))"

section \<open>The guard (\<open>daily_revenue.py\<close>)\<close>

definition validation_path :: "string \<Rightarrow> string" where
  "validation_path key = ''/api/v1/pipelines/'' @ key @ ''/validate''"

definition guard_verdict :: "string \<Rightarrow> json_response \<Rightarrow> py_error + unit" where
  "guard_verdict key response =
     (if resp_status response = 200 \<and> map_of (resp_body response) ''safe'' = Some (JBool True) then Inr ()
      else if resp_status response \<in> {200, 409} then
        Inl (AirflowFailException (''blocking schema drift detected for '' @ key))
      else Inl (AirflowException (''Schema Sentry validation failed with HTTP '' @ show_int (int (resp_status response)))))"

definition guard_pipeline ::
  "environ \<Rightarrow> 's network \<Rightarrow> (string \<Rightarrow> py_error + json) \<Rightarrow> string \<Rightarrow> ('s, unit) action" where
  "guard_pipeline env net loads key =
     bindA (post_json env net loads (validation_path key) []) (\<lambda>response. liftA (guard_verdict key response))"

definition aggregate_sql :: string where
  "aggregate_sql = [CHR 0x0A] @ join [CHR 0x0A]
     [''INSERT INTO mart.daily_revenue (date, revenue)'',
      ''SELECT purchased_at::date, SUM(amount)'',
      ''FROM public.purchases'',
      ''GROUP BY purchased_at::date'',
      ''ON CONFLICT (date) DO UPDATE SET revenue = EXCLUDED.revenue''] @ [CHR 0x0A]"

text \<open>\<open>execute\<close> connects to the address, with a timeout and with options, and executes a statement in a
  transaction.\<close>

definition aggregate_daily_revenue :: "environ \<Rightarrow> (string \<Rightarrow> nat \<Rightarrow> string \<Rightarrow> string \<Rightarrow> ('s, unit) action) \<Rightarrow> ('s, unit) action" where
  "aggregate_daily_revenue env execute =
     (case env ''SOURCE_DATABASE_URL'' of
        None \<Rightarrow> raiseA (KeyError ''SOURCE_DATABASE_URL'')
      | Some url \<Rightarrow> execute url 5 ''-c statement_timeout=30000'' aggregate_sql)"

section \<open>The periodic scan (\<open>schema_consistency_scan.py\<close>)\<close>

definition run_schema_scan :: "environ \<Rightarrow> 's network \<Rightarrow> (string \<Rightarrow> py_error + json) \<Rightarrow> ('s, unit) action" where
  "run_schema_scan env net loads =
     bindA (post_json env net loads ''/api/v1/scans'' [(''source_key'', ''game'')]) (\<lambda>response.
       if resp_status response \<noteq> 201 then
         raiseA (AirflowException (''Schema Sentry scan failed with HTTP '' @ show_int (int (resp_status response))))
       else returnA ())"

section \<open>The declarations of the graphs\<close>

record task_decl =
  task_id :: string
  task_retries :: "nat option"
  task_retry_delay :: "nat option"
  task_timeout :: "nat option"

record dag_decl =
  dag_name :: string
  dag_schedule :: string
  dag_catchup :: bool
  dag_paused :: bool
  dag_max_active :: "nat option"
  dag_tags :: "string list"
  dag_tasks :: "task_decl list"
  dag_order :: "(string \<times> string) list"

definition daily_revenue_dag :: dag_decl where
  "daily_revenue_dag =
     \<lparr>dag_name = ''daily_revenue'', dag_schedule = ''0 1 * * *'', dag_catchup = False, dag_paused = False,
      dag_max_active = None, dag_tags = [''analytics'', ''schema-sentry''],
      dag_tasks = [
        \<lparr>task_id = ''schema_guard'', task_retries = Some 2, task_retry_delay = Some 60, task_timeout = None\<rparr>,
        \<lparr>task_id = ''aggregate_daily_revenue'', task_retries = None, task_retry_delay = None, task_timeout = Some 120\<rparr>],
      dag_order = [(''schema_guard'', ''aggregate_daily_revenue'')]\<rparr>"

definition schema_scan_dag :: dag_decl where
  "schema_scan_dag =
     \<lparr>dag_name = ''schema_consistency_scan'', dag_schedule = ''*/10 * * * *'', dag_catchup = False, dag_paused = False,
      dag_max_active = Some 1, dag_tags = [''schema-sentry'', ''metadata''],
      dag_tasks = [\<lparr>task_id = ''trigger_scan'', task_retries = Some 2, task_retry_delay = Some 60, task_timeout = None\<rparr>],
      dag_order = []\<rparr>"
section \<open>What the client reports\<close>

fun opened_status :: "opened \<Rightarrow> nat" where
  "opened_status (Opened n _) = n"
| "opened_status (StatusError n _) = n"

fun opened_body :: "opened \<Rightarrow> py_error + string" where
  "opened_body (Opened _ raw) = raw"
| "opened_body (StatusError _ raw) = raw"

lemma os_error_as_unavailable_Inr [simp]: "os_error_as_unavailable r = Inr x \<longleftrightarrow> r = Inr x"
  by (auto simp: os_error_as_unavailable_def split: sum.split py_error.split)

lemma post_json_returns:
  assumes "post_json env net loads path payload s = (Inr response, s')"
  obtains base api_key opened raw where "env ''SCHEMA_SENTRY_API_KEY'' = Some api_key"
    and "net (post_request base api_key path payload) s = (Inr opened, s')" and "opened_status opened = resp_status response"
    and "opened_body opened = Inr raw" and "decode_body loads raw = Inr (resp_body response)"
proof -
  let ?base = "rstrip_slash (case env ''SCHEMA_SENTRY_API_URL'' of None \<Rightarrow> ''http://api:8000'' | Some u \<Rightarrow> u)"
  obtain api_key where key: "env ''SCHEMA_SENTRY_API_KEY'' = Some api_key"
    using assms by (cases "env ''SCHEMA_SENTRY_API_KEY''") (simp_all add: post_json_def)
  obtain r s1 where net: "net (post_request ?base api_key path payload) s = (r, s1)" by (rule prod.exhaust)
  obtain o1 where o1: "r = Inr o1" and s1: "s1 = s'"
    using assms key net by (cases r) (auto simp: post_json_def split: opened.splits)
  have "bindR (bindR (opened_body o1) (decode_body loads)) (\<lambda>b. Inr \<lparr>resp_status = opened_status o1, resp_body = b\<rparr>) = Inr response"
    using assms key net o1 by (cases o1) (simp_all add: post_json_def)
  then obtain raw b where "opened_body o1 = Inr raw" "decode_body loads raw = Inr b"
    "response = \<lparr>resp_status = opened_status o1, resp_body = b\<rparr>" by (auto simp: bindR_eq_Inr)
  then show thesis using that [OF key] net o1 s1 by simp
qed

section \<open>What the graph relies on\<close>

text \<open>The network: an answer that arrives is the answer of the service, at the time the service gave it. The
  answers of the service are rendered by \<open>render\<close>, and \<open>loads\<close> reads what it renders.\<close>

definition answers_validation :: "settings \<Rightarrow> (json \<Rightarrow> string) \<Rightarrow> (session \<times> world) network \<Rightarrow> string \<Rightarrow> bool" where
  "answers_validation cfg render net key \<longleftrightarrow>
     (\<forall>base api_key sw opened sw'. net (post_request base api_key (validation_path key) []) sw = (Inr opened, sw') \<longrightarrow>
        (let resp = fst (validate_pipeline_endpoint (require_operator cfg (Some api_key) None) key sw) in
         opened_status opened = http_status resp \<and>
         (\<forall>n b raw. resp = Answer n b \<longrightarrow> opened_body opened = Inr raw \<longrightarrow> raw = render (validation_json b))))"

definition answers_scan :: "settings \<Rightarrow> request_env \<Rightarrow> (session \<times> world) network \<Rightarrow> string \<Rightarrow> bool" where
  "answers_scan cfg rq net key \<longleftrightarrow>
     (\<forall>base api_key sw opened sw'. net (post_request base api_key ''/api/v1/scans'' [(''source_key'', key)]) sw = (Inr opened, sw') \<longrightarrow>
        (\<exists>resp. run_scan_endpoint cfg rq (require_operator cfg (Some api_key) None) key sw = (resp, sw') \<and>
           opened_status opened = http_status resp))"

definition loads_renders :: "(string \<Rightarrow> py_error + json) \<Rightarrow> (json \<Rightarrow> string) \<Rightarrow> bool" where
  "loads_renders loads render \<longleftrightarrow> (\<forall>j. render j \<noteq> [] \<and> loads (render j) = Inr j)"

text \<open>The scheduler: a task is tried only after each task before it has succeeded, no more often than its retries
  allow, and not again once it has succeeded or raised \<open>AirflowFailException\<close>.\<close>

record 's task_try =
  try_task :: string
  try_before :: 's
  try_result :: "py_error + unit"

fun tried_again :: "py_error + unit \<Rightarrow> bool" where
  "tried_again (Inr _) = False"
| "tried_again (Inl (AirflowFailException _)) = False"
| "tried_again (Inl _) = True"

definition scheduled :: "dag_decl \<Rightarrow> 's task_try list \<Rightarrow> bool" where
  "scheduled dag tries \<longleftrightarrow>
     (\<forall>(first, second) \<in> set (dag_order dag). \<forall>i < length tries. try_task (tries ! i) = second \<longrightarrow>
        (\<exists>j < i. try_task (tries ! j) = first \<and> try_result (tries ! j) = Inr ())) \<and>
     (\<forall>t \<in> set (dag_tasks dag). pred_option (\<lambda>n. length (filter (\<lambda>x. try_task x = task_id t) tries) \<le> n + 1) (task_retries t)) \<and>
     (\<forall>j < length tries. \<forall>i < j. try_task (tries ! i) = try_task (tries ! j) \<longrightarrow> tried_again (try_result (tries ! i)))"

definition guarded_by :: "(('s, unit) action) \<Rightarrow> string \<Rightarrow> 's task_try list \<Rightarrow> bool" where
  "guarded_by guard task tries \<longleftrightarrow>
     (\<forall>x \<in> set tries. try_task x = task \<longrightarrow> try_result x = fst (guard (try_before x)))"

section \<open>The guard and the service\<close>

lemma validation_answer:
  assumes "fst (validate_pipeline_endpoint operator key sw) = Answer n b"
  shows "pvr_safe b \<longleftrightarrow> (\<nexists>c d. blocks_pipeline (committed sw) key c d)" "n = (if pvr_safe b then 200 else 409)"
proof -
  obtain identity where op: "operator = Inr identity"
    using assms by (cases operator) (auto simp: validate_pipeline_endpoint_def endpoint_def elim: response_of.elims)
  obtain r sw1 where body: "validate_pipeline_body key (close_session sw) = (r, sw1)" by (rule prod.exhaust)
  obtain ts where r: "r = Inr ((n, b), ts)"
    using assms op body
    by (cases r) (auto simp: validate_pipeline_endpoint_def endpoint_def database_session_def elim!: response_of.elims
        split: prod.splits sum.splits if_splits)
  then obtain v where v: "on_db (validate_pipeline sql_validation_repository key) (close_session sw) = (Inr v, sw1)"
    and nb: "n = (if validation_safe v then 200 else 409)" "b = validation_response_of v"
    using body by (auto simp: validate_pipeline_body_def bindA_eq_Inr exceptA_def split: prod.splits sum.splits if_splits)
  from v obtain s1 where "validate_pipeline sql_validation_repository key (fst (close_session sw)) = (Inr v, s1)"
    by (auto simp: on_db_eq)
  then have "validation_safe v \<longleftrightarrow> (\<nexists>c d. blocks_pipeline (work (fst (close_session sw))) key c d)"
    using sql_validation.validation_returns by blast
  then show "pvr_safe b \<longleftrightarrow> (\<nexists>c d. blocks_pipeline (committed sw) key c d)" "n = (if pvr_safe b then 200 else 409)"
    using nb by (simp_all add: validation_response_of_def close_session_def rollback_def)
qed
lemma validation_raises: "raises (\<lambda>_. True) (\<lambda>e. \<not> is_http_exception e) (validate_pipeline sql_validation_repository key)"
proof -
  have "\<not> is_http_exception e" if "session_error e" for e using that by (auto simp: session_error_def)
  then show ?thesis
    unfolding validate_pipeline_def sql_validation_repository_def list_open_breaking_changes_for_pipeline_def Let_def
    by (auto intro!: raises_bindA raises_basic split: option.split)
qed

lemma database_session_refused_status:
  assumes "database_session body sw = (Inl (HTTPException n d), sw')"
  obtains sw1 where "body (close_session sw) = (Inl (HTTPException n d), sw1)"
proof -
  obtain r sw1 where b: "body (close_session sw) = (r, sw1)" by (rule prod.exhaust)
  show thesis
  proof (cases r)
    case (Inr y)
    then show thesis using assms b by (cases y) (simp add: database_session_def)
  next
    case (Inl e)
    have commit: "e' \<noteq> HTTPException n d" if "commit_world sw1 = (Inl e', t)" for e' t
      using that by (cases sw1) (auto simp: commit_world_def on_db_eq commit_def thenA_eq_Inl session_error_def dest!: flush_session_error)
    have "e = HTTPException n d"
      using assms b Inl commit
      by (cases "is_http_exception e"; cases "commit_world sw1"; cases "fst (commit_world sw1)")
        (auto simp: database_session_def)
    then show thesis using that b Inl by simp
  qed
qed

lemma operator_refusal: "require_operator cfg api_key user = Inl (HTTPException n d) \<Longrightarrow> n = 401"
  by (drule operator_refused) auto

lemma validation_refused:
  assumes "fst (validate_pipeline_endpoint (require_operator cfg api_key user) key sw) = Refused n d"
  shows "n = 401 \<or> n = 404"
proof (cases "require_operator cfg api_key user")
  case (Inl e)
  then have "response_of (Inl e) = (Refused n d :: pipeline_validation_response http_response)"
    using assms by (simp add: validate_pipeline_endpoint_def endpoint_def)
  then have "e = HTTPException n d" by (cases e) auto
  then show ?thesis using Inl operator_refusal by blast
next
  case (Inr identity)
  obtain r sw' where run: "database_session (validate_pipeline_body key) sw = (r, sw')" by (rule prod.exhaust)
  have "response_of r = Refused n d" using assms Inr run by (simp add: validate_pipeline_endpoint_def endpoint_def)
  then have "r = Inl (HTTPException n d)" by (auto elim: response_of.elims)
  then obtain sw1 where "validate_pipeline_body key (close_session sw) = (Inl (HTTPException n d), sw1)"
    using run database_session_refused_status by metis
  then obtain e s1 where "validate_pipeline sql_validation_repository key (fst (close_session sw)) = (Inl e, s1)"
    and e: "HTTPException n d = (if is_lookup_error e then HTTPException 404 (DetailText (error_text e)) else e)"
    by (auto simp: validate_pipeline_body_def bindA_eq_Inl exceptA_def on_db_def split: prod.splits sum.splits if_splits)
  then have "\<not> is_http_exception e" using raisesD(1) [OF validation_raises] by blast
  then show ?thesis using e by (auto split: if_splits)
qed

lemma guard_passes:
  assumes "answers_validation cfg render net key" and "loads_renders loads render"
    and "guard_pipeline env net loads key sw = (Inr (), sw')"
  shows "\<nexists>c d. blocks_pipeline (committed sw) key c d"
proof -
  obtain response where post: "post_json env net loads (validation_path key) [] sw = (Inr response, sw')"
    and verdict: "resp_status response = 200" "map_of (resp_body response) ''safe'' = Some (JBool True)"
    using assms(3) by (auto simp: guard_pipeline_def bindA_eq_Inr guard_verdict_def split: if_splits)
  obtain base api_key opened raw where net: "net (post_request base api_key (validation_path key) []) sw = (Inr opened, sw')"
    and o: "opened_status opened = resp_status response" "opened_body opened = Inr raw" "decode_body loads raw = Inr (resp_body response)"
    by (rule post_json_returns [OF post])
  define resp where "resp = fst (validate_pipeline_endpoint (require_operator cfg (Some api_key) None) key sw)"
  note answer = assms(1) [unfolded answers_validation_def Let_def, rule_format, OF net, folded resp_def]
  have status: "http_status resp = 200" using answer o verdict(1) by simp
  have raw: "resp = Answer n b \<Longrightarrow> raw = render (validation_json b)" for n b using answer o(2) by blast
  show ?thesis
  proof (cases resp)
    case (Answer n b)
    have "resp_body response = [(''pipeline_key'', JStr (pvr_key b)), (''safe'', JBool (pvr_safe b)),
        (''blocking_changes'', JArr (map blocking_change_json (pvr_blocking b)))]"
      using o(3) raw [OF Answer] assms(2) by (simp add: decode_body_def loads_renders_def validation_json_def)
    then have "pvr_safe b" using verdict(2) by simp
    then show ?thesis using validation_answer(1) [OF Answer [unfolded resp_def]] by simp
  next
    case (Refused n d)
    then show ?thesis using status validation_refused [OF Refused [unfolded resp_def]] by auto
  qed (use status in simp_all)
qed
lemma guard_after_answer:
  assumes "fst (post_json env net loads (validation_path key) [] s) = Inr response" and "resp_status response \<in> {200, 409}"
  shows "\<not> tried_again (fst (guard_pipeline env net loads key s))"
proof -
  obtain s' where "post_json env net loads (validation_path key) [] s = (Inr response, s')" using assms(1) by (metis prod.collapse)
  then have "fst (guard_pipeline env net loads key s) = guard_verdict key response"
    by (simp add: guard_pipeline_def bindA_def)
  then show ?thesis using assms(2) by (auto simp: guard_verdict_def)
qed

section \<open>The daily revenue\<close>

abbreviation revenue_guard :: "environ \<Rightarrow> 's network \<Rightarrow> (string \<Rightarrow> py_error + json) \<Rightarrow> ('s, unit) action" where
  "revenue_guard env net loads \<equiv> guard_pipeline env net loads ''daily_revenue''"

text \<open>C9. From the scheduler to the tables: in every run of the graph, the revenue is aggregated only after a
  try of the guard at which no open \<open>BREAKING\<close> change reached the pipeline. The guard is tried at most three
  times, and an answer 200 or 409 of the service is final: the guard is not tried again after it.\<close>

theorem revenue_guarded:
  assumes "scheduled daily_revenue_dag tries" and "guarded_by (revenue_guard env net loads) ''schema_guard'' tries"
    and "answers_validation cfg render net ''daily_revenue''" and "loads_renders loads render"
  shows "(\<forall>i < length tries. try_task (tries ! i) = ''aggregate_daily_revenue'' \<longrightarrow>
      (\<exists>j < i. try_task (tries ! j) = ''schema_guard'' \<and>
         (\<nexists>c d. blocks_pipeline (committed (try_before (tries ! j))) ''daily_revenue'' c d))) \<and>
    length (filter (\<lambda>x. try_task x = ''schema_guard'') tries) \<le> 3 \<and>
    (\<forall>i < length tries. \<forall>response. try_task (tries ! i) = ''schema_guard'' \<longrightarrow>
       fst (post_json env net loads (validation_path ''daily_revenue'') [] (try_before (tries ! i))) = Inr response \<longrightarrow>
       resp_status response \<in> {200, 409} \<longrightarrow> (\<forall>j < length tries. i < j \<longrightarrow> try_task (tries ! j) \<noteq> ''schema_guard''))"
proof (intro conjI allI impI)
  have order: "(''schema_guard'', ''aggregate_daily_revenue'') \<in> set (dag_order daily_revenue_dag)"
    by (simp add: daily_revenue_dag_def)
  have preceded: "\<forall>i < length tries. try_task (tries ! i) = ''aggregate_daily_revenue'' \<longrightarrow>
      (\<exists>j < i. try_task (tries ! j) = ''schema_guard'' \<and> try_result (tries ! j) = Inr ())"
    by (rule bspec [OF assms(1) [unfolded scheduled_def, THEN conjunct1] order, unfolded prod.case])
  have result: "try_result (tries ! i) = fst (revenue_guard env net loads (try_before (tries ! i)))"
    if "i < length tries" "try_task (tries ! i) = ''schema_guard''" for i
    using assms(2) that unfolding guarded_by_def by simp
  fix i
  assume i: "i < length tries"
  show "\<exists>j < i. try_task (tries ! j) = ''schema_guard'' \<and>
      (\<nexists>c d. blocks_pipeline (committed (try_before (tries ! j))) ''daily_revenue'' c d)"
    if a: "try_task (tries ! i) = ''aggregate_daily_revenue''"
  proof -
    obtain j where j: "j < i" "try_task (tries ! j) = ''schema_guard''" "try_result (tries ! j) = Inr ()"
      using preceded [rule_format, OF i a] by (elim exE conjE)
    then have "fst (revenue_guard env net loads (try_before (tries ! j))) = Inr ()" using result [of j] i by simp
    then obtain sw' where "revenue_guard env net loads (try_before (tries ! j)) = (Inr (), sw')" by (metis prod.collapse)
    from guard_passes [OF assms(3,4) this] j show ?thesis by blast
  qed
  fix response j
  assume g: "try_task (tries ! i) = ''schema_guard''" "j < length tries" "i < j"
    and r: "fst (post_json env net loads (validation_path ''daily_revenue'') [] (try_before (tries ! i))) = Inr response"
      "resp_status response \<in> {200, 409}"
  have final: "\<not> tried_again (try_result (tries ! i))" using guard_after_answer [OF r] result [OF i g(1)] by simp
  show "try_task (tries ! j) \<noteq> ''schema_guard''"
  proof
    assume "try_task (tries ! j) = ''schema_guard''"
    then have "try_task (tries ! i) = try_task (tries ! j)" using g(1) by simp
    from assms(1) [unfolded scheduled_def, THEN conjunct2, THEN conjunct2, rule_format, OF g(2,3) this] final
    show False by contradiction
  qed
next
  have "\<lparr>task_id = ''schema_guard'', task_retries = Some 2, task_retry_delay = Some 60, task_timeout = None\<rparr> \<in> set (dag_tasks daily_revenue_dag)"
    by (simp add: daily_revenue_dag_def)
  from bspec [OF assms(1) [unfolded scheduled_def, THEN conjunct2, THEN conjunct1] this]
  show "length (filter (\<lambda>x. try_task x = ''schema_guard'') tries) \<le> 3" by simp
qed

section \<open>The periodic scan\<close>

text \<open>A try of the periodic scan that succeeds has committed a new scan as \<open>COMPLETED\<close>, and no other scan
  has changed its status.\<close>

theorem periodic_scan_completed:
  assumes "run_schema_scan env net loads (s, w) = (Inr (), (s', w'))"
    and "answers_scan cfg rq net ''game''" and "driver_like (rq_driver rq)" and "declared_ok (durable s)"
  shows "\<exists>i. committed_status (durable s) i = None \<and> committed_status (durable s') = (committed_status (durable s))(i \<mapsto> COMPLETED)"
proof -
  obtain response where post: "post_json env net loads ''/api/v1/scans'' [(''source_key'', ''game'')] (s, w) = (Inr response, (s', w'))"
    and status: "resp_status response = 201"
    using assms(1) by (auto simp: run_schema_scan_def bindA_eq_Inr split: if_splits)
  obtain base api_key opened where "net (post_request base api_key ''/api/v1/scans'' [(''source_key'', ''game'')]) (s, w) = (Inr opened, (s', w'))"
    and o: "opened_status opened = resp_status response"
    by (rule post_json_returns [OF post])
  then obtain resp where run: "run_scan_endpoint cfg rq (require_operator cfg (Some api_key) None) ''game'' (s, w) = (resp, (s', w'))"
    and created: "http_status resp = 201"
    using assms(2) status unfolding answers_scan_def by metis
  obtain identity where op: "require_operator cfg (Some api_key) None = Inr identity"
  proof (cases "require_operator cfg (Some api_key) None")
    case (Inl e)
    then have "resp = response_of (Inl e)" using run by (simp add: run_scan_endpoint_def endpoint_def)
    then show ?thesis using created operator_refusal [of cfg "Some api_key" None] Inl by (cases e) auto
  qed (use that in blast)
  show ?thesis
  proof (rule scan_request_cases [OF run [unfolded op] assms(3,4)])
    fix report t
    assume t: "scan_of_request cfg rq ''game'' (rollback s) = (Inr report, t)" and left: "other_tables (durable s') = other_tables (work t)"
    have "scan_status_of (rollback s) (report_scan_id report) = None"
      "scan_status_of t = (scan_status_of (rollback s))(report_scan_id report \<mapsto> COMPLETED)"
      using sql_scans.run_returns [where s = "rollback s" and s' = t and r = report] t by (auto simp: request_scan_repository_def)
    then show ?thesis using committed_status_other [OF left] by (auto simp: status_of_work rollback_def)
  qed (use created in auto)
qed
section \<open>Examples\<close>

definition sample_environ :: environ where
  "sample_environ = (\<lambda>v. if v = ''SCHEMA_SENTRY_API_KEY'' then Some ''key'' else None)"

text \<open>A network that reaches the service at once.\<close>

definition direct_validation :: "(session \<times> world) network" where
  "direct_validation request sw =
     (case fst (validate_pipeline_endpoint (require_operator sample_settings (map_of (req_headers request) ''X-API-Key'') None)
         ''daily_revenue'' sw) of
        Answer n b \<Rightarrow> (Inr (Opened n (Inr (render_json (validation_json b)))), sw)
      | resp \<Rightarrow> (Inr (StatusError (http_status resp) (Inr [])), sw))"

definition direct_scan :: "(session \<times> world) network" where
  "direct_scan request sw =
     (case run_scan_endpoint sample_settings sample_rq (require_operator sample_settings (map_of (req_headers request) ''X-API-Key'') None)
         ''game'' sw of (resp, sw') \<Rightarrow> (Inr (Opened (http_status resp) (Inr [])), sw'))"

lemma loads_inverse: "loads_renders (\<lambda>raw. Inr (inv render_json raw)) render_json"
proof -
  have "inj render_json"
  proof (rule injI)
    fix j k assume "render_json j = render_json k"
    then show "j = k" using render_json_inj [of j "[]" k "[]"] by (simp add: delimited_def)
  qed
  moreover have "render_json j \<noteq> []" for j using render_json_leader [of j] by auto
  ultimately show ?thesis by (simp add: loads_renders_def inv_f_f)
qed

lemma direct_answers: "answers_validation sample_settings render_json direct_validation ''daily_revenue''"
  unfolding answers_validation_def Let_def
  by (auto simp: direct_validation_def post_request_def split: http_response.splits)

lemma direct_answers_scan:
  "answers_scan sample_settings sample_rq direct_scan ''game''"
  unfolding answers_scan_def
proof (intro allI impI)
  fix base api_key sw opened sw'
  assume net: "direct_scan (post_request base api_key ''/api/v1/scans'' [(''source_key'', ''game'')]) sw = (Inr opened, sw')"
  obtain resp sw1 where run: "run_scan_endpoint sample_settings sample_rq (require_operator sample_settings (Some api_key) None) ''game'' sw =
    (resp, sw1)" by (rule prod.exhaust)
  then have "opened = Opened (http_status resp) (Inr [])" "sw1 = sw'"
    using net by (simp_all add: direct_scan_def post_request_def)
  then show "\<exists>resp. run_scan_endpoint sample_settings sample_rq (require_operator sample_settings (Some api_key) None) ''game'' sw = (resp, sw') \<and>
      opened_status opened = http_status resp"
    using run by simp
qed
definition guarded_tables :: tables where
  "guarded_tables = sample_tables\<lparr>t_pipelines := [sample_pipeline\<lparr>pl_key := ''daily_revenue''\<rparr>], t_edges := [sample_edge_row]\<rparr>"

definition guarded_state :: "session \<times> world" where
  "guarded_state = (fresh_session guarded_tables 30, [])"

lemma guarded_declared: "declared_ok guarded_tables"
  by (simp add: declared_ok_def guarded_tables_def sample_defs sample_pipeline_def sample_edge_row_def constraint_defs
      at_most_def int32_def)

lemma guarded_validation:
  obtains v where "validate_pipeline sql_validation_repository ''daily_revenue'' (rollback (fst guarded_state)) = (Inr v, rollback (fst guarded_state))"
    and "validation_safe v"
proof -
  let ?s = "rollback (fst guarded_state)"
  have "usable ?s" using guarded_declared by (simp add: usable_def declared_ok_def guarded_state_def fresh_session_def rollback_def)
  then obtain v where v: "validate_pipeline sql_validation_repository (pl_key (sample_pipeline\<lparr>pl_key := ''daily_revenue''\<rparr>)) ?s = (Inr v, ?s)"
    using validation_total [of ?s] by (auto simp: guarded_state_def fresh_session_def rollback_def guarded_tables_def)
  have "\<not> blocks_pipeline (work ?s) k c d" for k c d
    by (simp add: blocks_pipeline_def guarded_state_def guarded_tables_def sample_defs rollback_def)
  then have "validation_safe v" using sql_validation.validation_returns [OF v] by simp
  then show thesis using that v by simp
qed

lemma guarded_answer:
  "\<exists>b. fst (validate_pipeline_endpoint (Inr identity) ''daily_revenue'' guarded_state) = Answer 200 b \<and> pvr_safe b"
proof -
  obtain v where v: "validate_pipeline sql_validation_repository ''daily_revenue'' (rollback (fst guarded_state)) = (Inr v, rollback (fst guarded_state))"
    and safe: "validation_safe v" by (rule guarded_validation)
  have "validate_pipeline_body ''daily_revenue'' (close_session guarded_state) =
    (Inr ((200, validation_response_of v), []), close_session guarded_state)"
    using v safe by (simp add: validate_pipeline_body_def bindA_def exceptA_def on_db_def close_session_def)
  then show ?thesis
    using safe by (simp add: validate_pipeline_endpoint_def endpoint_def database_session_def validation_response_of_def)
qed

definition sample_tries :: "(session \<times> world) task_try list" where
  "sample_tries = [\<lparr>try_task = ''schema_guard'', try_before = guarded_state, try_result = Inr ()\<rparr>,
     \<lparr>try_task = ''aggregate_daily_revenue'', try_before = guarded_state, try_result = Inr ()\<rparr>]"

lemma sample_guard: "fst (revenue_guard sample_environ direct_validation (\<lambda>raw. Inr (inv render_json raw)) guarded_state) = Inr ()"
proof -
  obtain b where b: "fst (validate_pipeline_endpoint (Inr sample_operator) ''daily_revenue'' guarded_state) = Answer 200 b" "pvr_safe b"
    using guarded_answer by blast
  have loads: "inv render_json (render_json j) = j" "render_json j \<noteq> []" for j
    using loads_inverse by (auto simp: loads_renders_def)
  have "direct_validation (post_request base ''key'' path payload) guarded_state =
    (Inr (Opened 200 (Inr (render_json (validation_json b)))), guarded_state)" for base path payload
    using b(1) by (simp add: direct_validation_def post_request_def sample_key)
  moreover have "decode_body (\<lambda>raw. Inr (inv render_json raw)) (render_json (validation_json b)) =
      Inr [(''pipeline_key'', JStr (pvr_key b)), (''safe'', JBool True), (''blocking_changes'', JArr (map blocking_change_json (pvr_blocking b)))]"
    using loads b(2) by (simp add: decode_body_def validation_json_def del: render_json.simps)
  ultimately show ?thesis
    by (simp add: guard_pipeline_def post_json_def sample_environ_def bindA_def guard_verdict_def os_error_as_unavailable_def
        del: render_json.simps)
qed

theorem revenue_guarded_witness:
  "scheduled daily_revenue_dag sample_tries \<and>
   (\<exists>j < 1. try_task (sample_tries ! j) = ''schema_guard'' \<and>
      (\<nexists>c d. blocks_pipeline (committed (try_before (sample_tries ! j))) ''daily_revenue'' c d))"
proof -
  have run: "scheduled daily_revenue_dag sample_tries"
    by (simp add: scheduled_def daily_revenue_dag_def sample_tries_def less_Suc_eq)
  have guard: "guarded_by (revenue_guard sample_environ direct_validation (\<lambda>raw. Inr (inv render_json raw))) ''schema_guard'' sample_tries"
    using sample_guard by (simp add: guarded_by_def sample_tries_def)
  have "1 < length sample_tries" "try_task (sample_tries ! 1) = ''aggregate_daily_revenue''" by (simp_all add: sample_tries_def)
  with revenue_guarded [OF run guard direct_answers loads_inverse] run show ?thesis by blast
qed

definition game_session :: session where
  "game_session = fresh_session (no_tables\<lparr>t_sources := [sample_source\<lparr>src_key := ''game''\<rparr>]\<rparr>) 10"

definition game_running :: session where
  "game_running = game_session\<lparr>work := (work game_session)\<lparr>t_scans :=
     [\<lparr>sc_id = 10, sc_source = 0, sc_trigger = MANUAL, sc_status = RUNNING, sc_started = 0,
       sc_finished = None, sc_duration = None, sc_error_code = None, sc_error_message = None\<rparr>]\<rparr>, id_supply := 11\<rparr>"

lemmas game_defs = game_running_def game_session_def sample_source_def fresh_session_def no_tables_def

lemma game_create: "create_running_scan ''game'' MANUAL 0 game_session = (Inr 10, game_running)"
  by (simp add: create_running_scan_def run_defs game_defs constraint_defs at_most_def int32_def)

lemma game_expected: "load_expected_columns id ''game'' game_running = (Inr [], game_running)"
  by (simp add: load_expected_columns_def run_defs game_defs constraint_defs at_most_def int32_def expected_rows_def)

lemma game_initial: "\<exists>s'. complete_initial_baseline 10 ''game'' [sample_column ''id'' ''bigint'' True] 0 game_running = (Inr (), s')"
  by (simp add: complete_initial_baseline_def store_expected_def dataset_for_def Let_def run_defs game_defs constraint_defs
      at_most_def [of 63] at_most_def [of 100] at_most_def [of 200] at_most_def [of 1000] int32_def expected_row_of_def
      observed_row_of_def sample_observed)
lemma game_declared: "declared_ok (durable game_session)"
  by (simp add: declared_ok_def game_defs constraint_defs at_most_def int32_def)

lemma game_scan:
  "\<exists>report t. scan_of_request sample_settings sample_rq ''game'' (rollback game_session) = (Inr report, t)"
proof -
  let ?repo = "sql_scan_repository sample_env"
  have env: "(rq_scan sample_rq)\<lparr>env_channels := enabled_channels sample_settings\<rparr> = sample_env"
    by (simp add: sample_rq_def sample_env_def enabled_channels_def sample_settings_def default_settings_def present_def)
  have us: "usable game_session" by (simp add: usable_def game_defs constraint_defs at_most_def int32_def)
  have lock: "op_try_lock ?repo ''game'' game_session = (Inr True, game_session)"
    by (simp add: sql_scan_repository_def sample_env_def try_source_lock_def usable_run us)
  have create: "op_create ?repo ''game'' MANUAL game_session = (Inr 10, game_running)"
    by (simp add: sql_scan_repository_def sample_env_def game_create)
  have reads: "op_expected ?repo ''game'' game_running = (Inr [], game_running)"
    by (simp add: sql_scan_repository_def sample_env_def game_expected)
  obtain s' where "op_initial ?repo 10 ''game'' [sample_column ''id'' ''bigint'' True] 0 game_running = (Inr (), s')"
    using game_initial by (auto simp: sql_scan_repository_def)
  then have "\<exists>report. scan_body ?repo (sample_collect True) 0 ''game'' MANUAL 10 game_running = (Inr report, s')"
    by (simp add: scan_body_def sample_collect_def bindA_def thenA_def reads)
  then obtain report where "scan_body ?repo (sample_collect True) 0 ''game'' MANUAL 10 game_running = (Inr report, s')" ..
  then have "run_scan ?repo (sample_collect True) 0 0 ''game'' MANUAL game_session = (Inr report, s')"
    by (simp add: run_scan_def bindA_def lock create exceptA_def)
  moreover have "rollback game_session = game_session" by (simp add: rollback_def game_session_def fresh_session_def)
  ultimately show ?thesis
    by (auto simp: request_scan_repository_def env sample_collected) (auto simp: sample_rq_def)
qed

theorem periodic_scan_completed_witness:
  "\<exists>s' w' i. run_schema_scan sample_environ direct_scan (\<lambda>raw. Inr JNull) (game_session, []) = (Inr (), (s', w')) \<and>
     committed_status (durable s') i = Some COMPLETED"
proof -
  obtain report t where t: "scan_of_request sample_settings sample_rq ''game'' (rollback game_session) = (Inr report, t)"
    using game_scan by blast
  have valid: "valid_source_key ''game''" by (simp add: valid_source_key_def)
  obtain resp s' w' where run: "run_scan_endpoint sample_settings sample_rq (Inr sample_operator) ''game'' (game_session, []) = (resp, (s', w'))"
    by (metis surj_pair)
  have "http_status resp = 201"
    by (rule scan_request_cases [OF run sample_driver_like game_declared]) (use t valid in simp_all)
  then have "run_schema_scan sample_environ direct_scan (\<lambda>raw. Inr JNull) (game_session, []) = (Inr (), (s', w'))"
    using run by (simp add: run_schema_scan_def post_json_def sample_environ_def bindA_def direct_scan_def post_request_def
        sample_key decode_body_def os_error_as_unavailable_def)
  from periodic_scan_completed [OF this direct_answers_scan sample_driver_like game_declared] this show ?thesis by fastforce
qed


end
