(* ===== verification/DatabaseSchema.thy ===== *)
theory DatabaseSchema
  imports Store
begin

text \<open>
  Database schemas as data: the declarations of tables, columns, constraints and indexes that the migrations
  (\<open>alembic/versions/*.py\<close>) apply and that the classes of \<open>infrastructure/db/models/*.py\<close> declare, and
  what PostgreSQL makes of them, both of the operations on a schema and of the rows of a table.
\<close>

section \<open>Declarations\<close>

datatype sql_type = VarChar nat | Boolean | Integer | Uuid | Timestamp | TextType | Jsonb | Enumeration string "string list"

datatype server_default = SqlText string | SqlLiteral string

datatype column_decl = column_decl (cl_name: string) (cl_type: sql_type) (cl_default: "server_default option") (cl_nullable: bool)

text \<open>Foreign keys have one column, the table and the column it refers to, and what happens on deletion.\<close>

datatype rule = PrimaryKey "string list" | Unique "string list" | ForeignKey string string string string

datatype table_decl = table_decl (tb_name: string) (tb_columns: "column_decl list") (tb_constraints: "(string \<times> rule) list")

text \<open>A partial index has a condition of the form \<open>column = 'literal'\<close>.\<close>

record index_decl =
  ix_name :: string
  ix_table :: string
  ix_columns :: "string list"
  ix_unique :: bool
  ix_where :: "(string \<times> string) option"

record database =
  db_tables :: "table_decl list"
  db_indexes :: "index_decl list"

section \<open>Operations on a schema\<close>

datatype ddl =
    CreateTable table_decl
  | DropTable string
  | CreateIndex index_decl
  | DropIndex string string
  | CreateUnique string string "string list"
  | DropConstraint string string

fun refers :: "rule \<Rightarrow> string option" where
  "refers (ForeignKey _ t _ _) = Some t"
| "refers _ = None"

definition find_table :: "string \<Rightarrow> database \<Rightarrow> table_decl option" where
  "find_table n d = List.find (\<lambda>t. tb_name t = n) (db_tables d)"

definition refers_to_table :: "string \<Rightarrow> table_decl \<Rightarrow> bool" where
  "refers_to_table n t = list_ex (\<lambda>(_, r). refers r = Some n) (tb_constraints t)"

definition sql_error :: "string \<Rightarrow> py_error + 'a" where
  "sql_error what = Inl (SQLAlchemyError what)"

definition alter_constraints ::
  "string \<Rightarrow> ((string \<times> rule) list \<Rightarrow> (string \<times> rule) list) \<Rightarrow> database \<Rightarrow> database" where
  "alter_constraints n f d = d\<lparr>db_tables := map (\<lambda>t. if tb_name t = n
     then table_decl (tb_name t) (tb_columns t) (f (tb_constraints t)) else t) (db_tables d)\<rparr>"

fun execute_ddl :: "ddl \<Rightarrow> database \<Rightarrow> py_error + database" where
  "execute_ddl (CreateTable t) d =
     (if find_table (tb_name t) d \<noteq> None then sql_error ''duplicate table''
      else if list_ex (\<lambda>(_, r). case refers r of None \<Rightarrow> False | Some n \<Rightarrow> n \<noteq> tb_name t \<and> find_table n d = None) (tb_constraints t)
        then sql_error ''undefined table''
      else Inr (d\<lparr>db_tables := db_tables d @ [t]\<rparr>))"
| "execute_ddl (DropTable n) d =
     (if find_table n d = None then sql_error ''undefined table''
      else if list_ex (\<lambda>t. tb_name t \<noteq> n \<and> refers_to_table n t) (db_tables d)
        then sql_error ''dependent objects still exist''
      else Inr (d\<lparr>db_tables := filter (\<lambda>t. tb_name t \<noteq> n) (db_tables d),
                  db_indexes := filter (\<lambda>i. ix_table i \<noteq> n) (db_indexes d)\<rparr>))"
| "execute_ddl (CreateIndex i) d =
     (if find_table (ix_table i) d = None then sql_error ''undefined table''
      else if list_ex (\<lambda>j. ix_name j = ix_name i) (db_indexes d) then sql_error ''duplicate table''
      else Inr (d\<lparr>db_indexes := db_indexes d @ [i]\<rparr>))"
| "execute_ddl (DropIndex n _) d =
     (if \<not> list_ex (\<lambda>j. ix_name j = n) (db_indexes d) then sql_error ''undefined object''
      else Inr (d\<lparr>db_indexes := filter (\<lambda>j. ix_name j \<noteq> n) (db_indexes d)\<rparr>))"
| "execute_ddl (CreateUnique n t cs) d =
     (case find_table t d of
        None \<Rightarrow> sql_error ''undefined table''
      | Some td \<Rightarrow>
          if list_ex (\<lambda>(m, _). m = n) (tb_constraints td) then sql_error ''duplicate object''
          else Inr (alter_constraints t (\<lambda>rs. rs @ [(n, Unique cs)]) d))"
| "execute_ddl (DropConstraint n t) d =
     (case find_table t d of
        None \<Rightarrow> sql_error ''undefined table''
      | Some td \<Rightarrow>
          if \<not> list_ex (\<lambda>(m, _). m = n) (tb_constraints td) then sql_error ''undefined object''
          else Inr (alter_constraints t (filter (\<lambda>(m, _). m \<noteq> n)) d))"

definition run_ddl :: "ddl list \<Rightarrow> database \<Rightarrow> py_error + database" where
  "run_ddl ops d = fold (\<lambda>op r. bindR r (execute_ddl op)) ops (Inr d)"

lemma run_ddl_simps [simp]:
  "run_ddl [] d = Inr d"
  "execute_ddl op d = Inr d' \<Longrightarrow> run_ddl (op # ops) d = run_ddl ops d'"
  by (simp_all add: run_ddl_def)

section \<open>Rows\<close>

datatype cell = CStr string | CInt int | CBool bool | CId uuid | CTime time | CJson json | CNull

type_synonym row = "(string \<times> cell) list"

fun cell_fits :: "sql_type \<Rightarrow> cell \<Rightarrow> bool" where
  "cell_fits (VarChar n) (CStr s) = at_most n s"
| "cell_fits Boolean (CBool _) = True"
| "cell_fits Integer (CInt i) = int32 i"
| "cell_fits Uuid (CId _) = True"
| "cell_fits Timestamp (CTime _) = True"
| "cell_fits TextType (CStr _) = True"
| "cell_fits Jsonb (CJson _) = True"
| "cell_fits (Enumeration _ labels) (CStr s) = (s \<in> set labels)"
| "cell_fits _ _ = False"

text \<open>A column that a row does not mention takes its default.\<close>

definition column_fits :: "row \<Rightarrow> column_decl \<Rightarrow> bool" where
  "column_fits r c =
     (case map_of r (cl_name c) of
        None \<Rightarrow> cl_default c \<noteq> None \<or> cl_nullable c
      | Some CNull \<Rightarrow> cl_nullable c
      | Some v \<Rightarrow> cell_fits (cl_type c) v)"

definition row_fits :: "table_decl \<Rightarrow> row \<Rightarrow> bool" where
  "row_fits t r \<longleftrightarrow> set (map fst r) \<subseteq> set (map cl_name (tb_columns t)) \<and> list_all (column_fits r) (tb_columns t)"

definition key_of :: "string list \<Rightarrow> row \<Rightarrow> cell option list" where
  "key_of cs r = map (map_of r) cs"

text \<open>Rows with a \<open>NULL\<close> among the columns of a key are left out of it.\<close>

definition keyed :: "string list \<Rightarrow> row list \<Rightarrow> row list" where
  "keyed cs rows = filter (\<lambda>r. list_all (\<lambda>k. k \<noteq> None \<and> k \<noteq> Some CNull) (key_of cs r)) rows"

fun rule_holds :: "(string \<Rightarrow> row list) \<Rightarrow> row list \<Rightarrow> rule \<Rightarrow> bool" where
  "rule_holds db rows (PrimaryKey cs) = unique_on (key_of cs) (keyed cs rows)"
| "rule_holds db rows (Unique cs) = unique_on (key_of cs) (keyed cs rows)"
| "rule_holds db rows (ForeignKey c t rc _) =
     list_all (\<lambda>r. key_of [c] r \<in> set (map (key_of [rc]) (db t))) (keyed [c] rows)"

definition table_holds :: "(string \<Rightarrow> row list) \<Rightarrow> table_decl \<Rightarrow> bool" where
  "table_holds db t \<longleftrightarrow> list_all (row_fits t) (db (tb_name t)) \<and>
     list_all (\<lambda>(_, r). rule_holds db (db (tb_name t)) r) (tb_constraints t)"

definition index_holds :: "(string \<Rightarrow> row list) \<Rightarrow> index_decl \<Rightarrow> bool" where
  "index_holds db i \<longleftrightarrow> (ix_unique i \<longrightarrow>
     (let rows = filter (\<lambda>r. case ix_where i of None \<Rightarrow> True | Some (c, v) \<Rightarrow> map_of r c = Some (CStr v)) (db (ix_table i))
      in unique_on (key_of (ix_columns i)) (keyed (ix_columns i) rows)))"

definition database_holds :: "database \<Rightarrow> (string \<Rightarrow> row list) \<Rightarrow> bool" where
  "database_holds d db \<longleftrightarrow> list_all (table_holds db) (db_tables d) \<and> list_all (index_holds db) (db_indexes d)"

end
