(* ===== verification/Migrations.thy ===== *)
theory Migrations
  imports DatabaseSchema
begin

text \<open>
  The migrations of \<open>alembic/versions/*.py\<close>, the schema that the classes of \<open>infrastructure/db/models/*.py\<close>
  declare with the mixins and the naming convention of \<open>infrastructure/db/base.py\<close>, and the three
  agreements: migrating gives the declared schema, downgrading undoes it, and the constraints of that schema
  are the ones the model of the tables checks.
\<close>

section \<open>Revision 0001\<close>

definition data_sources_0001 :: table_decl where
  "data_sources_0001 = table_decl ''data_sources''
     [column_decl ''key'' (VarChar 100) None False,
      column_decl ''display_name'' (VarChar 200) None False,
      column_decl ''connection_ref'' (VarChar 200) None False,
      column_decl ''enabled'' Boolean (Some (SqlText ''true'')) False,
      column_decl ''baseline_version'' Integer (Some (SqlLiteral ''1'')) False,
      column_decl ''id'' Uuid None False,
      column_decl ''created_at'' Timestamp (Some (SqlText ''now()'')) False]
     [(''pk_data_sources'', PrimaryKey [''id'']),
      (''uq_data_sources_key'', Unique [''key''])]"

definition pipelines_0001 :: table_decl where
  "pipelines_0001 = table_decl ''pipelines''
     [column_decl ''key'' (VarChar 100) None False,
      column_decl ''airflow_dag_id'' (VarChar 250) None False,
      column_decl ''owner'' (VarChar 200) None False,
      column_decl ''criticality'' (Enumeration ''pipeline_criticality'' [''LOW'', ''MEDIUM'', ''HIGH'', ''CRITICAL'']) None False,
      column_decl ''id'' Uuid None False]
     [(''pk_pipelines'', PrimaryKey [''id'']),
      (''uq_pipelines_airflow_dag_id'', Unique [''airflow_dag_id'']),
      (''uq_pipelines_key'', Unique [''key''])]"

definition datasets_0001 :: table_decl where
  "datasets_0001 = table_decl ''datasets''
     [column_decl ''source_id'' Uuid None False,
      column_decl ''schema_name'' (VarChar 63) None False,
      column_decl ''table_name'' (VarChar 63) None False,
      column_decl ''owner'' (VarChar 200) None True,
      column_decl ''description'' (VarChar 1000) None True,
      column_decl ''id'' Uuid None False]
     [(''fk_datasets_source_id_data_sources'', ForeignKey ''source_id'' ''data_sources'' ''id'' ''CASCADE''),
      (''pk_datasets'', PrimaryKey [''id'']),
      (''dataset_identity'', Unique [''source_id'', ''schema_name'', ''table_name''])]"

definition scan_runs_0001 :: table_decl where
  "scan_runs_0001 = table_decl ''scan_runs''
     [column_decl ''source_id'' Uuid None False,
      column_decl ''trigger'' (Enumeration ''scan_trigger'' [''MANUAL'', ''SCHEDULED'']) None False,
      column_decl ''status'' (Enumeration ''scan_status'' [''RUNNING'', ''COMPLETED'', ''FAILED'']) None False,
      column_decl ''started_at'' Timestamp None False,
      column_decl ''finished_at'' Timestamp None True,
      column_decl ''duration_ms'' Integer None True,
      column_decl ''error_code'' (VarChar 100) None True,
      column_decl ''error_message'' TextType None True,
      column_decl ''id'' Uuid None False]
     [(''fk_scan_runs_source_id_data_sources'', ForeignKey ''source_id'' ''data_sources'' ''id'' ''CASCADE''),
      (''pk_scan_runs'', PrimaryKey [''id''])]"

definition alert_deliveries_0001 :: table_decl where
  "alert_deliveries_0001 = table_decl ''alert_deliveries''
     [column_decl ''scan_id'' Uuid None False,
      column_decl ''channel'' (Enumeration ''alert_channel'' [''SLACK'', ''EMAIL'']) None False,
      column_decl ''status'' (Enumeration ''alert_status'' [''PENDING'', ''SENT'', ''FAILED'']) (Some (SqlLiteral ''PENDING'')) False,
      column_decl ''attempt_count'' Integer (Some (SqlLiteral ''0'')) False,
      column_decl ''provider_message_id'' (VarChar 250) None True,
      column_decl ''last_error'' TextType None True,
      column_decl ''next_retry_at'' Timestamp None True,
      column_decl ''sent_at'' Timestamp None True,
      column_decl ''id'' Uuid None False,
      column_decl ''created_at'' Timestamp (Some (SqlText ''now()'')) False]
     [(''fk_alert_deliveries_scan_id_scan_runs'', ForeignKey ''scan_id'' ''scan_runs'' ''id'' ''CASCADE''),
      (''pk_alert_deliveries'', PrimaryKey [''id''])]"

definition expected_columns_0001 :: table_decl where
  "expected_columns_0001 = table_decl ''expected_columns''
     [column_decl ''dataset_id'' Uuid None False,
      column_decl ''name'' (VarChar 63) None False,
      column_decl ''data_type_json'' Jsonb None False,
      column_decl ''nullable'' Boolean None False,
      column_decl ''default'' (VarChar 1000) None True,
      column_decl ''ordinal'' Integer None False,
      column_decl ''id'' Uuid None False]
     [(''fk_expected_columns_dataset_id_datasets'', ForeignKey ''dataset_id'' ''datasets'' ''id'' ''CASCADE''),
      (''pk_expected_columns'', PrimaryKey [''id'']),
      (''expected_column_identity'', Unique [''dataset_id'', ''name''])]"

definition lineage_edges_0001 :: table_decl where
  "lineage_edges_0001 = table_decl ''lineage_edges''
     [column_decl ''pipeline_id'' Uuid None False,
      column_decl ''upstream_dataset_id'' Uuid None False,
      column_decl ''upstream_column'' (VarChar 63) None False,
      column_decl ''downstream_dataset_id'' Uuid None False,
      column_decl ''downstream_column'' (VarChar 63) None False,
      column_decl ''id'' Uuid None False]
     [(''fk_lineage_edges_downstream_dataset_id_datasets'', ForeignKey ''downstream_dataset_id'' ''datasets'' ''id'' ''CASCADE''),
      (''fk_lineage_edges_pipeline_id_pipelines'', ForeignKey ''pipeline_id'' ''pipelines'' ''id'' ''CASCADE''),
      (''fk_lineage_edges_upstream_dataset_id_datasets'', ForeignKey ''upstream_dataset_id'' ''datasets'' ''id'' ''CASCADE''),
      (''pk_lineage_edges'', PrimaryKey [''id'']),
      (''lineage_edge_identity'', Unique [''pipeline_id'', ''upstream_dataset_id'', ''upstream_column'', ''downstream_dataset_id'', ''downstream_column''])]"

definition observed_columns_0001 :: table_decl where
  "observed_columns_0001 = table_decl ''observed_columns''
     [column_decl ''scan_id'' Uuid None False,
      column_decl ''schema_name'' (VarChar 63) None False,
      column_decl ''table_name'' (VarChar 63) None False,
      column_decl ''name'' (VarChar 63) None False,
      column_decl ''data_type_json'' Jsonb None False,
      column_decl ''nullable'' Boolean None False,
      column_decl ''default'' (VarChar 1000) None True,
      column_decl ''ordinal'' Integer None False,
      column_decl ''id'' Uuid None False]
     [(''fk_observed_columns_scan_id_scan_runs'', ForeignKey ''scan_id'' ''scan_runs'' ''id'' ''CASCADE''),
      (''pk_observed_columns'', PrimaryKey [''id''])]"

definition schema_changes_0001 :: table_decl where
  "schema_changes_0001 = table_decl ''schema_changes''
     [column_decl ''scan_id'' Uuid None False,
      column_decl ''source_id'' Uuid None False,
      column_decl ''dataset_id'' Uuid None False,
      column_decl ''column_name'' (VarChar 63) None False,
      column_decl ''change_type'' (Enumeration ''change_type'' [''ADD_COLUMN'', ''DROP_COLUMN'', ''TYPE_CHANGE'', ''NULLABILITY_CHANGE'']) None False,
      column_decl ''severity'' (Enumeration ''severity'' [''INFO'', ''WARNING'', ''BREAKING'']) None False,
      column_decl ''state'' (Enumeration ''change_state'' [''OPEN'', ''ACCEPTED'', ''RESOLVED'']) (Some (SqlLiteral ''OPEN'')) False,
      column_decl ''fingerprint'' (VarChar 64) None False,
      column_decl ''before_json'' Jsonb None True,
      column_decl ''after_json'' Jsonb None True,
      column_decl ''baseline_version'' Integer None False,
      column_decl ''accepted_at'' Timestamp None True,
      column_decl ''resolved_at'' Timestamp None True,
      column_decl ''id'' Uuid None False,
      column_decl ''created_at'' Timestamp (Some (SqlText ''now()'')) False]
     [(''fk_schema_changes_dataset_id_datasets'', ForeignKey ''dataset_id'' ''datasets'' ''id'' ''CASCADE''),
      (''fk_schema_changes_scan_id_scan_runs'', ForeignKey ''scan_id'' ''scan_runs'' ''id'' ''CASCADE''),
      (''fk_schema_changes_source_id_data_sources'', ForeignKey ''source_id'' ''data_sources'' ''id'' ''CASCADE''),
      (''pk_schema_changes'', PrimaryKey [''id''])]"

definition open_fingerprint_index_0001 :: index_decl where
  "open_fingerprint_index_0001 =
     \<lparr>ix_name = ''uq_schema_changes_open_fingerprint'', ix_table = ''schema_changes'',
      ix_columns = [''source_id'', ''fingerprint''], ix_unique = True, ix_where = Some (''state'', ''OPEN'')\<rparr>"

definition upgrade_0001 :: "ddl list" where
  "upgrade_0001 = map CreateTable
     [data_sources_0001, pipelines_0001, datasets_0001, scan_runs_0001, alert_deliveries_0001,
      expected_columns_0001, lineage_edges_0001, observed_columns_0001, schema_changes_0001] @
     [CreateIndex open_fingerprint_index_0001]"

definition downgrade_0001 :: "ddl list" where
  "downgrade_0001 = DropIndex ''uq_schema_changes_open_fingerprint'' ''schema_changes'' # map DropTable
     [''schema_changes'', ''observed_columns'', ''lineage_edges'', ''expected_columns'', ''alert_deliveries'',
      ''scan_runs'', ''datasets'', ''pipelines'', ''data_sources'']"

section \<open>Revision 0002\<close>

definition upgrade_0002 :: "ddl list" where
  "upgrade_0002 = [CreateUnique ''alert_delivery_identity'' ''alert_deliveries'' [''scan_id'', ''channel'']]"

definition downgrade_0002 :: "ddl list" where
  "downgrade_0002 = [DropConstraint ''alert_delivery_identity'' ''alert_deliveries'']"

section \<open>The chain of revisions\<close>

record revision =
  rev_id :: string
  rev_down :: "string option"
  rev_upgrade :: "ddl list"
  rev_downgrade :: "ddl list"

definition revision_0001 :: revision where
  "revision_0001 = \<lparr>rev_id = ''0001'', rev_down = None, rev_upgrade = upgrade_0001, rev_downgrade = downgrade_0001\<rparr>"

definition revision_0002 :: revision where
  "revision_0002 = \<lparr>rev_id = ''0002'', rev_down = Some ''0001'', rev_upgrade = upgrade_0002, rev_downgrade = downgrade_0002\<rparr>"

definition upgrade_head :: "database \<Rightarrow> py_error + database" where
  "upgrade_head d = bindR (run_ddl (rev_upgrade revision_0001) d) (run_ddl (rev_upgrade revision_0002))"

definition downgrade_base :: "database \<Rightarrow> py_error + database" where
  "downgrade_base d = bindR (run_ddl (rev_downgrade revision_0002) d) (run_ddl (rev_downgrade revision_0001))"

definition empty_database :: database where
  "empty_database = \<lparr>db_tables = [], db_indexes = []\<rparr>"

section \<open>The mapped classes\<close>

text \<open>\<open>NAMING_CONVENTION\<close>\<close>

definition pk_name :: "string \<Rightarrow> string" where
  "pk_name table_name = ''pk_'' @ table_name"

definition uq_name :: "string \<Rightarrow> string \<Rightarrow> string" where
  "uq_name table_name column_0_name = ''uq_'' @ table_name @ ''_'' @ column_0_name"

definition fk_name :: "string \<Rightarrow> string \<Rightarrow> string \<Rightarrow> string" where
  "fk_name table_name column_0_name referred_table_name = ''fk_'' @ table_name @ ''_'' @ column_0_name @ ''_'' @ referred_table_name"

text \<open>\<open>mapped_column\<close>: \<open>Mapped[X | None]\<close> is a column that may be \<open>NULL\<close>; \<open>foreign_id\<close> is
  \<open>ForeignKey("table.id", ondelete="CASCADE")\<close>.\<close>

record mapped_column =
  mc_decl :: column_decl
  mc_unique :: bool
  mc_refers :: "string option"

definition mapped :: "string \<Rightarrow> sql_type \<Rightarrow> mapped_column" where
  "mapped n ty = \<lparr>mc_decl = column_decl n ty None False, mc_unique = False, mc_refers = None\<rparr>"

definition mapped_null :: "string \<Rightarrow> sql_type \<Rightarrow> mapped_column" where
  "mapped_null n ty = \<lparr>mc_decl = column_decl n ty None True, mc_unique = False, mc_refers = None\<rparr>"

definition mapped_unique :: "string \<Rightarrow> sql_type \<Rightarrow> mapped_column" where
  "mapped_unique n ty = \<lparr>mc_decl = column_decl n ty None False, mc_unique = True, mc_refers = None\<rparr>"

definition mapped_default :: "string \<Rightarrow> sql_type \<Rightarrow> server_default \<Rightarrow> mapped_column" where
  "mapped_default n ty d = \<lparr>mc_decl = column_decl n ty (Some d) False, mc_unique = False, mc_refers = None\<rparr>"

definition foreign_id :: "string \<Rightarrow> string \<Rightarrow> mapped_column" where
  "foreign_id n t = \<lparr>mc_decl = column_decl n Uuid None False, mc_unique = False, mc_refers = Some t\<rparr>"

definition primary_key_mixin :: mapped_column where
  "primary_key_mixin = mapped ''id'' Uuid"

definition created_at_mixin :: mapped_column where
  "created_at_mixin = mapped_default ''created_at'' Timestamp (SqlText ''now()'')"

definition mapped_rules :: "string \<Rightarrow> mapped_column \<Rightarrow> (string \<times> rule) list" where
  "mapped_rules t m = (let n = cl_name (mc_decl m) in
     (if mc_unique m then [(uq_name t n, Unique [n])] else []) @
     (case mc_refers m of None \<Rightarrow> [] | Some u \<Rightarrow> [(fk_name t n u, ForeignKey n u ''id'' ''CASCADE'')]))"

text \<open>A class with \<open>UUIDPrimaryKeyMixin\<close> and its columns; \<open>args\<close> are the unique constraints of \<open>__table_args__\<close>.\<close>

definition mapped_class :: "string \<Rightarrow> mapped_column list \<Rightarrow> (string \<times> rule) list \<Rightarrow> table_decl" where
  "mapped_class t columns args = table_decl t (map mc_decl (columns @ [primary_key_mixin]))
     (concat (map (mapped_rules t) columns) @ (pk_name t, PrimaryKey [''id'']) # args)"

definition data_source_model :: table_decl where
  "data_source_model = mapped_class ''data_sources''
     [mapped_unique ''key'' (VarChar 100), mapped ''display_name'' (VarChar 200), mapped ''connection_ref'' (VarChar 200),
      mapped_default ''enabled'' Boolean (SqlText ''true''), mapped_default ''baseline_version'' Integer (SqlLiteral ''1''),
      created_at_mixin] []"

definition dataset_model :: table_decl where
  "dataset_model = mapped_class ''datasets''
     [foreign_id ''source_id'' ''data_sources'', mapped ''schema_name'' (VarChar 63), mapped ''table_name'' (VarChar 63),
      mapped_null ''owner'' (VarChar 200), mapped_null ''description'' (VarChar 1000)]
     [(''dataset_identity'', Unique [''source_id'', ''schema_name'', ''table_name''])]"

definition expected_column_model :: table_decl where
  "expected_column_model = mapped_class ''expected_columns''
     [foreign_id ''dataset_id'' ''datasets'', mapped ''name'' (VarChar 63), mapped ''data_type_json'' Jsonb,
      mapped ''nullable'' Boolean, mapped_null ''default'' (VarChar 1000), mapped ''ordinal'' Integer]
     [(''expected_column_identity'', Unique [''dataset_id'', ''name''])]"

definition scan_run_model :: table_decl where
  "scan_run_model = mapped_class ''scan_runs''
     [foreign_id ''source_id'' ''data_sources'', mapped ''trigger'' (Enumeration ''scan_trigger'' [''MANUAL'', ''SCHEDULED'']),
      mapped ''status'' (Enumeration ''scan_status'' [''RUNNING'', ''COMPLETED'', ''FAILED'']), mapped ''started_at'' Timestamp,
      mapped_null ''finished_at'' Timestamp, mapped_null ''duration_ms'' Integer, mapped_null ''error_code'' (VarChar 100),
      mapped_null ''error_message'' TextType] []"

definition observed_column_model :: table_decl where
  "observed_column_model = mapped_class ''observed_columns''
     [foreign_id ''scan_id'' ''scan_runs'', mapped ''schema_name'' (VarChar 63), mapped ''table_name'' (VarChar 63),
      mapped ''name'' (VarChar 63), mapped ''data_type_json'' Jsonb, mapped ''nullable'' Boolean,
      mapped_null ''default'' (VarChar 1000), mapped ''ordinal'' Integer] []"

definition schema_change_model :: table_decl where
  "schema_change_model = mapped_class ''schema_changes''
     [foreign_id ''scan_id'' ''scan_runs'', foreign_id ''source_id'' ''data_sources'', foreign_id ''dataset_id'' ''datasets'',
      mapped ''column_name'' (VarChar 63),
      mapped ''change_type'' (Enumeration ''change_type'' [''ADD_COLUMN'', ''DROP_COLUMN'', ''TYPE_CHANGE'', ''NULLABILITY_CHANGE'']),
      mapped ''severity'' (Enumeration ''severity'' [''INFO'', ''WARNING'', ''BREAKING'']),
      mapped_default ''state'' (Enumeration ''change_state'' [''OPEN'', ''ACCEPTED'', ''RESOLVED'']) (SqlLiteral ''OPEN''),
      mapped ''fingerprint'' (VarChar 64), mapped_null ''before_json'' Jsonb, mapped_null ''after_json'' Jsonb,
      mapped ''baseline_version'' Integer, mapped_null ''accepted_at'' Timestamp, mapped_null ''resolved_at'' Timestamp,
      created_at_mixin] []"

definition schema_change_index :: index_decl where
  "schema_change_index = \<lparr>ix_name = ''uq_schema_changes_open_fingerprint'', ix_table = ''schema_changes'',
     ix_columns = [''source_id'', ''fingerprint''], ix_unique = True, ix_where = Some (''state'', ''OPEN'')\<rparr>"

definition alert_delivery_model :: table_decl where
  "alert_delivery_model = mapped_class ''alert_deliveries''
     [foreign_id ''scan_id'' ''scan_runs'', mapped ''channel'' (Enumeration ''alert_channel'' [''SLACK'', ''EMAIL'']),
      mapped_default ''status'' (Enumeration ''alert_status'' [''PENDING'', ''SENT'', ''FAILED'']) (SqlLiteral ''PENDING''),
      mapped_default ''attempt_count'' Integer (SqlLiteral ''0''), mapped_null ''provider_message_id'' (VarChar 250),
      mapped_null ''last_error'' TextType, mapped_null ''next_retry_at'' Timestamp, mapped_null ''sent_at'' Timestamp,
      created_at_mixin]
     [(''alert_delivery_identity'', Unique [''scan_id'', ''channel''])]"

definition pipeline_model :: table_decl where
  "pipeline_model = mapped_class ''pipelines''
     [mapped_unique ''key'' (VarChar 100), mapped_unique ''airflow_dag_id'' (VarChar 250), mapped ''owner'' (VarChar 200),
      mapped ''criticality'' (Enumeration ''pipeline_criticality'' [''LOW'', ''MEDIUM'', ''HIGH'', ''CRITICAL''])] []"

definition lineage_edge_model :: table_decl where
  "lineage_edge_model = mapped_class ''lineage_edges''
     [foreign_id ''pipeline_id'' ''pipelines'', foreign_id ''upstream_dataset_id'' ''datasets'',
      mapped ''upstream_column'' (VarChar 63), foreign_id ''downstream_dataset_id'' ''datasets'',
      mapped ''downstream_column'' (VarChar 63)]
     [(''lineage_edge_identity'', Unique [''pipeline_id'', ''upstream_dataset_id'', ''upstream_column'',
        ''downstream_dataset_id'', ''downstream_column''])]"

definition model_metadata :: database where
  "model_metadata =
     \<lparr>db_tables = [data_source_model, dataset_model, expected_column_model, scan_run_model, observed_column_model,
        schema_change_model, alert_delivery_model, pipeline_model, lineage_edge_model],
      db_indexes = [schema_change_index]\<rparr>"

section \<open>Migrating gives what the classes declare\<close>

text \<open>The same tables up to the order of tables, columns and constraints.\<close>

definition same_table :: "table_decl \<Rightarrow> table_decl \<Rightarrow> bool" where
  "same_table t u \<longleftrightarrow> tb_name t = tb_name u \<and> set (tb_columns t) = set (tb_columns u) \<and>
     set (tb_constraints t) = set (tb_constraints u)"

definition same_database :: "database \<Rightarrow> database \<Rightarrow> bool" where
  "same_database d e \<longleftrightarrow>
     list_all (\<lambda>t. list_ex (same_table t) (db_tables e)) (db_tables d) \<and>
     list_all (\<lambda>u. list_ex (\<lambda>t. same_table t u) (db_tables d)) (db_tables e) \<and>
     set (db_indexes d) = set (db_indexes e)"

definition after_0001 :: database where
  "after_0001 = \<lparr>db_tables = [data_sources_0001, pipelines_0001, datasets_0001, scan_runs_0001, alert_deliveries_0001,
      expected_columns_0001, lineage_edges_0001, observed_columns_0001, schema_changes_0001],
    db_indexes = [open_fingerprint_index_0001]\<rparr>"

definition alert_deliveries_0002 :: table_decl where
  "alert_deliveries_0002 = table_decl (tb_name alert_deliveries_0001) (tb_columns alert_deliveries_0001)
     (tb_constraints alert_deliveries_0001 @ [(''alert_delivery_identity'', Unique [''scan_id'', ''channel''])])"

definition head_database :: database where
  "head_database = \<lparr>db_tables = [data_sources_0001, pipelines_0001, datasets_0001, scan_runs_0001, alert_deliveries_0002,
      expected_columns_0001, lineage_edges_0001, observed_columns_0001, schema_changes_0001],
    db_indexes = [open_fingerprint_index_0001]\<rparr>"

lemmas tables_0001 = data_sources_0001_def pipelines_0001_def datasets_0001_def scan_runs_0001_def alert_deliveries_0001_def
  expected_columns_0001_def lineage_edges_0001_def observed_columns_0001_def schema_changes_0001_def

lemmas ddl_defs = find_table_def refers_to_table_def alter_constraints_def

lemma names_0001:
  "map tb_name (db_tables after_0001) = [''data_sources'', ''pipelines'', ''datasets'', ''scan_runs'', ''alert_deliveries'',
     ''expected_columns'', ''lineage_edges'', ''observed_columns'', ''schema_changes'']"
  by (simp add: after_0001_def tables_0001)

lemma upgrade_0001_runs: "run_ddl upgrade_0001 empty_database = Inr after_0001"
  by (simp add: upgrade_0001_def empty_database_def after_0001_def tables_0001 ddl_defs open_fingerprint_index_0001_def)

lemma upgrade_0002_runs: "run_ddl upgrade_0002 after_0001 = Inr head_database"
  by (simp add: upgrade_0002_def after_0001_def head_database_def alert_deliveries_0002_def tables_0001 ddl_defs)

lemma downgrade_0002_runs: "run_ddl downgrade_0002 head_database = Inr after_0001"
  by (simp add: downgrade_0002_def after_0001_def head_database_def alert_deliveries_0002_def tables_0001 ddl_defs)

lemma downgrade_0001_runs: "run_ddl downgrade_0001 after_0001 = Inr empty_database"
  by (simp add: downgrade_0001_def empty_database_def after_0001_def tables_0001 ddl_defs open_fingerprint_index_0001_def)
lemmas mapped_defs = mapped_class_def mapped_rules_def mapped_def mapped_null_def mapped_unique_def mapped_default_def
  foreign_id_def primary_key_mixin_def created_at_mixin_def pk_name_def uq_name_def fk_name_def Let_def

lemma same_table_iff:
  "same_table t u \<longleftrightarrow> tb_name t = tb_name u \<and> list_all (\<lambda>c. c \<in> set (tb_columns u)) (tb_columns t) \<and>
     list_all (\<lambda>c. c \<in> set (tb_columns t)) (tb_columns u) \<and> list_all (\<lambda>c. c \<in> set (tb_constraints u)) (tb_constraints t) \<and>
     list_all (\<lambda>c. c \<in> set (tb_constraints t)) (tb_constraints u)"
  by (auto simp: same_table_def list_all_iff)

lemma same_tables:
  "same_table data_sources_0001 data_source_model" "same_table pipelines_0001 pipeline_model"
  "same_table datasets_0001 dataset_model" "same_table scan_runs_0001 scan_run_model"
  "same_table alert_deliveries_0002 alert_delivery_model" "same_table expected_columns_0001 expected_column_model"
  "same_table lineage_edges_0001 lineage_edge_model" "same_table observed_columns_0001 observed_column_model"
  "same_table schema_changes_0001 schema_change_model"
  by (simp_all add: same_table_iff mapped_defs tables_0001 alert_deliveries_0002_def
      data_source_model_def pipeline_model_def dataset_model_def scan_run_model_def alert_delivery_model_def
      expected_column_model_def lineage_edge_model_def observed_column_model_def schema_change_model_def)

lemma head_is_metadata: "same_database head_database model_metadata"
  by (simp add: same_database_def head_database_def model_metadata_def same_tables schema_change_index_def
      open_fingerprint_index_0001_def)
text \<open>C19. The migrations and the mapped classes agree: upgrading an empty database to the head succeeds, and
  gives, up to the order of declarations, the tables, columns, types, defaults, constraints with their names and
  indexes that the classes declare; downgrading both revisions succeeds and leaves nothing behind, and one
  downgrade leaves what the first revision made.\<close>

theorem migrations_match_models:
  "\<exists>first head. run_ddl (rev_upgrade revision_0001) empty_database = Inr first \<and>
     upgrade_head empty_database = Inr head \<and> same_database head model_metadata \<and>
     run_ddl (rev_downgrade revision_0002) head = Inr first \<and> downgrade_base head = Inr empty_database"
  using upgrade_0001_runs upgrade_0002_runs downgrade_0002_runs downgrade_0001_runs head_is_metadata
  by (auto simp: upgrade_head_def downgrade_base_def revision_0001_def revision_0002_def)

section \<open>The rows of the tables\<close>

fun trigger_value :: "scan_trigger \<Rightarrow> string" where
  "trigger_value MANUAL = ''MANUAL''"
| "trigger_value SCHEDULED = ''SCHEDULED''"

fun scan_status_value :: "scan_status \<Rightarrow> string" where
  "scan_status_value RUNNING = ''RUNNING''"
| "scan_status_value COMPLETED = ''COMPLETED''"
| "scan_status_value scan_status.FAILED = ''FAILED''"

fun change_state_value :: "change_state \<Rightarrow> string" where
  "change_state_value OPEN = ''OPEN''"
| "change_state_value ACCEPTED = ''ACCEPTED''"
| "change_state_value RESOLVED = ''RESOLVED''"

fun alert_status_value :: "alert_status \<Rightarrow> string" where
  "alert_status_value PENDING = ''PENDING''"
| "alert_status_value SENT = ''SENT''"
| "alert_status_value alert_status.FAILED = ''FAILED''"

definition nullable_cell :: "('a \<Rightarrow> cell) \<Rightarrow> 'a option \<Rightarrow> cell" where
  "nullable_cell f x = (case x of None \<Rightarrow> CNull | Some v \<Rightarrow> f v)"

definition source_cells :: "source_row \<Rightarrow> row" where
  "source_cells r = [(''key'', CStr (src_key r)), (''display_name'', CStr (src_display_name r)),
     (''connection_ref'', CStr (src_connection_ref r)), (''enabled'', CBool (src_enabled r)),
     (''baseline_version'', CInt (src_version r)), (''id'', CId (src_id r))]"

definition pipeline_cells :: "pipeline_row \<Rightarrow> row" where
  "pipeline_cells r = [(''key'', CStr (pl_key r)), (''airflow_dag_id'', CStr (pl_dag r)), (''owner'', CStr (pl_owner r)),
     (''criticality'', CStr (criticality_value (pl_criticality r))), (''id'', CId (pl_id r))]"

definition dataset_cells :: "dataset_row \<Rightarrow> row" where
  "dataset_cells r = [(''source_id'', CId (ds_source r)), (''schema_name'', CStr (ds_schema r)), (''table_name'', CStr (ds_table r)),
     (''owner'', nullable_cell CStr (ds_owner r)), (''description'', nullable_cell CStr (ds_description r)), (''id'', CId (ds_id r))]"

definition scan_cells :: "scan_row \<Rightarrow> row" where
  "scan_cells r = [(''source_id'', CId (sc_source r)), (''trigger'', CStr (trigger_value (sc_trigger r))),
     (''status'', CStr (scan_status_value (sc_status r))), (''started_at'', CTime (sc_started r)),
     (''finished_at'', nullable_cell CTime (sc_finished r)), (''duration_ms'', nullable_cell CInt (sc_duration r)),
     (''error_code'', nullable_cell CStr (sc_error_code r)), (''error_message'', nullable_cell CStr (sc_error_message r)),
     (''id'', CId (sc_id r))]"

definition delivery_cells :: "delivery_row \<Rightarrow> row" where
  "delivery_cells r = [(''scan_id'', CId (dl_scan r)), (''channel'', CStr (channel_value (dl_channel r))),
     (''status'', CStr (alert_status_value (dl_status r))), (''attempt_count'', CInt (dl_attempts r)),
     (''provider_message_id'', nullable_cell CStr (dl_provider_id r)), (''last_error'', nullable_cell CStr (dl_error r)),
     (''next_retry_at'', nullable_cell CTime (dl_retry r)), (''sent_at'', nullable_cell CTime (dl_sent r)),
     (''id'', CId (dl_id r)), (''created_at'', CTime (dl_created r))]"

definition expected_cells :: "expected_row \<Rightarrow> row" where
  "expected_cells r = [(''dataset_id'', CId (ex_dataset r)), (''name'', CStr (ex_name r)), (''data_type_json'', CJson (ex_type r)),
     (''nullable'', CBool (ex_nullable r)), (''default'', nullable_cell CStr (ex_default r)), (''ordinal'', CInt (ex_ordinal r)),
     (''id'', CId (ex_id r))]"

definition edge_cells :: "edge_row \<Rightarrow> row" where
  "edge_cells r = [(''pipeline_id'', CId (le_pipeline r)), (''upstream_dataset_id'', CId (le_up_dataset r)),
     (''upstream_column'', CStr (le_up_column r)), (''downstream_dataset_id'', CId (le_down_dataset r)),
     (''downstream_column'', CStr (le_down_column r)), (''id'', CId (le_id r))]"

definition observed_cells :: "observed_row \<Rightarrow> row" where
  "observed_cells r = [(''scan_id'', CId (ob_scan r)), (''schema_name'', CStr (ob_schema r)), (''table_name'', CStr (ob_table r)),
     (''name'', CStr (ob_name r)), (''data_type_json'', CJson (ob_type r)), (''nullable'', CBool (ob_nullable r)),
     (''default'', nullable_cell CStr (ob_default r)), (''ordinal'', CInt (ob_ordinal r)), (''id'', CId (ob_id r))]"

definition change_cells :: "change_row \<Rightarrow> row" where
  "change_cells r = [(''scan_id'', CId (ch_scan r)), (''source_id'', CId (ch_source r)), (''dataset_id'', CId (ch_dataset r)),
     (''column_name'', CStr (ch_column r)), (''change_type'', CStr (change_type_value (ch_kind r))),
     (''severity'', CStr (severity_value (ch_severity r))), (''state'', CStr (change_state_value (ch_state r))),
     (''fingerprint'', CStr (ch_fingerprint r)), (''before_json'', nullable_cell CJson (ch_before r)),
     (''after_json'', nullable_cell CJson (ch_after r)), (''baseline_version'', CInt (ch_version r)),
     (''accepted_at'', nullable_cell CTime (ch_accepted r)), (''resolved_at'', nullable_cell CTime (ch_resolved r)),
     (''id'', CId (ch_id r)), (''created_at'', CTime (ch_created r))]"

definition rows_of :: "tables \<Rightarrow> string \<Rightarrow> row list" where
  "rows_of t n =
     (case map_of [(''data_sources'', map source_cells (t_sources t)), (''pipelines'', map pipeline_cells (t_pipelines t)),
        (''datasets'', map dataset_cells (t_datasets t)), (''scan_runs'', map scan_cells (t_scans t)),
        (''alert_deliveries'', map delivery_cells (t_deliveries t)), (''expected_columns'', map expected_cells (t_expected t)),
        (''lineage_edges'', map edge_cells (t_edges t)), (''observed_columns'', map observed_cells (t_observed t)),
        (''schema_changes'', map change_cells (t_changes t))] n of None \<Rightarrow> [] | Some rows \<Rightarrow> rows)"
section \<open>The constraints of the schema\<close>

lemma unique_on_map:
  assumes "\<And>x y. h (g x) = h (g y) \<longleftrightarrow> f x = f y"
  shows "unique_on h (map g rows) = unique_on f rows"
proof -
  have "distinct (map (h \<circ> g) rows) = distinct (map f rows)"
    using assms by (induction rows) (auto simp: image_iff)
  then show ?thesis by (simp add: unique_on_def)
qed

lemma keyed_all: "(\<And>r. list_all (\<lambda>k. k \<noteq> None \<and> k \<noteq> Some CNull) (key_of cs (cells r))) \<Longrightarrow> keyed cs (map cells rows) = map cells rows"
  by (induction rows) (simp_all add: keyed_def)

lemma unique_cells:
  assumes "\<And>r. list_all (\<lambda>k. k \<noteq> None \<and> k \<noteq> Some CNull) (key_of cs (cells r))"
    and "\<And>x y. key_of cs (cells x) = key_of cs (cells y) \<longleftrightarrow> f x = f y"
  shows "unique_on (key_of cs) (keyed cs (map cells rows)) = unique_on f rows"
  unfolding keyed_all [OF assms(1)] by (rule unique_on_map) (rule assms(2))

lemma foreign_cells:
  assumes "\<And>r. map_of (cells r) c = Some (CId (f r))" and "\<And>r. map_of (cells' r) rc = Some (CId (g r))"
    and "db t = map cells' rows'"
  shows "rule_holds db (map cells rows) (ForeignKey c t rc x) = refer_to f rows (map g rows')"
proof -
  have "keyed [c] (map cells rows) = map cells rows"
    by (rule keyed_all) (simp add: key_of_def assms(1))
  then show ?thesis
    by (simp add: assms key_of_def refer_to_def list_all_iff image_iff)
qed

lemma column_fits_nullable:
  "map_of r n = Some (nullable_cell f x) \<Longrightarrow> (\<And>v. f v \<noteq> CNull) \<Longrightarrow>
     column_fits r (column_decl n ty d True) \<longleftrightarrow> pred_option (\<lambda>v. cell_fits ty (f v)) x"
  by (cases x) (simp_all add: column_fits_def nullable_cell_def split: cell.split)

lemma pred_option_True [simp]: "pred_option (\<lambda>v. True) x"
  by (cases x) simp_all

lemma value_labels [simp]:
  "trigger_value x = ''MANUAL'' \<or> trigger_value x = ''SCHEDULED''"
  "scan_status_value s = ''RUNNING'' \<or> scan_status_value s = ''COMPLETED'' \<or> scan_status_value s = ''FAILED''"
  "change_state_value c = ''OPEN'' \<or> change_state_value c = ''ACCEPTED'' \<or> change_state_value c = ''RESOLVED''"
  "alert_status_value a = ''PENDING'' \<or> alert_status_value a = ''SENT'' \<or> alert_status_value a = ''FAILED''"
  "channel_value h = ''SLACK'' \<or> channel_value h = ''EMAIL''"
  "severity_value v = ''INFO'' \<or> severity_value v = ''WARNING'' \<or> severity_value v = ''BREAKING''"
  "change_type_value k = ''ADD_COLUMN'' \<or> change_type_value k = ''DROP_COLUMN'' \<or> change_type_value k = ''TYPE_CHANGE'' \<or>
     change_type_value k = ''NULLABILITY_CHANGE''"
  "criticality_value p = ''LOW'' \<or> criticality_value p = ''MEDIUM'' \<or> criticality_value p = ''HIGH'' \<or> criticality_value p = ''CRITICAL''"
  by ((cases x; simp), (cases s; simp), (cases c; simp), (cases a; simp), (cases h; simp), (cases v; simp), (cases k; simp),
      (cases p; simp))

lemmas fits_simps = row_fits_def column_fits_nullable tables_0001 alert_deliveries_0002_def

lemma source_fits:
  "row_fits data_sources_0001 (source_cells r) \<longleftrightarrow>
     at_most 100 (src_key r) \<and> at_most 200 (src_display_name r) \<and> at_most 200 (src_connection_ref r) \<and> int32 (src_version r)"
  by (simp add: row_fits_def tables_0001 column_fits_def source_cells_def)

lemma dataset_fits:
  "row_fits datasets_0001 (dataset_cells r) \<longleftrightarrow>
     at_most 63 (ds_schema r) \<and> at_most 63 (ds_table r) \<and> pred_option (at_most 200) (ds_owner r) \<and>
     pred_option (at_most 1000) (ds_description r)"
  by (simp add: fits_simps dataset_cells_def) (simp add: column_fits_def)

lemma scan_fits:
  "row_fits scan_runs_0001 (scan_cells r) \<longleftrightarrow> pred_option int32 (sc_duration r) \<and> pred_option (at_most 100) (sc_error_code r)"
  by (simp add: fits_simps scan_cells_def) (simp add: column_fits_def)

lemma expected_fits:
  "row_fits expected_columns_0001 (expected_cells r) \<longleftrightarrow>
     at_most 63 (ex_name r) \<and> pred_option (at_most 1000) (ex_default r) \<and> int32 (ex_ordinal r)"
  by (simp add: fits_simps expected_cells_def) (simp add: column_fits_def)

lemma observed_fits:
  "row_fits observed_columns_0001 (observed_cells r) \<longleftrightarrow>
     at_most 63 (ob_schema r) \<and> at_most 63 (ob_table r) \<and> at_most 63 (ob_name r) \<and>
     pred_option (at_most 1000) (ob_default r) \<and> int32 (ob_ordinal r)"
  by (simp add: fits_simps observed_cells_def) (simp add: column_fits_def)

lemma change_fits:
  "row_fits schema_changes_0001 (change_cells r) \<longleftrightarrow> at_most 63 (ch_column r) \<and> at_most 64 (ch_fingerprint r) \<and> int32 (ch_version r)"
  by (simp add: fits_simps change_cells_def) (simp add: column_fits_def)

lemma delivery_fits:
  "row_fits alert_deliveries_0002 (delivery_cells r) \<longleftrightarrow> int32 (dl_attempts r) \<and> pred_option (at_most 250) (dl_provider_id r)"
  by (simp add: fits_simps delivery_cells_def) (simp add: column_fits_def)

lemma pipeline_fits:
  "row_fits pipelines_0001 (pipeline_cells r) \<longleftrightarrow> at_most 100 (pl_key r) \<and> at_most 250 (pl_dag r) \<and> at_most 200 (pl_owner r)"
  by (simp add: row_fits_def tables_0001 column_fits_def pipeline_cells_def)

lemma edge_fits:
  "row_fits lineage_edges_0001 (edge_cells r) \<longleftrightarrow> at_most 63 (le_up_column r) \<and> at_most 63 (le_down_column r)"
  by (simp add: row_fits_def tables_0001 column_fits_def edge_cells_def)
lemma rows_of_simps [simp]:
  "rows_of t ''data_sources'' = map source_cells (t_sources t)" "rows_of t ''pipelines'' = map pipeline_cells (t_pipelines t)"
  "rows_of t ''datasets'' = map dataset_cells (t_datasets t)" "rows_of t ''scan_runs'' = map scan_cells (t_scans t)"
  "rows_of t ''alert_deliveries'' = map delivery_cells (t_deliveries t)"
  "rows_of t ''expected_columns'' = map expected_cells (t_expected t)" "rows_of t ''lineage_edges'' = map edge_cells (t_edges t)"
  "rows_of t ''observed_columns'' = map observed_cells (t_observed t)" "rows_of t ''schema_changes'' = map change_cells (t_changes t)"
  by (simp_all add: rows_of_def)

lemmas cells_defs = source_cells_def pipeline_cells_def dataset_cells_def scan_cells_def delivery_cells_def expected_cells_def
  edge_cells_def observed_cells_def change_cells_def

lemma value_inj [simp]: "channel_value a = channel_value b \<longleftrightarrow> a = b"
  by (cases a; cases b) simp_all

lemma primary_keys:
  "unique_on (key_of [''id'']) (keyed [''id''] (map source_cells a)) = unique_on src_id a"
  "unique_on (key_of [''id'']) (keyed [''id''] (map pipeline_cells b)) = unique_on pl_id b"
  "unique_on (key_of [''id'']) (keyed [''id''] (map dataset_cells c)) = unique_on ds_id c"
  "unique_on (key_of [''id'']) (keyed [''id''] (map scan_cells d)) = unique_on sc_id d"
  "unique_on (key_of [''id'']) (keyed [''id''] (map delivery_cells e)) = unique_on dl_id e"
  "unique_on (key_of [''id'']) (keyed [''id''] (map expected_cells f)) = unique_on ex_id f"
  "unique_on (key_of [''id'']) (keyed [''id''] (map edge_cells g)) = unique_on le_id g"
  "unique_on (key_of [''id'']) (keyed [''id''] (map observed_cells h)) = unique_on ob_id h"
  "unique_on (key_of [''id'']) (keyed [''id''] (map change_cells i)) = unique_on ch_id i"
  by (rule unique_cells; simp add: key_of_def cells_defs)+

lemma unique_keys:
  "unique_on (key_of [''key'']) (keyed [''key''] (map source_cells a)) = unique_on src_key a"
  "unique_on (key_of [''key'']) (keyed [''key''] (map pipeline_cells b)) = unique_on pl_key b"
  "unique_on (key_of [''airflow_dag_id'']) (keyed [''airflow_dag_id''] (map pipeline_cells b)) = unique_on pl_dag b"
  "unique_on (key_of [''source_id'', ''schema_name'', ''table_name'']) (keyed [''source_id'', ''schema_name'', ''table_name'']
     (map dataset_cells c)) = unique_on (\<lambda>d. (ds_source d, ds_schema d, ds_table d)) c"
  "unique_on (key_of [''dataset_id'', ''name'']) (keyed [''dataset_id'', ''name''] (map expected_cells d)) =
     unique_on (\<lambda>e. (ex_dataset e, ex_name e)) d"
  "unique_on (key_of [''scan_id'', ''channel'']) (keyed [''scan_id'', ''channel''] (map delivery_cells e)) =
     unique_on (\<lambda>d. (dl_scan d, dl_channel d)) e"
  "unique_on (key_of [''pipeline_id'', ''upstream_dataset_id'', ''upstream_column'', ''downstream_dataset_id'', ''downstream_column''])
     (keyed [''pipeline_id'', ''upstream_dataset_id'', ''upstream_column'', ''downstream_dataset_id'', ''downstream_column'']
        (map edge_cells f)) =
     unique_on (\<lambda>e. (le_pipeline e, le_up_dataset e, le_up_column e, le_down_dataset e, le_down_column e)) f"
  "unique_on (key_of [''source_id'', ''fingerprint'']) (keyed [''source_id'', ''fingerprint''] (map change_cells g)) =
     unique_on (\<lambda>c. (ch_source c, ch_fingerprint c)) g"
  by (rule unique_cells; simp add: key_of_def cells_defs)+

lemma foreign_to:
  assumes "\<And>r. map_of (cells r) c = Some (CId (f r))"
  shows "rule_holds (rows_of t) (map cells rows) (ForeignKey c ''data_sources'' ''id'' x) = refer_to f rows (map src_id (t_sources t))"
    "rule_holds (rows_of t) (map cells rows) (ForeignKey c ''scan_runs'' ''id'' x) = refer_to f rows (map sc_id (t_scans t))"
    "rule_holds (rows_of t) (map cells rows) (ForeignKey c ''datasets'' ''id'' x) = refer_to f rows (map ds_id (t_datasets t))"
    "rule_holds (rows_of t) (map cells rows) (ForeignKey c ''pipelines'' ''id'' x) = refer_to f rows (map pl_id (t_pipelines t))"
proof -
  show "rule_holds (rows_of t) (map cells rows) (ForeignKey c ''data_sources'' ''id'' x) = refer_to f rows (map src_id (t_sources t))"
    by (rule foreign_cells [where cells' = source_cells]) (simp_all add: assms source_cells_def)
  show "rule_holds (rows_of t) (map cells rows) (ForeignKey c ''scan_runs'' ''id'' x) = refer_to f rows (map sc_id (t_scans t))"
    by (rule foreign_cells [where cells' = scan_cells]) (simp_all add: assms scan_cells_def)
  show "rule_holds (rows_of t) (map cells rows) (ForeignKey c ''datasets'' ''id'' x) = refer_to f rows (map ds_id (t_datasets t))"
    by (rule foreign_cells [where cells' = dataset_cells]) (simp_all add: assms dataset_cells_def)
  show "rule_holds (rows_of t) (map cells rows) (ForeignKey c ''pipelines'' ''id'' x) = refer_to f rows (map pl_id (t_pipelines t))"
    by (rule foreign_cells [where cells' = pipeline_cells]) (simp_all add: assms pipeline_cells_def)
qed

lemma foreign_keys:
  "rule_holds (rows_of t) (map dataset_cells a) (ForeignKey ''source_id'' ''data_sources'' ''id'' x) =
     refer_to ds_source a (map src_id (t_sources t))"
  "rule_holds (rows_of t) (map scan_cells b) (ForeignKey ''source_id'' ''data_sources'' ''id'' x) =
     refer_to sc_source b (map src_id (t_sources t))"
  "rule_holds (rows_of t) (map change_cells c) (ForeignKey ''source_id'' ''data_sources'' ''id'' x) =
     refer_to ch_source c (map src_id (t_sources t))"
  "rule_holds (rows_of t) (map change_cells c) (ForeignKey ''scan_id'' ''scan_runs'' ''id'' x) =
     refer_to ch_scan c (map sc_id (t_scans t))"
  "rule_holds (rows_of t) (map change_cells c) (ForeignKey ''dataset_id'' ''datasets'' ''id'' x) =
     refer_to ch_dataset c (map ds_id (t_datasets t))"
  "rule_holds (rows_of t) (map delivery_cells d) (ForeignKey ''scan_id'' ''scan_runs'' ''id'' x) =
     refer_to dl_scan d (map sc_id (t_scans t))"
  "rule_holds (rows_of t) (map observed_cells e) (ForeignKey ''scan_id'' ''scan_runs'' ''id'' x) =
     refer_to ob_scan e (map sc_id (t_scans t))"
  "rule_holds (rows_of t) (map expected_cells f) (ForeignKey ''dataset_id'' ''datasets'' ''id'' x) =
     refer_to ex_dataset f (map ds_id (t_datasets t))"
  "rule_holds (rows_of t) (map edge_cells g) (ForeignKey ''pipeline_id'' ''pipelines'' ''id'' x) =
     refer_to le_pipeline g (map pl_id (t_pipelines t))"
  "rule_holds (rows_of t) (map edge_cells g) (ForeignKey ''upstream_dataset_id'' ''datasets'' ''id'' x) =
     refer_to le_up_dataset g (map ds_id (t_datasets t))"
  "rule_holds (rows_of t) (map edge_cells g) (ForeignKey ''downstream_dataset_id'' ''datasets'' ''id'' x) =
     refer_to le_down_dataset g (map ds_id (t_datasets t))"
  by (rule foreign_to; simp add: cells_defs)+
lemma open_index:
  "index_holds (rows_of t) open_fingerprint_index_0001 \<longleftrightarrow>
     unique_on (\<lambda>c. (ch_source c, ch_fingerprint c)) (filter (\<lambda>c. ch_state c = OPEN) (t_changes t))"
proof -
  have "change_state_value s = ''OPEN'' \<longleftrightarrow> s = OPEN" for s by (cases s) simp_all
  then have "filter (\<lambda>r. map_of r ''state'' = Some (CStr ''OPEN'')) (map change_cells rows) =
      map change_cells (filter (\<lambda>c. ch_state c = OPEN) rows)" for rows
    by (simp add: filter_map comp_def change_cells_def)
  then show ?thesis by (simp add: index_holds_def open_fingerprint_index_0001_def unique_keys)
qed

lemma table_holds_map:
  "rows_of t (tb_name d) = map cells rows \<Longrightarrow> table_holds (rows_of t) d \<longleftrightarrow>
     list_all (\<lambda>r. row_fits d (cells r)) rows \<and> list_all (\<lambda>(_, r). rule_holds (rows_of t) (map cells rows) r) (tb_constraints d)"
  by (simp add: table_holds_def list_all_iff)

lemma tb_name_0001:
  "tb_name data_sources_0001 = ''data_sources''" "tb_name datasets_0001 = ''datasets''"
  "tb_name expected_columns_0001 = ''expected_columns''" "tb_name scan_runs_0001 = ''scan_runs''"
  "tb_name observed_columns_0001 = ''observed_columns''" "tb_name schema_changes_0001 = ''schema_changes''"
  "tb_name alert_deliveries_0002 = ''alert_deliveries''" "tb_name pipelines_0001 = ''pipelines''"
  "tb_name lineage_edges_0001 = ''lineage_edges''"
  by (simp_all add: tables_0001 alert_deliveries_0002_def)

lemmas keys_hold = primary_keys unique_keys foreign_keys

lemma source_table_holds:
  "table_holds (rows_of t) data_sources_0001 \<longleftrightarrow> list_all (\<lambda>r. at_most 100 (src_key r) \<and> at_most 200 (src_display_name r) \<and>
       at_most 200 (src_connection_ref r) \<and> int32 (src_version r)) (t_sources t) \<and>
     unique_on src_id (t_sources t) \<and> unique_on src_key (t_sources t)"
  by (subst table_holds_map [where cells = source_cells and rows = "t_sources t"], simp add: tb_name_0001, unfold source_fits,
      simp add: tables_0001 alert_deliveries_0002_def keys_hold del: rule_holds.simps(3))

lemma dataset_table_holds:
  "table_holds (rows_of t) datasets_0001 \<longleftrightarrow> list_all (\<lambda>r. at_most 63 (ds_schema r) \<and> at_most 63 (ds_table r) \<and>
       pred_option (at_most 200) (ds_owner r) \<and> pred_option (at_most 1000) (ds_description r)) (t_datasets t) \<and>
     refer_to ds_source (t_datasets t) (map src_id (t_sources t)) \<and> unique_on ds_id (t_datasets t) \<and>
     unique_on (\<lambda>d. (ds_source d, ds_schema d, ds_table d)) (t_datasets t)"
  by (subst table_holds_map [where cells = dataset_cells and rows = "t_datasets t"], simp add: tb_name_0001, unfold dataset_fits,
      simp add: tables_0001 alert_deliveries_0002_def keys_hold del: rule_holds.simps(3))

lemma expected_table_holds:
  "table_holds (rows_of t) expected_columns_0001 \<longleftrightarrow> list_all (\<lambda>r. at_most 63 (ex_name r) \<and>
       pred_option (at_most 1000) (ex_default r) \<and> int32 (ex_ordinal r)) (t_expected t) \<and>
     refer_to ex_dataset (t_expected t) (map ds_id (t_datasets t)) \<and> unique_on ex_id (t_expected t) \<and>
     unique_on (\<lambda>e. (ex_dataset e, ex_name e)) (t_expected t)"
  by (subst table_holds_map [where cells = expected_cells and rows = "t_expected t"], simp add: tb_name_0001, unfold expected_fits,
      simp add: tables_0001 alert_deliveries_0002_def keys_hold del: rule_holds.simps(3))

lemma scan_table_holds:
  "table_holds (rows_of t) scan_runs_0001 \<longleftrightarrow>
     list_all (\<lambda>r. pred_option int32 (sc_duration r) \<and> pred_option (at_most 100) (sc_error_code r)) (t_scans t) \<and>
     refer_to sc_source (t_scans t) (map src_id (t_sources t)) \<and> unique_on sc_id (t_scans t)"
  by (subst table_holds_map [where cells = scan_cells and rows = "t_scans t"], simp add: tb_name_0001, unfold scan_fits,
      simp add: tables_0001 alert_deliveries_0002_def keys_hold del: rule_holds.simps(3))

lemma observed_table_holds:
  "table_holds (rows_of t) observed_columns_0001 \<longleftrightarrow> list_all (\<lambda>r. at_most 63 (ob_schema r) \<and> at_most 63 (ob_table r) \<and>
       at_most 63 (ob_name r) \<and> pred_option (at_most 1000) (ob_default r) \<and> int32 (ob_ordinal r)) (t_observed t) \<and>
     refer_to ob_scan (t_observed t) (map sc_id (t_scans t)) \<and> unique_on ob_id (t_observed t)"
  by (subst table_holds_map [where cells = observed_cells and rows = "t_observed t"], simp add: tb_name_0001, unfold observed_fits,
      simp add: tables_0001 alert_deliveries_0002_def keys_hold del: rule_holds.simps(3))

lemma change_table_holds:
  "table_holds (rows_of t) schema_changes_0001 \<longleftrightarrow>
     list_all (\<lambda>r. at_most 63 (ch_column r) \<and> at_most 64 (ch_fingerprint r) \<and> int32 (ch_version r)) (t_changes t) \<and>
     refer_to ch_dataset (t_changes t) (map ds_id (t_datasets t)) \<and> refer_to ch_scan (t_changes t) (map sc_id (t_scans t)) \<and>
     refer_to ch_source (t_changes t) (map src_id (t_sources t)) \<and> unique_on ch_id (t_changes t)"
  by (subst table_holds_map [where cells = change_cells and rows = "t_changes t"], simp add: tb_name_0001, unfold change_fits,
      simp add: tables_0001 alert_deliveries_0002_def keys_hold del: rule_holds.simps(3))

lemma delivery_table_holds:
  "table_holds (rows_of t) alert_deliveries_0002 \<longleftrightarrow>
     list_all (\<lambda>r. int32 (dl_attempts r) \<and> pred_option (at_most 250) (dl_provider_id r)) (t_deliveries t) \<and>
     refer_to dl_scan (t_deliveries t) (map sc_id (t_scans t)) \<and> unique_on dl_id (t_deliveries t) \<and>
     unique_on (\<lambda>d. (dl_scan d, dl_channel d)) (t_deliveries t)"
  by (subst table_holds_map [where cells = delivery_cells and rows = "t_deliveries t"], simp add: tb_name_0001, unfold delivery_fits,
      simp add: tables_0001 alert_deliveries_0002_def keys_hold del: rule_holds.simps(3))

lemma pipeline_table_holds:
  "table_holds (rows_of t) pipelines_0001 \<longleftrightarrow>
     list_all (\<lambda>r. at_most 100 (pl_key r) \<and> at_most 250 (pl_dag r) \<and> at_most 200 (pl_owner r)) (t_pipelines t) \<and>
     unique_on pl_id (t_pipelines t) \<and> unique_on pl_dag (t_pipelines t) \<and> unique_on pl_key (t_pipelines t)"
  by (subst table_holds_map [where cells = pipeline_cells and rows = "t_pipelines t"], simp add: tb_name_0001, unfold pipeline_fits,
      simp add: tables_0001 alert_deliveries_0002_def keys_hold del: rule_holds.simps(3))

lemma edge_table_holds:
  "table_holds (rows_of t) lineage_edges_0001 \<longleftrightarrow>
     list_all (\<lambda>r. at_most 63 (le_up_column r) \<and> at_most 63 (le_down_column r)) (t_edges t) \<and>
     refer_to le_down_dataset (t_edges t) (map ds_id (t_datasets t)) \<and> refer_to le_pipeline (t_edges t) (map pl_id (t_pipelines t)) \<and>
     refer_to le_up_dataset (t_edges t) (map ds_id (t_datasets t)) \<and> unique_on le_id (t_edges t) \<and>
     unique_on (\<lambda>e. (le_pipeline e, le_up_dataset e, le_up_column e, le_down_dataset e, le_down_column e)) (t_edges t)"
  by (subst table_holds_map [where cells = edge_cells and rows = "t_edges t"], simp add: tb_name_0001, unfold edge_fits,
      simp add: tables_0001 alert_deliveries_0002_def keys_hold del: rule_holds.simps(3))
lemmas tables_hold = source_table_holds dataset_table_holds expected_table_holds scan_table_holds observed_table_holds
  change_table_holds delivery_table_holds pipeline_table_holds edge_table_holds

text \<open>C18. The tables of the model are typed by the migrated schema: the rows of the tables, read as cells by
  column name, satisfy every type, length, range, enumeration, \<open>NOT NULL\<close>, primary key, unique constraint,
  foreign key and the partial unique index of the schema at the head of the migrations exactly if they
  satisfy the declared constraints of the model, on which the session's flush relies.\<close>

theorem constraints_are_migrated:
  "\<exists>head. upgrade_head empty_database = Inr head \<and>
     (\<forall>t. database_holds head (rows_of t) \<longleftrightarrow> data_ok t \<and> integrity_ok t)"
proof (intro exI conjI allI)
  show "upgrade_head empty_database = Inr head_database"
    using upgrade_0001_runs upgrade_0002_runs by (simp add: upgrade_head_def revision_0001_def revision_0002_def)
  fix t
  have "database_holds head_database (rows_of t) \<longleftrightarrow>
      table_holds (rows_of t) data_sources_0001 \<and> table_holds (rows_of t) pipelines_0001 \<and> table_holds (rows_of t) datasets_0001 \<and>
      table_holds (rows_of t) scan_runs_0001 \<and> table_holds (rows_of t) alert_deliveries_0002 \<and>
      table_holds (rows_of t) expected_columns_0001 \<and> table_holds (rows_of t) lineage_edges_0001 \<and>
      table_holds (rows_of t) observed_columns_0001 \<and> table_holds (rows_of t) schema_changes_0001 \<and>
      index_holds (rows_of t) open_fingerprint_index_0001"
    by (simp add: database_holds_def head_database_def)
  then show "database_holds head_database (rows_of t) \<longleftrightarrow> data_ok t \<and> integrity_ok t"
    unfolding tables_hold open_index data_ok_def integrity_ok_def catalog_constraints_def scan_constraints_def
      change_constraints_def delivery_constraints_def lineage_constraints_def by argo
qed


end
