(* ===== verification/Redaction.thy ===== *)
theory Redaction
  imports Models
begin

text \<open>
  \<open>logging.py\<close>: the fields and the texts that are removed from a log event before it is rendered. A regular
  expression is a matcher: the ways to split a text into a match and the rest, in the order in which \<open>re\<close> tries
  them.
\<close>

section \<open>Matching\<close>

type_synonym matcher = "string \<Rightarrow> (string \<times> string) list"

definition ascii_lower :: "char \<Rightarrow> char" where
  "ascii_lower c = (if 65 \<le> code c \<and> code c \<le> 90 then char_of (code c + 32) else c)"

text \<open>A literal, without regard to case; one character of a class; a greedy repetition of a class.\<close>

definition lit :: "string \<Rightarrow> matcher" where
  "lit w s = (if length w \<le> length s \<and> map ascii_lower (take (length w) s) = w then [(take (length w) s, drop (length w) s)] else [])"

definition one :: "(char \<Rightarrow> bool) \<Rightarrow> matcher" where
  "one P s = (case s of [] \<Rightarrow> [] | c # cs \<Rightarrow> if P c then [([c], cs)] else [])"

definition many :: "(char \<Rightarrow> bool) \<Rightarrow> matcher" where
  "many P s = map (\<lambda>n. (take n s, drop n s)) (rev [0..<Suc (length (takeWhile P s))])"

definition many1 :: "(char \<Rightarrow> bool) \<Rightarrow> matcher" where
  "many1 P s = map (\<lambda>n. (take n s, drop n s)) (rev [1..<Suc (length (takeWhile P s))])"

definition followed_by :: "matcher \<Rightarrow> matcher \<Rightarrow> matcher" where
  "followed_by m k s = [(x @ y, r'). (x, r) \<leftarrow> m s, (y, r') \<leftarrow> k r]"

definition any_of :: "matcher list \<Rightarrow> matcher" where
  "any_of ms s = concat (map (\<lambda>m. m s) ms)"

definition maybe :: "(char \<Rightarrow> bool) \<Rightarrow> matcher" where
  "maybe P s = one P s @ [([], s)]"

definition is_letter :: "char \<Rightarrow> bool" where
  "is_letter c \<longleftrightarrow> (let n = code (ascii_lower c) in 97 \<le> n \<and> n \<le> 122)"

definition is_in :: "string \<Rightarrow> char \<Rightarrow> bool" where
  "is_in cs c \<longleftrightarrow> c \<in> set cs"

text \<open>\<open>\w\<close>, below U+0100.\<close>

definition is_word :: "char \<Rightarrow> bool" where
  "is_word c \<longleftrightarrow> (let n = code c in is_letter c \<or> is_digit c \<or> n = 95 \<or> n \<in> {170, 178, 179, 181, 185, 186, 188, 189, 190} \<or>
     192 \<le> n \<and> n \<noteq> 215 \<and> n \<noteq> 247)"

text \<open>\<open>pattern.sub\<close>: at the first place where the pattern matches, what is between its prefix and its suffix is
  replaced. The prefix may look at the character before it.\<close>

definition redacted :: string where
  "redacted = ''[REDACTED]''"

definition first_match ::
  "(char option \<Rightarrow> matcher) \<Rightarrow> matcher \<Rightarrow> matcher \<Rightarrow> char option \<Rightarrow> string \<Rightarrow> (string \<times> string \<times> string \<times> string) option" where
  "first_match prefix secret suffix prev s =
     (case [(p, x, q, r3). (p, r1) \<leftarrow> prefix prev s, (x, r2) \<leftarrow> secret r1, (q, r3) \<leftarrow> suffix r2] of
        [] \<Rightarrow> None
      | m # _ \<Rightarrow> Some m)"

function redact_matches ::
  "(char option \<Rightarrow> matcher) \<Rightarrow> matcher \<Rightarrow> matcher \<Rightarrow> char option \<Rightarrow> string \<Rightarrow> string" where
  "redact_matches prefix secret suffix prev [] = []"
| "redact_matches prefix secret suffix prev (c # cs) =
     (case first_match prefix secret suffix prev (c # cs) of
        None \<Rightarrow> c # redact_matches prefix secret suffix (Some c) cs
      | Some (p, x, q, rest) \<Rightarrow>
          if length rest \<le> length cs then p @ redacted @ q @ redact_matches prefix secret suffix (Some (last (p @ x @ q))) rest
          else c # redact_matches prefix secret suffix (Some c) cs)"
  by pat_completeness auto

termination
  by (relation "measure (\<lambda>(_, _, _, _, s). length s)") auto

section \<open>The patterns\<close>

definition api_key_word :: matcher where
  "api_key_word = followed_by (lit ''api'') (followed_by (maybe (is_in ''_-'')) (lit ''key''))"

definition sensitive_field :: "string \<Rightarrow> bool" where
  "sensitive_field name = list_ex (\<lambda>n. any_of
     [lit ''password'', lit ''passwd'', lit ''pwd'', lit ''secret'', lit ''token'', api_key_word, lit ''authorization'', lit ''webhook'']
     (drop n name) \<noteq> []) [0..<Suc (length name)]"

definition nothing :: matcher where
  "nothing s = [([], s)]"

definition scheme_char :: "char \<Rightarrow> bool" where
  "scheme_char c \<longleftrightarrow> is_letter c \<or> is_digit c \<or> is_in ''+.-'' c"

definition user_char :: "char \<Rightarrow> bool" where
  "user_char c \<longleftrightarrow> \<not> is_in '':/@'' c \<and> \<not> is_space c"

definition password_char :: "char \<Rightarrow> bool" where
  "password_char c \<longleftrightarrow> c \<noteq> CHR ''@'' \<and> \<not> is_space c"

definition url_prefix :: matcher where
  "url_prefix = followed_by (one is_letter) (followed_by (many scheme_char)
     (followed_by (lit ''://'') (followed_by (many1 user_char) (lit '':''))))"

definition redact_url_credential :: "string \<Rightarrow> string" where
  "redact_url_credential = redact_matches (\<lambda>_. url_prefix) (many1 password_char) (lit ''@'') None"

definition redact_inline_secret :: "string \<Rightarrow> string" where
  "redact_inline_secret = redact_matches
     (\<lambda>_. followed_by (any_of [lit ''password'', lit ''passwd'', lit ''pwd'', lit ''secret'', lit ''token'', api_key_word])
        (followed_by (many is_space) (followed_by (one (is_in ''=:'')) (many is_space))))
     (many1 (\<lambda>c. \<not> is_space c \<and> \<not> is_in '',;&'' c)) nothing None"

definition redact_authorization :: "string \<Rightarrow> string" where
  "redact_authorization = redact_matches
     (\<lambda>prev. case prev of
        Some c \<Rightarrow> if is_word c then (\<lambda>_. []) else followed_by (any_of [lit ''basic'', lit ''bearer'']) (many1 is_space)
      | None \<Rightarrow> followed_by (any_of [lit ''basic'', lit ''bearer'']) (many1 is_space))
     (many1 (\<lambda>c. 65 \<le> code c \<and> code c \<le> 90 \<or> 97 \<le> code c \<and> code c \<le> 122 \<or> is_digit c \<or> is_in ''._~+/=-'' c)) nothing None"

definition redact_string :: "string \<Rightarrow> string" where
  "redact_string s = redact_authorization (redact_inline_secret (redact_url_credential s))"

section \<open>Events\<close>

text \<open>Keys are their \<open>str\<close>; values of other types are left alone.\<close>

datatype log_value =
    LStr string
  | LDict "(string \<times> log_value) list"
  | LTuple "log_value list"
  | LList "log_value list"
  | LOther json

fun redact_value :: "string option \<Rightarrow> log_value \<Rightarrow> log_value" where
  "redact_value field v =
     (if (case field of None \<Rightarrow> False | Some f \<Rightarrow> f \<noteq> [] \<and> sensitive_field f) then LStr redacted
      else case v of
        LStr s \<Rightarrow> LStr (redact_string s)
      | LDict kvs \<Rightarrow> LDict (map (\<lambda>(k, w). (k, redact_value (Some k) w)) kvs)
      | LTuple vs \<Rightarrow> LTuple (map (redact_value None) vs)
      | LList vs \<Rightarrow> LList (map (redact_value None) vs)
      | LOther j \<Rightarrow> LOther j)"

definition redact_sensitive_values :: "(string \<times> log_value) list \<Rightarrow> (string \<times> log_value) list" where
  "redact_sensitive_values event = map (\<lambda>(k, v). (k, redact_value (Some k) v)) event"

text \<open>What \<open>log_source_failure\<close> hands to the processors; \<open>name\<close> and \<open>text_of\<close> are the type and the text of the
  error.\<close>

definition source_failure_event :: "string \<Rightarrow> string \<Rightarrow> string \<Rightarrow> string \<Rightarrow> int \<Rightarrow> (string \<times> log_value) list" where
  "source_failure_event name text_of source_key scan_id duration =
     [(''source_key'', LStr source_key), (''scan_id'', LStr scan_id), (''duration_ms'', LOther (JInt duration)),
      (''status'', LStr ''FAILED''), (''error'', LStr (name @ '': '' @ text_of)), (''event'', LStr ''source_connection_failed'')]"

section \<open>Sensitive fields\<close>

text \<open>\<open>at_field k v w\<close>: somewhere in \<open>w\<close> a dictionary has the value \<open>v\<close> under the key \<open>k\<close>.\<close>

inductive at_field :: "string \<Rightarrow> log_value \<Rightarrow> log_value \<Rightarrow> bool" for k :: string and v :: log_value where
  here: "(k, v) \<in> set kvs \<Longrightarrow> at_field k v (LDict kvs)"
| dict: "(l, w) \<in> set kvs \<Longrightarrow> at_field k v w \<Longrightarrow> at_field k v (LDict kvs)"
| list: "w \<in> set vs \<Longrightarrow> at_field k v w \<Longrightarrow> at_field k v (LList vs)"
| tuple: "w \<in> set vs \<Longrightarrow> at_field k v w \<Longrightarrow> at_field k v (LTuple vs)"

inductive_simps at_field_simps [simp]:
  "at_field k v (LStr s)" "at_field k v (LOther j)" "at_field k v (LDict kvs)" "at_field k v (LList vs)" "at_field k v (LTuple vs)"

lemma empty_not_sensitive: "\<not> sensitive_field []"
  by (simp add: sensitive_field_def any_of_def lit_def api_key_word_def followed_by_def)

lemma redact_sensitive: "sensitive_field k \<Longrightarrow> redact_value (Some k) v = LStr redacted"
  using empty_not_sensitive by (auto simp: redact_value.simps [of "Some k" v])

lemma redact_at_field:
  assumes "at_field k v (redact_value f w)" and "sensitive_field k"
  shows "v = LStr redacted"
  using assms(1)
proof (induction w arbitrary: f)
  case (LDict kvs)
  then have "at_field k v (LDict (map (\<lambda>(l, w). (l, redact_value (Some l) w)) kvs))"
    by (simp split: if_splits)
  then consider w where "(k, w) \<in> set kvs" "v = redact_value (Some k) w"
    | l w where "(l, w) \<in> set kvs" "at_field k v (redact_value (Some l) w)"
    by auto
  then show ?case
  proof cases
    case 1
    then show ?thesis using redact_sensitive [OF assms(2)] by simp
  next
    case 2
    show ?thesis by (rule LDict.IH [OF 2(1) _ 2(2)]) simp
  qed
next
  case (LTuple vs)
  then obtain w where "w \<in> set vs" "at_field k v (redact_value None w)" by (auto split: if_splits)
  then show ?case by (rule LTuple.IH)
next
  case (LList vs)
  then obtain w where "w \<in> set vs" "at_field k v (redact_value None w)" by (auto split: if_splits)
  then show ?case by (rule LList.IH)
qed (auto split: if_splits)

lemma redact_keeps_keys: "map fst (redact_sensitive_values event) = map fst event"
  by (simp add: redact_sensitive_values_def comp_def case_prod_unfold)

text \<open>C37. No event is rendered with the value of a sensitive field: after redaction, whatever stands under a key
  that contains one of the sensitive words, at any depth of dictionaries, lists and tuples, is the mark; the
  keys of the event are all kept.\<close>

theorem sensitive_fields_redacted:
  "map fst (redact_sensitive_values event) = map fst event \<and>
   (\<forall>k v. at_field k v (LDict (redact_sensitive_values event)) \<longrightarrow> sensitive_field k \<longrightarrow> v = LStr redacted)"
proof -
  have "redact_value None (LDict event) = LDict (redact_sensitive_values event)"
    by (simp add: redact_sensitive_values_def)
  then show ?thesis using redact_at_field [of _ _ None "LDict event"] redact_keeps_keys by auto
qed

section \<open>Texts\<close>

lemmas matching_defs = first_match_def lit_def any_of_def followed_by_def many_def many1_def one_def maybe_def nothing_def url_prefix_def scheme_char_def user_char_def password_char_def
  api_key_word_def is_in_def is_letter_def is_word_def is_digit_def is_space_def code_def ascii_lower_def Let_def upt_rec redacted_def

lemma secret_after_scheme:
  "redact_string ''token=Bearer abc'' = ''token=[REDACTED] abc''"
  by (simp add: redact_string_def redact_authorization_def redact_inline_secret_def redact_url_credential_def matching_defs)

lemma secret_without_user:
  "redact_string ''redis://:pw@host'' = ''redis://:pw@host''"
  by (simp add: redact_string_def redact_authorization_def redact_inline_secret_def redact_url_credential_def matching_defs)

section \<open>Passwords in addresses\<close>

text \<open>An address with a password, by the words of the syntax of URLs and not of the pattern: the scheme is a
  letter followed by letters, digits, plus, dot and minus; the user has no colon, slash or at sign; the password
  has no at sign, and may have slashes and colons; neither has white space.\<close>

definition address_with_password :: "string \<Rightarrow> string \<Rightarrow> string \<Rightarrow> bool" where
  "address_with_password scheme user password \<longleftrightarrow>
     scheme \<noteq> [] \<and> is_letter (hd scheme) \<and> list_all (\<lambda>c. is_letter c \<or> is_digit c \<or> c \<in> set ''+.-'') scheme \<and>
     user \<noteq> [] \<and> list_all (\<lambda>c. c \<notin> set '':/@'' \<and> \<not> is_space c) user \<and>
     password \<noteq> [] \<and> list_all (\<lambda>c. c \<noteq> CHR ''@'' \<and> \<not> is_space c) password"

lemma address_with_password_chars:
  "address_with_password scheme user password \<longleftrightarrow>
     scheme \<noteq> [] \<and> is_letter (hd scheme) \<and> list_all scheme_char scheme \<and>
     user \<noteq> [] \<and> list_all user_char user \<and> password \<noteq> [] \<and> list_all password_char password"
  unfolding address_with_password_def scheme_char_def user_char_def password_char_def is_in_def by (rule refl)

lemma lit_simps [simp]:
  "lit [] s = [([], s)]"
  "lit (w # ws) [] = []"
  "lit (w # ws) (c # s) = (if ascii_lower c = w then map (\<lambda>(x, r). (c # x, r)) (lit ws s) else [])"
  by (auto simp: lit_def)

lemma ascii_lower_same:
  assumes "code d < 65 \<or> 90 < code d \<and> code d < 97 \<or> 122 < code d"
  shows "ascii_lower c = d \<longleftrightarrow> c = d"
proof (cases "65 \<le> code c \<and> code c \<le> 90")
  case True
  then have "code (ascii_lower c) = code c + 32" by (simp add: ascii_lower_def code_char_of)
  then show ?thesis using assms True by auto
qed (auto simp: ascii_lower_def)

lemma lower_same [simp]:
  "ascii_lower c = CHR '':'' \<longleftrightarrow> c = CHR '':''" "ascii_lower c = CHR ''/'' \<longleftrightarrow> c = CHR ''/''"
  "ascii_lower c = CHR ''@'' \<longleftrightarrow> c = CHR ''@''"
  by (rule ascii_lower_same; simp add: code_def)+

lemma char_classes [simp]:
  "\<not> scheme_char (CHR '':'')" "\<not> scheme_char (CHR ''/'')" "\<not> user_char (CHR '':'')" "\<not> user_char (CHR ''/'')"
  "\<not> password_char (CHR ''@'')" "\<not> is_letter (CHR ''/'')"
  by (simp_all add: scheme_char_def user_char_def password_char_def is_letter_def is_digit_def is_in_def ascii_lower_def code_def)

lemma followed_by_concat:
  "followed_by m k s = concat (map (\<lambda>(x, r). map (\<lambda>(y, r'). (x @ y, r')) (k r)) (m s))"
  by (simp add: followed_by_def)

text \<open>A greedy repetition in front of a pattern that cannot start inside it has one way to match.\<close>

definition stops :: "(char \<Rightarrow> bool) \<Rightarrow> (string \<Rightarrow> 'a list) \<Rightarrow> bool" where
  "stops P k \<longleftrightarrow> (\<forall>x s. P x \<longrightarrow> k (x # s) = [])"

lemma earlier_stops:
  assumes "list_all P xs" and "stops P k" and "n < length xs"
  shows "k (drop n xs @ t) = []"
proof -
  have "drop n xs @ t = xs ! n # drop (Suc n) xs @ t"
    using assms(3) by (simp add: Cons_nth_drop_Suc [symmetric])
  then show ?thesis using assms by (simp add: list_all_length stops_def)
qed

lemma concat_map_Nil: "(\<And>x. x \<in> set xs \<Longrightarrow> f x = []) \<Longrightarrow> concat (map f xs) = []"
  by (induction xs) simp_all

lemma longest_only:
  assumes "list_all P xs" and "stops P k" and "i \<le> length xs"
  shows "concat (map (\<lambda>(x, r). map (g x) (k r)) (map (\<lambda>n. (take n (xs @ t), drop n (xs @ t))) (rev [i..<Suc (length xs)])))
    = map (g xs) (k t)"
proof -
  have "concat (map (\<lambda>(x, r). map (g x) (k r)) (map (\<lambda>n. (take n (xs @ t), drop n (xs @ t))) (rev [i..<length xs]))) = []"
    by (rule concat_map_Nil) (auto simp: earlier_stops [OF assms(1,2)])
  then show ?thesis using assms(3) by simp
qed

lemma takeWhile_delimited: "list_all P xs \<Longrightarrow> \<not> P c \<Longrightarrow> takeWhile P (xs @ c # r) = xs"
  by (induction xs) auto

lemma many_longest:
  assumes "list_all P xs" and "\<not> P c" and "stops P k"
  shows "concat (map (\<lambda>(x, r). map (g x) (k r)) (many P (xs @ c # r))) = map (g xs) (k (c # r))"
  unfolding many_def takeWhile_delimited [OF assms(1,2)] by (rule longest_only [OF assms(1,3)]) simp

lemma many1_longest:
  assumes "xs \<noteq> []" and "list_all P xs" and "\<not> P c" and "stops P k"
  shows "concat (map (\<lambda>(x, r). map (g x) (k r)) (many1 P (xs @ c # r))) = map (g xs) (k (c # r))"
  unfolding many1_def takeWhile_delimited [OF assms(2,3)]
  using assms(1) by (intro longest_only [OF assms(2,4)]) (simp add: Suc_le_eq)

lemma followed_by_many:
  "list_all P xs \<Longrightarrow> \<not> P c \<Longrightarrow> stops P k \<Longrightarrow>
     followed_by (many P) k (xs @ c # r) = map (\<lambda>(y, r'). (xs @ y, r')) (k (c # r))"
  unfolding followed_by_concat by (rule many_longest)

lemma followed_by_many1:
  "xs \<noteq> [] \<Longrightarrow> list_all P xs \<Longrightarrow> \<not> P c \<Longrightarrow> stops P k \<Longrightarrow>
     followed_by (many1 P) k (xs @ c # r) = map (\<lambda>(y, r'). (xs @ y, r')) (k (c # r))"
  unfolding followed_by_concat by (rule many1_longest)

lemma stops_literals:
  "stops scheme_char (followed_by (lit ''://'') k)" "stops user_char (lit '':'')" "stops password_char (lit ''@'')"
  by (auto simp: stops_def followed_by_def)

lemma followed_by_lit: "followed_by (lit ''://'') k (CHR '':'' # CHR ''/'' # CHR ''/'' # s) = map (\<lambda>(y, r'). (''://'' @ y, r')) (k s)"
  by (simp add: followed_by_def)

lemma url_prefix_address:
  assumes "address_with_password scheme user password"
  shows "url_prefix (scheme @ ''://'' @ user @ '':'' @ s) = [(scheme @ ''://'' @ user @ '':'', s)]"
proof -
  obtain c cs where c: "scheme = c # cs" "is_letter c" "list_all scheme_char cs"
    using assms by (cases scheme) (auto simp: address_with_password_chars)
  have "followed_by (many1 user_char) (lit '':'') (user @ CHR '':'' # s) = [(user @ '':'', s)]"
    using assms by (subst followed_by_many1) (auto simp: address_with_password_chars stops_literals)
  then have "followed_by (many scheme_char) (followed_by (lit ''://'') (followed_by (many1 user_char) (lit '':'')))
      (cs @ CHR '':'' # CHR ''/'' # CHR ''/'' # user @ CHR '':'' # s) = [(cs @ ''://'' @ user @ '':'', s)]"
    by (subst followed_by_many [OF c(3)]) (simp_all add: followed_by_lit stops_literals)
  then show ?thesis
    using c by (simp add: url_prefix_def followed_by_def [of "one is_letter"] one_def)
qed

text \<open>No match starts before the address, unless it runs into its scheme.\<close>

lemma url_prefix_before:
  assumes "CHR ''/'' \<notin> set cs" and "\<not> list_all scheme_char cs" and "t \<noteq> []" and "hd t \<noteq> CHR ''/''"
  shows "url_prefix (c # cs @ t) = []"
proof -
  obtain xs d ys where cs: "cs = xs @ d # ys" "list_all scheme_char xs" "\<not> scheme_char d"
    using assms(2) split_list_first_prop [of cs "\<lambda>x. \<not> scheme_char x"] by (auto simp: list_all_iff)
  have "lit ''://'' (d # ys @ t) = []"
    using assms(1,3,4) cs(1) by (cases ys; cases t) auto
  then have "followed_by (lit ''://'') k (d # ys @ t) = []" for k
    by (simp add: followed_by_def)
  then have "followed_by (many scheme_char) (followed_by (lit ''://'') k) (xs @ d # ys @ t) = []" for k
    by (subst followed_by_many [OF cs(2,3)]) (simp_all add: stops_literals)
  then show ?thesis
    by (simp add: url_prefix_def followed_by_def [of "one is_letter"] one_def cs(1))
qed

lemma first_match_address:
  assumes "address_with_password scheme user password"
  shows "first_match (\<lambda>_. url_prefix) (many1 password_char) (lit ''@'') prev
    (scheme @ ''://'' @ user @ '':'' @ password @ ''@'' @ rest) = Some (scheme @ ''://'' @ user @ '':'', password, ''@'', rest)"
proof -
  have "concat (map (\<lambda>(x, r2). map (\<lambda>(q, r3). (p, x, q, r3)) (lit ''@'' r2)) (many1 password_char (password @ CHR ''@'' # rest)))
      = [(p, password, ''@'', rest)]" for p :: string
    using assms many1_longest [of password password_char "CHR ''@''" "lit ''@''" "\<lambda>x (q, r3). (p, x, q, r3)" rest]
    by (simp add: address_with_password_chars stops_literals)
  then show ?thesis
    using url_prefix_address [OF assms, of "password @ ''@'' @ rest"] by (simp add: first_match_def)
qed

lemma previous_irrelevant: "redact_matches (\<lambda>_. p) x q prev s = redact_matches (\<lambda>_. p) x q prev' s"
proof (induction "\<lambda>_ :: char option. p" x q prev s arbitrary: prev' rule: redact_matches.induct)
  case (2 x q prev c cs)
  then show ?case by (auto simp: first_match_def split: option.split)
qed simp

lemma address_redacted:
  assumes "address_with_password scheme user password"
  shows "redact_matches (\<lambda>_. url_prefix) (many1 password_char) (lit ''@'') prev
      (scheme @ ''://'' @ user @ '':'' @ password @ ''@'' @ rest)
    = scheme @ ''://'' @ user @ '':'' @ redacted @ ''@'' @ redact_url_credential rest"
proof -
  obtain c cs where c: "scheme = c # cs"
    using assms by (cases scheme) (auto simp: address_with_password_chars)
  show ?thesis
    using first_match_address [OF assms, of prev rest] previous_irrelevant [of url_prefix _ _ "Some CHR ''@''" rest None]
    by (simp add: c redact_url_credential_def)
qed

lemma scheme_extended:
  assumes "address_with_password scheme user password" and "is_letter c" and "list_all scheme_char cs"
  shows "address_with_password (c # cs @ scheme) user password"
  using assms by (simp add: address_with_password_chars scheme_char_def)

lemma password_redacted:
  assumes "address_with_password scheme user password" and "CHR ''/'' \<notin> set front"
  shows "redact_matches (\<lambda>_. url_prefix) (many1 password_char) (lit ''@'') prev
      (front @ scheme @ ''://'' @ user @ '':'' @ password @ ''@'' @ rest)
    = front @ scheme @ ''://'' @ user @ '':'' @ redacted @ ''@'' @ redact_url_credential rest"
  using assms(2)
proof (induction front arbitrary: prev)
  case Nil
  then show ?case using address_redacted [OF assms(1)] by simp
next
  case (Cons c cs)
  show ?case
  proof (cases "is_letter c \<and> list_all scheme_char cs")
    case True
    then show ?thesis
      using address_redacted [OF scheme_extended [OF assms(1)], of c cs prev rest] by simp
  next
    case False
    have s: "scheme \<noteq> []" "is_letter (hd scheme)" using assms(1) by (simp_all add: address_with_password_chars)
    then have "hd scheme \<noteq> CHR ''/''" by (metis char_classes(6))
    then have "url_prefix (c # cs @ scheme @ ''://'' @ user @ '':'' @ password @ ''@'' @ rest) = []"
    proof (cases "is_letter c")
      case True
      then show ?thesis
        using False Cons.prems s \<open>hd scheme \<noteq> CHR ''/''\<close>
        by (intro url_prefix_before) auto
    qed (simp add: url_prefix_def followed_by_def [of "one is_letter"] one_def)
    then show ?thesis
      using Cons by (simp add: first_match_def)
  qed
qed

theorem sensitive_fields_redacted_witness:
  "\<exists>v. at_field ''pwd'' v (LDict (redact_sensitive_values [(''db'', LDict [(''pwd'', LStr ''x'')])])) \<and> v = LStr redacted"
proof -
  let ?event = "[(''db'', LDict [(''pwd'', LStr ''x'')])]"
  have s: "sensitive_field ''pwd''" "\<not> sensitive_field ''db''"
    by (simp_all add: sensitive_field_def matching_defs)
  have "at_field ''pwd'' (redact_value (Some ''pwd'') (LStr ''x'')) (LDict (redact_sensitive_values ?event))"
    using s(2) by (auto simp: redact_sensitive_values_def simp del: redact_value.simps simp: redact_value.simps [of "Some ''db''"])
  with sensitive_fields_redacted [of ?event] s(1) show ?thesis by blast
qed

text \<open>C38. The password of an address is not logged: in the event of a failed source, whatever text with an address
  its error has, the scheme, the user and what follows are kept, and the password is replaced by the mark; so
  the redacted event is the same for every password.\<close>

theorem address_password_redacted:
  assumes "address_with_password scheme user password" and "address_with_password scheme user password'"
    and "CHR ''/'' \<notin> set front" and "CHR ''/'' \<notin> set name"
  shows "redact_url_credential (front @ scheme @ ''://'' @ user @ '':'' @ password @ ''@'' @ rest)
      = front @ scheme @ ''://'' @ user @ '':'' @ redacted @ ''@'' @ redact_url_credential rest \<and>
    redact_sensitive_values (source_failure_event name (front @ scheme @ ''://'' @ user @ '':'' @ password @ ''@'' @ rest) key scan ms)
      = redact_sensitive_values (source_failure_event name (front @ scheme @ ''://'' @ user @ '':'' @ password' @ ''@'' @ rest) key scan ms)"
proof -
  have red: "redact_url_credential (f @ scheme @ ''://'' @ user @ '':'' @ p @ ''@'' @ rest)
      = f @ scheme @ ''://'' @ user @ '':'' @ redacted @ ''@'' @ redact_url_credential rest"
    if "address_with_password scheme user p" "CHR ''/'' \<notin> set f" for f p
    using password_redacted [OF that, of None rest] by (simp add: redact_url_credential_def)
  have name: "CHR ''/'' \<notin> set (name @ '': '' @ front)" using assms(3,4) by simp
  show ?thesis
    using red [OF assms(1,3)] red [OF assms(1) name] red [OF assms(2) name]
    by (simp add: redact_sensitive_values_def source_failure_event_def redact_string_def)
qed

theorem address_password_redacted_witness:
  "redact_url_credential ''cannot reach pg://app:s3cret@db:5432/x'' = ''cannot reach pg://app:[REDACTED]@db:5432/x''"
proof -
  have a: "address_with_password ''pg'' ''app'' ''s3cret''"
    by (simp add: address_with_password_def matching_defs)
  have rest: "redact_url_credential ''db:5432/x'' = ''db:5432/x''"
    by (simp add: redact_url_credential_def matching_defs)
  show ?thesis
    using address_password_redacted [OF a a, of "''cannot reach ''" "''OSError''" "''db:5432/x''"] rest
    by (simp add: redacted_def)
qed

end
