(* ===== verification/Repositories.thy ===== *)
theory Repositories
  imports Query AlertRepo CatalogRepo
begin

text \<open>
  The operations of the repository classes that no service calls, and what all their
  \<open>add\<close> methods share (\<open>src/schema_sentry/infrastructure/db/repositories/scans.py\<close>
  (\<open>ScanRepository\<close>), \<open>changes.py\<close> and \<open>alerts.py\<close> (\<open>add\<close>), \<open>catalog.py\<close>): a method
  \<open>add\<close> puts one row into its table and flushes.  The locale \<open>row_store\<close> is that contract and
  \<open>keyed_store\<close> adds the lookup by a unique key; both are interpreted on the repositories.
\<close>

section \<open>The remaining operations\<close>

definition add_scan :: "scan_row \<Rightarrow> scan_row db" where
  "add_scan scan = thenA (modify (\<lambda>t. t\<lparr>t_scans := t_scans t @ [scan]\<rparr>)) (thenA flush (returnA scan))"

definition get_scan_run :: "uuid \<Rightarrow> scan_row option db" where
  "get_scan_run scan_id = query (\<lambda>t. List.find (\<lambda>r. sc_id r = scan_id) (t_scans t))"

definition latest_of_source :: "uuid \<Rightarrow> tables \<Rightarrow> scan_row option" where
  "latest_of_source source_id t =
     (case sort_key (\<lambda>r. - sc_started r) (filter (\<lambda>r. sc_source r = source_id) (t_scans t)) of
        [] \<Rightarrow> None | scan # _ \<Rightarrow> Some scan)"

definition latest_for_source :: "uuid \<Rightarrow> scan_row option db" where
  "latest_for_source source_id = query (latest_of_source source_id)"

definition add_change :: "change_row \<Rightarrow> change_row db" where
  "add_change change =
     thenA (modify (\<lambda>t. t\<lparr>t_changes := t_changes t @ [change]\<rparr>)) (thenA flush (returnA change))"

definition add_delivery :: "delivery_row \<Rightarrow> delivery_row db" where
  "add_delivery delivery =
     thenA (modify (\<lambda>t. t\<lparr>t_deliveries := t_deliveries t @ [delivery]\<rparr>)) (thenA flush (returnA delivery))"

section \<open>The contract of \<open>add\<close>\<close>

locale row_store =
  fixes rows :: "tables \<Rightarrow> 'r list"
    and put :: "'r \<Rightarrow> tables \<Rightarrow> tables"
    and add :: "'r \<Rightarrow> 'r db"
  assumes adds: "add r = thenA (modify (put r)) (thenA flush (returnA r))"
    and rows_put: "rows (put r t) = rows t @ [r]"
begin

lemma add_Inr:
  "add r s = (Inr x, s') \<longleftrightarrow> x = r \<and> s' = s\<lparr>work := put r (work s)\<rparr> \<and> usable s'"
  by (auto simp: adds action_simps usable_def)

lemma add_stored: "add r s = (Inr x, s') \<Longrightarrow> rows (work s') = rows (work s) @ [r]"
  by (simp add: add_Inr rows_put)

lemma add_refused:
  assumes "\<not> usable (s\<lparr>work := put r (work s)\<rparr>)"
  shows "\<exists>e s'. add r s = (Inl e, s') \<and> poisoned s' \<and> durable s' = durable s"
  using assms by (auto simp: adds thenA_def bindA_def modify_def flush_def usable_def returnA_def split: if_splits)

end

locale keyed_store = row_store rows put add
  for rows :: "tables \<Rightarrow> 'r list" and put :: "'r \<Rightarrow> tables \<Rightarrow> tables" and add :: "'r \<Rightarrow> 'r db" +
  fixes key :: "'r \<Rightarrow> 'k" and get :: "'k \<Rightarrow> 'r option db"
  assumes gets: "get k = query (\<lambda>t. List.find (\<lambda>r. key r = k) (rows t))"
    and keys_unique: "integrity_ok t \<Longrightarrow> unique_on key (rows t)"
begin

lemma get_exact:
  assumes "usable s"
  shows "\<exists>r. get k s = (Inr r, s) \<and> (\<forall>x. r = Some x \<longleftrightarrow> x \<in> set (rows (work s)) \<and> key x = k)"
proof -
  have run: "get k s = (Inr (List.find (\<lambda>r. key r = k) (rows (work s))), s)"
    using assms by (simp add: gets usable_run)
  have u: "unique_on key (rows (work s))"
    using assms keys_unique by (simp add: usable_def)
  have "List.find (\<lambda>r. key r = k) (rows (work s)) = Some x \<longleftrightarrow> x \<in> set (rows (work s)) \<and> key x = k" for x
  proof
    assume "List.find (\<lambda>r. key r = k) (rows (work s)) = Some x"
    then show "x \<in> set (rows (work s)) \<and> key x = k"
      by (auto simp: find_Some_iff)
  next
    assume x: "x \<in> set (rows (work s)) \<and> key x = k"
    then obtain y where y: "List.find (\<lambda>r. key r = k) (rows (work s)) = Some y"
      by (cases "List.find (\<lambda>r. key r = k) (rows (work s))") (auto simp: find_None_iff)
    then have "y \<in> set (rows (work s))" "key y = k"
      by (auto simp: find_Some_iff)
    then have "y = x"
      using u x unique_onD [of key "rows (work s)" y x] by simp
    then show "List.find (\<lambda>r. key r = k) (rows (work s)) = Some x"
      using y by simp
  qed
  then show ?thesis
    using run by blast
qed

lemma get_after_add:
  assumes "add r s = (Inr x, s')"
  shows "get (key r) s' = (Inr (Some r), s')"
proof -
  have "usable s'" and r: "r \<in> set (rows (work s'))"
    using assms by (auto simp: add_Inr rows_put)
  then obtain y where y: "get (key r) s' = (Inr y, s')" "\<forall>x. y = Some x \<longleftrightarrow> x \<in> set (rows (work s')) \<and> key x = key r"
    using get_exact [of s' "key r"] by blast
  have "y = Some r"
    using y(2) r by simp
  then show ?thesis
    using y(1) by simp
qed

end

section \<open>The repositories keep the contract\<close>

interpretation source_store: keyed_store t_sources "\<lambda>r t. t\<lparr>t_sources := t_sources t @ [r]\<rparr>" add_source src_key get_source_by_key
  by unfold_locales (simp_all add: add_source_def get_source_by_key_def integrity_ok_def catalog_constraints_def)

interpretation dataset_store: keyed_store t_datasets "\<lambda>r t. t\<lparr>t_datasets := t_datasets t @ [r]\<rparr>" add_dataset
  "\<lambda>d. (ds_source d, ds_schema d, ds_table d)" "\<lambda>(i, s, n). get_dataset i s n"
  by unfold_locales (auto simp add: add_dataset_def get_dataset_def integrity_ok_def catalog_constraints_def)

interpretation expected_store: row_store t_expected "\<lambda>r t. t\<lparr>t_expected := t_expected t @ [r]\<rparr>" add_expected_column
  by unfold_locales (simp_all add: add_expected_column_def)

interpretation scan_store: keyed_store t_scans "\<lambda>r t. t\<lparr>t_scans := t_scans t @ [r]\<rparr>" add_scan sc_id get_scan_run
  by unfold_locales (simp_all add: add_scan_def get_scan_run_def integrity_ok_def scan_constraints_def)

interpretation change_store: row_store t_changes "\<lambda>r t. t\<lparr>t_changes := t_changes t @ [r]\<rparr>" add_change
  by unfold_locales (simp_all add: add_change_def)

interpretation delivery_store: row_store t_deliveries "\<lambda>r t. t\<lparr>t_deliveries := t_deliveries t @ [r]\<rparr>" add_delivery
  by unfold_locales (simp_all add: add_delivery_def)

section \<open>Consequences\<close>

text \<open>An open change that was added is the one \<open>find_open\<close> finds.\<close>

lemma find_open_after_add:
  assumes "add_change c s = (Inr x, s')" "ch_state c = OPEN"
  shows "find_open (ch_source c) (ch_fingerprint c) s' = (Inr (Some c), s')"
proof -
  let ?p = "\<lambda>r. ch_source r = ch_source c \<and> ch_fingerprint r = ch_fingerprint c \<and> ch_state r = OPEN"
  have u: "usable s'" and c: "c \<in> set (t_changes (work s'))"
    using assms(1) by (auto simp: change_store.add_Inr)
  have uniq: "unique_on (\<lambda>c. (ch_source c, ch_fingerprint c)) (filter (\<lambda>c. ch_state c = OPEN) (t_changes (work s')))"
    using u by (simp add: usable_def integrity_ok_def change_constraints_def)
  obtain y where y: "List.find ?p (t_changes (work s')) = Some y"
    using c assms(2) by (cases "List.find ?p (t_changes (work s'))") (auto simp: find_None_iff)
  then have "y \<in> set (t_changes (work s'))" "?p y"
    by (auto simp: find_Some_iff)
  then have "y = c"
    using unique_onD [OF uniq, of y c] c assms(2) by simp
  then show ?thesis
    using u y by (simp add: find_open_def usable_run)
qed

text \<open>The same open change cannot be added twice: the partial unique index refuses it.\<close>

lemma open_change_not_added_twice:
  assumes "c \<in> set (t_changes (work s))" "ch_state c = OPEN"
    "ch_source d = ch_source c" "ch_fingerprint d = ch_fingerprint c" "ch_state d = OPEN"
  shows "\<exists>e s'. add_change d s = (Inl e, s') \<and> poisoned s' \<and> durable s' = durable s"
proof (rule change_store.add_refused)
  have "(ch_source d, ch_fingerprint d) \<in> (\<lambda>c. (ch_source c, ch_fingerprint c)) ` {x \<in> set (t_changes (work s)). ch_state x = OPEN}"
    using assms by (auto intro: image_eqI [where x = c])
  then have "\<not> change_constraints ((work s)\<lparr>t_changes := t_changes (work s) @ [d]\<rparr>)"
    using assms(5) by (simp add: change_constraints_def unique_on_def)
  then show "\<not> usable (s\<lparr>work := (work s)\<lparr>t_changes := t_changes (work s) @ [d]\<rparr>\<rparr>)"
    by (simp add: usable_def integrity_ok_def)
qed

text \<open>\<open>latest_for_source\<close> finds a scan of the source that none started after, if there is a scan.\<close>

lemma latest_for_source_exact:
  assumes "usable s"
  shows "\<exists>r. latest_for_source i s = (Inr r, s) \<and>
    (case r of
       None \<Rightarrow> \<forall>x \<in> set (t_scans (work s)). sc_source x \<noteq> i
     | Some x \<Rightarrow> x \<in> set (t_scans (work s)) \<and> sc_source x = i \<and>
         (\<forall>y \<in> set (t_scans (work s)). sc_source y = i \<longrightarrow> sc_started y \<le> sc_started x))"
proof -
  let ?l = "sort_key (\<lambda>r. - sc_started r) (filter (\<lambda>r. sc_source r = i) (t_scans (work s)))"
  have mem: "x \<in> set ?l \<longleftrightarrow> x \<in> set (t_scans (work s)) \<and> sc_source x = i" for x
    by simp
  have first: "?l = a # l \<Longrightarrow> y \<in> set ?l \<Longrightarrow> sc_started y \<le> sc_started a" for a l y
    using sorted_sort_key [of "\<lambda>r. - sc_started r" "filter (\<lambda>r. sc_source r = i) (t_scans (work s))"]
    by (auto simp del: sorted_sort_key set_sort)
  have "case latest_of_source i (work s) of
       None \<Rightarrow> \<forall>x \<in> set (t_scans (work s)). sc_source x \<noteq> i
     | Some x \<Rightarrow> x \<in> set (t_scans (work s)) \<and> sc_source x = i \<and>
         (\<forall>y \<in> set (t_scans (work s)). sc_source y = i \<longrightarrow> sc_started y \<le> sc_started x)"
  proof (cases ?l)
    case Nil
    then show ?thesis
      using mem by (auto simp: latest_of_source_def simp del: set_sort)
  next
    case (Cons a l)
    have "a \<in> set ?l"
      by (simp only: Cons list.set_intros)
    then show ?thesis
      using mem first [OF Cons] by (simp only: latest_of_source_def Cons list.case option.case) auto
  qed
  then show ?thesis
    using assms by (simp add: latest_for_source_def usable_run)
qed

end
