(* ===== verification/Baseline.thy ===== *)
theory Baseline
  imports Acceptance "HOL-Library.Multiset"
begin

text \<open>
  The first scan of a source: \<open>complete_initial_baseline\<close> of \<open>repositories/scans.py\<close> stores the collected
  columns so that \<open>load_expected_columns\<close> reads them back, and the next scan of the same schema finds nothing.
\<close>

section \<open>Storing the columns\<close>

text \<open>The dictionary of datasets holds rows of the source under their names.\<close>

definition registered_in :: "source_row \<Rightarrow> (dataset_ref \<times> dataset_row) list \<Rightarrow> tables \<Rightarrow> bool" where
  "registered_in source ds t \<longleftrightarrow>
     (\<forall>k d. map_of ds k = Some d \<longrightarrow> d \<in> set (t_datasets t) \<and> ds_source d = src_id source \<and> row_ref d = k)"

text \<open>The rows that store a column, and those that store a list of columns.\<close>

definition stored_as :: "source_row \<Rightarrow> tables \<Rightarrow> column_definition \<Rightarrow> expected_row \<Rightarrow> bool" where
  "stored_as source t column r \<longleftrightarrow>
     (\<exists>d i. d \<in> set (t_datasets t) \<and> ds_source d = src_id source \<and> row_ref d = col_dataset column \<and>
        r = expected_row_of d i column)"

lemma stored_as_mono:
  "stored_as source t column r \<Longrightarrow> set (t_datasets t) \<subseteq> set (t_datasets t') \<Longrightarrow> stored_as source t' column r"
  unfolding stored_as_def by blast

lemma store_expected_Inr:
  assumes "store_expected source column ds s = (Inr ds', s')" and "registered_in source ds (work s)"
  obtains r where "t_expected (work s') = t_expected (work s) @ [r]" and "stored_as source (work s') column r"
    and "registered_in source ds' (work s')" and "set (t_datasets (work s)) \<subseteq> set (t_datasets (work s'))"
    and "t_sources (work s') = t_sources (work s)" and "t_scans (work s') = t_scans (work s)"
proof (cases "map_of ds (col_dataset column)")
  case (Some d)
  then have "s' = s\<lparr>id_supply := Suc (id_supply s), work := (work s)\<lparr>t_expected := t_expected (work s) @
      [expected_row_of d (id_supply s) column]\<rparr>\<rparr>" "ds' = ds"
    using assms(1) by (auto simp: store_expected_def dataset_for_def action_simps)
  then show thesis
    using assms(2) Some by (intro that [of "expected_row_of d (id_supply s) column"]) (auto simp: registered_in_def stored_as_def)
next
  case None
  define d where "d = \<lparr>ds_id = id_supply s, ds_source = src_id source, ds_schema = ref_schema (col_dataset column),
    ds_table = ref_table (col_dataset column), ds_owner = None, ds_description = None\<rparr>"
  have ref: "row_ref d = col_dataset column" by (cases "col_dataset column") (simp add: row_ref_def d_def)
  have "work s' = (work s)\<lparr>t_datasets := t_datasets (work s) @ [d],
      t_expected := t_expected (work s) @ [expected_row_of d (Suc (id_supply s)) column]\<rparr>"
    "ds' = AList.update (col_dataset column) d ds"
    using assms(1) None by (auto simp: store_expected_def dataset_for_def Let_def action_simps d_def)
  then show thesis
    using assms(2) ref
    by (intro that [of "expected_row_of d (Suc (id_supply s)) column"])
      (auto simp: registered_in_def stored_as_def update_conv' d_def split: if_splits)
qed

lemma store_all_Inr:
  assumes "forA columns ds (store_expected source) s = (Inr ds', s')" and "registered_in source ds (work s)"
  obtains rows where "t_expected (work s') = t_expected (work s) @ rows"
    and "list_all2 (stored_as source (work s')) columns rows" and "set (t_datasets (work s)) \<subseteq> set (t_datasets (work s'))"
    and "t_sources (work s') = t_sources (work s)" and "t_scans (work s') = t_scans (work s)"
  using assms
proof (induction columns arbitrary: ds s thesis)
  case (Cons column columns)
  obtain ds1 s1 where one: "store_expected source column ds s = (Inr ds1, s1)"
    and rest: "forA columns ds1 (store_expected source) s1 = (Inr ds', s')"
    using Cons.prems(2) by (auto simp: bindA_eq_Inr)
  obtain r where r: "t_expected (work s1) = t_expected (work s) @ [r]" "stored_as source (work s1) column r"
    "registered_in source ds1 (work s1)" "set (t_datasets (work s)) \<subseteq> set (t_datasets (work s1))"
    "t_sources (work s1) = t_sources (work s)" "t_scans (work s1) = t_scans (work s)"
    by (rule store_expected_Inr [OF one Cons.prems(3)])
  obtain rows where rows: "t_expected (work s') = t_expected (work s1) @ rows"
    "list_all2 (stored_as source (work s')) columns rows" "set (t_datasets (work s1)) \<subseteq> set (t_datasets (work s'))"
    "t_sources (work s') = t_sources (work s1)" "t_scans (work s') = t_scans (work s1)"
    by (rule Cons.IH [OF _ rest r(3)])
  show ?case
    using r rows stored_as_mono [OF r(2) rows(3)] by (intro Cons.prems(1) [of "r # rows"]) auto
qed (auto simp: returnA_def)

lemma complete_initial_baseline_Inr:
  assumes "complete_initial_baseline i key observed f s = (Inr (), s')"
    and "List.find (\<lambda>r. src_key r = key) (t_sources (work s)) = Some source"
  obtains rows where "t_expected (work s') = t_expected (work s) @ rows"
    and "list_all2 (stored_as source (work s')) observed rows" and "set (t_datasets (work s)) \<subseteq> set (t_datasets (work s'))"
    and "t_sources (work s') = t_sources (work s)" and "usable s'"
proof -
  obtain scan ds ds' s1 where ds: "datasets_by_ref (src_id source) s = (Inr ds, s)"
    and loop: "forA observed ds (store_expected source) s = (Inr ds', s1)"
    and last: "t_expected (work s') = t_expected (work s1)" "t_datasets (work s') = t_datasets (work s1)"
      "t_sources (work s') = t_sources (work s1)" "usable s'"
    using assms
    by (auto simp: complete_initial_baseline_def action_simps datasets_by_ref_def persist_observations_run complete_scan_def usable_def)
  have "registered_in source ds (work s)"
    using ds datasets_by_ref_map_of unfolding registered_in_def by (auto simp: datasets_by_ref_def query_eq_Inr)
  then obtain rows where rows: "t_expected (work s1) = t_expected (work s) @ rows"
    "list_all2 (stored_as source (work s1)) observed rows" "set (t_datasets (work s)) \<subseteq> set (t_datasets (work s1))"
    "t_sources (work s1) = t_sources (work s)"
    by (rule store_all_Inr [OF loop])
  show thesis
    using rows last by (intro that [of rows]) (simp_all add: stored_as_def [abs_def])
qed

section \<open>Reading them back\<close>

lemma filter_unique:
  assumes "unique_on f xs" and "x \<in> set xs" and "P x" and "\<And>y. y \<in> set xs \<Longrightarrow> P y \<Longrightarrow> f y = f x"
  shows "filter P xs = [x]"
proof -
  have "P y \<longleftrightarrow> y = x" if "y \<in> set xs" for y
    using assms(3) assms(4) [OF that] unique_onD [OF assms(1) that assms(2)] by blast
  then have "filter P xs = filter (\<lambda>y. y = x) xs"
    by (rule filter_cong [OF refl])
  moreover have "filter (\<lambda>y. y = x) ys = [x]" if "distinct ys" "x \<in> set ys" for ys
    using that by (induction ys) (auto simp: filter_empty_conv)
  ultimately show ?thesis
    using assms(1,2) by (simp add: unique_on_def distinct_map)
qed

lemma column_of_expected_row:
  "row_ref d = col_dataset column \<Longrightarrow> column_of_row (expected_row_of d i column, d) = Inr column"
  by (cases column) (simp add: column_of_row_def expected_row_of_def)

definition joined_rows :: "uuid \<Rightarrow> dataset_row list \<Rightarrow> expected_row list \<Rightarrow> (expected_row \<times> dataset_row) list" where
  "joined_rows sid ds rows = [(c, d). c \<leftarrow> rows, d \<leftarrow> ds, ex_dataset c = ds_id d \<and> ds_source d = sid]"

lemma joined_rows_Cons:
  "joined_rows sid ds (c # rows) = map (Pair c) (filter (\<lambda>d. ex_dataset c = ds_id d \<and> ds_source d = sid) ds) @ joined_rows sid ds rows"
  by (induction ds) (simp_all add: joined_rows_def)

lemma set_joined_rows:
  "(c, d) \<in> set (joined_rows sid ds rows) \<longleftrightarrow> c \<in> set rows \<and> d \<in> set ds \<and> ex_dataset c = ds_id d \<and> ds_source d = sid"
  by (auto simp: joined_rows_def)

lemma joined_rows_columns:
  assumes "list_all2 (stored_as source t) columns rows" and "unique_on ds_id (t_datasets t)"
  shows "map column_of_row (joined_rows (src_id source) (t_datasets t) rows) = map Inr columns"
  using assms(1)
proof (induction rule: list_all2_induct)
  case (Cons column columns r rows)
  obtain d i where d: "d \<in> set (t_datasets t)" "ds_source d = src_id source" "row_ref d = col_dataset column"
    and r: "r = expected_row_of d i column"
    using Cons.hyps(1) unfolding stored_as_def by blast
  have "filter (\<lambda>d'. ex_dataset r = ds_id d' \<and> ds_source d' = src_id source) (t_datasets t) = [d]"
    by (rule filter_unique [OF assms(2) d(1)]) (simp_all add: r expected_row_of_def d(2))
  then show ?case
    using Cons.IH column_of_expected_row [OF d(3)] by (simp add: joined_rows_Cons r)
qed (simp add: joined_rows_def)

lemma expected_rows_joined:
  "expected_rows collate sid t = sort_key (\<lambda>(c, d). (collate (ds_schema d), collate (ds_table d), ex_ordinal c))
     (joined_rows sid (t_datasets t) (t_expected t))"
  by (simp add: expected_rows_def joined_rows_def)

lemma all_Inr: "\<forall>x \<in> set xs. \<not> isl (f x) \<Longrightarrow> map f xs = map Inr (map (\<lambda>x. projr (f x)) xs)"
  by (simp add: list.map_comp comp_def)

lemma columns_sorted:
  assumes "map column_of_row xs = map Inr columns"
  shows "\<exists>columns'. mapR column_of_row (sort_key k xs) = Inr columns' \<and> mset columns' = mset columns"
proof (intro exI conjI)
  let ?columns' = "map (\<lambda>x. projr (column_of_row x)) (sort_key k xs)"
  have "\<not> isl (column_of_row x)" if "x \<in> set xs" for x
  proof -
    have "column_of_row x \<in> set (map column_of_row xs)" using that by simp
    then show ?thesis unfolding assms by auto
  qed
  then show "mapR column_of_row (sort_key k xs) = Inr ?columns'"
    unfolding mapR_map by (intro all_Inr) simp
  have "mset ?columns' = image_mset projr (mset (map column_of_row xs))"
    by (simp add: multiset.map_comp comp_def)
  then show "mset ?columns' = mset columns"
    unfolding assms by (simp add: multiset.map_comp comp_def)
qed

lemma stored_columns_distinct:
  assumes "list_all2 (stored_as source t) columns rows" and "unique_on (\<lambda>e. (ex_dataset e, ex_name e)) rows"
    and "unique_on (\<lambda>d. (ds_source d, ds_schema d, ds_table d)) (t_datasets t)"
  shows "distinct (map col_ref columns)"
  unfolding distinct_conv_nth length_map
proof (intro allI impI)
  fix i j
  assume i: "i < length columns" and j: "j < length columns" and neq: "i \<noteq> j"
  have len: "length rows = length columns" using assms(1) by (simp add: list_all2_lengthD)
  obtain d x where d: "d \<in> set (t_datasets t)" "ds_source d = src_id source" "row_ref d = col_dataset (columns ! i)"
    "rows ! i = expected_row_of d x (columns ! i)"
    using list_all2_nthD [OF assms(1) i] unfolding stored_as_def by blast
  obtain e y where e: "e \<in> set (t_datasets t)" "ds_source e = src_id source" "row_ref e = col_dataset (columns ! j)"
    "rows ! j = expected_row_of e y (columns ! j)"
    using list_all2_nthD [OF assms(1) j] unfolding stored_as_def by blast
  show "map col_ref columns ! i \<noteq> map col_ref columns ! j"
  proof
    assume "map col_ref columns ! i = map col_ref columns ! j"
    then have same: "col_dataset (columns ! i) = col_dataset (columns ! j)" "col_name (columns ! i) = col_name (columns ! j)"
      using i j by (simp_all add: col_ref_def)
    then have "d = e"
      using d(2,3) e(2,3) unique_onD [OF assms(3) d(1) e(1)] by (simp add: row_ref_eq [symmetric])
    then have "(ex_dataset (rows ! i), ex_name (rows ! i)) = (ex_dataset (rows ! j), ex_name (rows ! j))"
      using d(4) e(4) same(2) by (simp add: expected_row_of_def)
    then show False
      using assms(2) i j neq len unfolding unique_on_def distinct_conv_nth by auto
  qed
qed

section \<open>The first scan and the next\<close>

lemma scan_body_initial:
  assumes "scan_body (sql_scan_repository env) collect f key trigger i s = (Inr report, s')"
    and "report_baseline_created report"
  obtains observed where "collect key = Inr observed" and "observed \<noteq> []"
    and "load_expected_columns (env_collate env) key s = (Inr [], s)"
    and "complete_initial_baseline i key observed f s = (Inr (), s')"
proof -
  obtain observed where c: "collect key = Inr observed" "observed \<noteq> []"
    using assms by (auto simp: scan_body_def action_simps split: if_splits)
  obtain expected s1 where e: "load_expected_columns (env_collate env) key s = (Inr expected, s1)"
    using assms c by (auto simp: scan_body_def action_simps sql_scan_repository_def)
  then have "s1 = s" using reads_return by blast
  moreover have "expected = []"
    using assms c e by (auto simp: scan_body_def action_simps sql_scan_repository_def split: if_splits)
  ultimately show thesis
    using assms c e by (intro that [of observed]) (auto simp: scan_body_def action_simps sql_scan_repository_def)
qed

lemma nothing_joined_before:
  assumes "usable s" and "expected_rows collate sid (work s) = []" and "set (t_datasets (work s)) \<subseteq> set (t_datasets t)"
    and "unique_on ds_id (t_datasets t)"
  shows "joined_rows sid (t_datasets t) (t_expected (work s)) = []"
proof (rule ccontr)
  assume "joined_rows sid (t_datasets t) (t_expected (work s)) \<noteq> []"
  then obtain c d where cd: "(c, d) \<in> set (joined_rows sid (t_datasets t) (t_expected (work s)))"
    by (metis list.set_intros(1) neq_Nil_conv surj_pair)
  then have c: "c \<in> set (t_expected (work s))" "d \<in> set (t_datasets t)" "ex_dataset c = ds_id d" "ds_source d = sid"
    by (simp_all add: set_joined_rows)
  have "refer_to ex_dataset (t_expected (work s)) (map ds_id (t_datasets (work s)))"
    using assms(1) by (simp add: usable_def integrity_ok_def catalog_constraints_def)
  then obtain d0 where d0: "d0 \<in> set (t_datasets (work s))" "ds_id d0 = ex_dataset c"
    using c(1) by (auto simp: refer_to_def list_all_iff)
  then have "d0 = d" using unique_onD [OF assms(4) _ c(2), of d0] assms(3) c(3) by auto
  then have "(c, d) \<in> set (joined_rows sid (t_datasets (work s)) (t_expected (work s)))"
    using c d0 by (simp add: set_joined_rows)
  moreover have "set (expected_rows collate sid (work s)) = set (joined_rows sid (t_datasets (work s)) (t_expected (work s)))"
    by (simp add: expected_rows_joined)
  ultimately show False using assms(2) by simp
qed

lemma joined_rows_append: "joined_rows sid ds (xs @ ys) = joined_rows sid ds xs @ joined_rows sid ds ys"
  by (simp add: joined_rows_def)

lemma baseline_stored:
  assumes "run_scan (sql_scan_repository env) collect f g key trigger s = (Inr report, s')"
    and "report_baseline_created report"
  obtains observed source where "collect key = Inr observed" and "observed \<noteq> []" and "distinct (map col_ref observed)"
    and "List.find (\<lambda>r. src_key r = key) (t_sources (work s')) = Some source" and "usable s'"
    and "\<And>collate. \<exists>expected. mapR column_of_row (expected_rows collate (src_id source) (work s')) = Inr expected \<and>
      mset expected = mset observed"
proof -
  obtain i s2 where b: "scan_body (sql_scan_repository env) collect f key trigger i s2 = (Inr report, s')"
    and u: "usable s2"
    by (rule run_scan_Inr [OF assms(1)])
  obtain observed where c: "collect key = Inr observed" "observed \<noteq> []"
    and e: "load_expected_columns (env_collate env) key s2 = (Inr [], s2)"
    and init: "complete_initial_baseline i key observed f s2 = (Inr (), s')"
    by (rule scan_body_initial [OF b assms(2)])
  obtain source where src: "List.find (\<lambda>r. src_key r = key) (t_sources (work s2)) = Some source"
    and none: "expected_rows (env_collate env) (src_id source) (work s2) = []"
    using e by (auto simp: load_expected_Inr mapR_map)
  obtain rows where rows: "t_expected (work s') = t_expected (work s2) @ rows"
    "list_all2 (stored_as source (work s')) observed rows" "set (t_datasets (work s2)) \<subseteq> set (t_datasets (work s'))"
    "t_sources (work s') = t_sources (work s2)" "usable s'"
    by (rule complete_initial_baseline_Inr [OF init src])
  have unique: "unique_on ds_id (t_datasets (work s'))"
    "unique_on (\<lambda>d. (ds_source d, ds_schema d, ds_table d)) (t_datasets (work s'))"
    "unique_on (\<lambda>e. (ex_dataset e, ex_name e)) rows"
    using rows(1,5) by (simp_all add: usable_def integrity_ok_def catalog_constraints_def unique_on_def)
  have "joined_rows (src_id source) (t_datasets (work s')) (t_expected (work s')) =
      joined_rows (src_id source) (t_datasets (work s')) rows"
    using nothing_joined_before [OF u none rows(3) unique(1)] by (simp add: rows(1) joined_rows_append)
  then have "\<exists>expected. mapR column_of_row (expected_rows collate (src_id source) (work s')) = Inr expected \<and>
      mset expected = mset observed" for collate
    unfolding expected_rows_joined using columns_sorted [OF joined_rows_columns [OF rows(2) unique(1)]] by simp
  then show thesis
    using that c src rows(4,5) stored_columns_distinct [OF rows(2) unique(3,2)] by simp
qed

lemma same_columns_consistent:
  assumes "mset xs = mset ys" and "distinct (map col_ref ys)"
  shows "diff_columns xs ys deps = Inr []"
proof -
  have "mset ys = mset xs" using assms(1) by simp
  from latest_cong [OF assms(2) this] show ?thesis by (simp add: consistent_iff_same_shape)
qed

text \<open>C8. The baseline is a round trip: what the first scan of a source stores is read back as the columns that
  were collected, and the next scan that returns, if it collects the same columns in whatever order, finds the
  baseline there, reports no change, and leaves no change of the source open.\<close>

theorem baseline_roundtrip:
  assumes "run_scan (sql_scan_repository env) collect f g key trigger s = (Inr report, s1)"
    and "report_baseline_created report" and "collect key = Inr observed"
    and "run_scan (sql_scan_repository env') collect' f' g' key trigger' s1 = (Inr report', s2)"
    and "collect' key = Inr observed'" and "mset observed' = mset observed"
  shows "\<exists>source. List.find (\<lambda>r. src_key r = key) (t_sources (work s1)) = Some source \<and>
    (\<exists>expected. mapR column_of_row (expected_rows (env_collate env') (src_id source) (work s1)) = Inr expected \<and>
       mset expected = mset observed) \<and>
    \<not> report_baseline_created report' \<and> report_changes report' = [] \<and> open_fingerprints (src_id source) (work s2) = {}"
proof -
  obtain source where c: "observed \<noteq> []" "distinct (map col_ref observed)"
    and src: "List.find (\<lambda>r. src_key r = key) (t_sources (work s1)) = Some source"
    and read: "\<And>collate. \<exists>expected. mapR column_of_row (expected_rows collate (src_id source) (work s1)) = Inr expected \<and>
      mset expected = mset observed"
    using baseline_stored [OF assms(1,2)] assms(3) by (metis sum.inject(2))
  obtain expected where e: "mapR column_of_row (expected_rows (env_collate env') (src_id source) (work s1)) = Inr expected"
    "mset expected = mset observed" using read by blast
  obtain i t scan where b: "scan_body (sql_scan_repository env') collect' f' key trigger' i t = (Inr report', s2)"
    and w: "work t = (work s1)\<lparr>t_scans := t_scans (work s1) @ [scan]\<rparr>" and u: "usable t"
    by (rule run_scan_Inr [OF assms(4)])
  have loads: "load_expected_columns (env_collate env') key t = (Inr expected, t)"
    using u src e(1) by (simp add: load_expected_Inr w expected_rows_def)
  have created: "\<not> report_baseline_created report'"
  proof
    assume "report_baseline_created report'"
    then have "load_expected_columns (env_collate env') key t = (Inr [], t)"
      by (rule scan_body_initial [OF b])
    then show False using loads e(2) c(1) by simp
  qed
  then obtain observed2 expected2 deps where "collect' key = Inr observed2"
    and "load_expected_columns (env_collate env') key t = (Inr expected2, t)"
    and diff: "diff_columns expected2 observed2 deps = Inr (report_changes report')"
    and drift: "complete_drift_scan (env_channels env') (env_now env') i key observed2 (report_changes report') f' t = (Inr (), s2)"
    by (rule scan_body_drift [OF b])
  then have "observed2 = observed'" "expected2 = expected" using loads assms(5) by simp_all
  moreover have "distinct (map col_ref observed')"
    using c(2) assms(6) by (metis distinct_count_atmost_1 mset_map set_mset_mset)
  ultimately have none: "report_changes report' = []"
    using diff same_columns_consistent [of expected observed' deps] e(2) assms(6) by simp
  have "open_fingerprints (src_id source) (work s2) = {}"
    using drift_scan_opens [OF drift, of source] src by (simp add: w none)
  then show ?thesis using src e created none by blast
qed

section \<open>An example\<close>

definition first_session :: session where
  "first_session = fresh_session (no_tables\<lparr>t_sources := [sample_source]\<rparr>) 10"

definition first_scan :: "scan_status \<Rightarrow> scan_row" where
  "first_scan st = \<lparr>sc_id = 10, sc_source = 0, sc_trigger = MANUAL, sc_status = st, sc_started = 0,
     sc_finished = (if st = RUNNING then None else Some 0), sc_duration = (if st = RUNNING then None else Some 0),
     sc_error_code = None, sc_error_message = None\<rparr>"

definition first_running :: session where
  "first_running = first_session\<lparr>work := no_tables\<lparr>t_sources := [sample_source], t_scans := [first_scan RUNNING]\<rparr>, id_supply := 11\<rparr>"

definition first_dataset :: dataset_row where
  "first_dataset = \<lparr>ds_id = 11, ds_source = 0, ds_schema = ''public'', ds_table = ''orders'', ds_owner = None, ds_description = None\<rparr>"

definition first_after :: session where
  "first_after = first_session\<lparr>work := no_tables\<lparr>t_sources := [sample_source], t_scans := [first_scan COMPLETED],
     t_datasets := [first_dataset], t_expected := [expected_row_of first_dataset 12 (sample_column ''id'' ''bigint'' False)],
     t_observed := [observed_row_of (first_scan RUNNING) 13 (sample_column ''id'' ''bigint'' False)]\<rparr>, id_supply := 14\<rparr>"

lemmas first_defs = first_session_def first_running_def first_after_def first_scan_def first_dataset_def fresh_session_def no_tables_def
  sample_source_def constraint_defs at_most_def [of 63] at_most_def [of 100] at_most_def [of 200] at_most_def [of 1000] int32_def

lemma first_usable: "usable first_session" "usable first_running" "usable first_after"
  by (simp_all add: usable_def first_defs expected_row_of_def observed_row_of_def sample_observed)

lemma first_initial:
  "complete_initial_baseline 10 ''warehouse'' [sample_column ''id'' ''bigint'' False] 0 first_running = (Inr (), first_after)"
  by (simp add: complete_initial_baseline_def store_expected_def dataset_for_def Let_def run_defs first_defs expected_row_of_def
      observed_row_of_def sample_observed)

lemma first_run:
  "run_scan (sql_scan_repository sample_env) (sample_collect False) 0 0 ''warehouse'' MANUAL first_session =
    (Inr \<lparr>report_scan_id = 10, report_source_key = ''warehouse'', report_trigger = MANUAL,
          report_baseline_created = True, report_observed_count = 1, report_changes = []\<rparr>, first_after)"
proof -
  let ?repo = "sql_scan_repository sample_env"
  have lock: "op_try_lock ?repo ''warehouse'' first_session = (Inr True, first_session)"
    by (simp add: sql_scan_repository_def sample_env_def try_source_lock_def usable_run first_usable)
  have create: "op_create ?repo ''warehouse'' MANUAL first_session = (Inr 10, first_running)"
    by (simp add: sql_scan_repository_def sample_env_def create_running_scan_def run_defs first_defs)
  have "load_expected_columns id ''warehouse'' first_running = (Inr [], first_running)"
    by (simp add: load_expected_Inr first_usable) (simp add: first_defs expected_rows_def)
  then have body: "scan_body ?repo (sample_collect False) 0 ''warehouse'' MANUAL 10 first_running =
      (Inr \<lparr>report_scan_id = 10, report_source_key = ''warehouse'', report_trigger = MANUAL,
          report_baseline_created = True, report_observed_count = 1, report_changes = []\<rparr>, first_after)"
    by (simp add: scan_body_def sample_collect_def bindA_def thenA_def sql_scan_repository_def sample_env_def first_initial)
  show ?thesis by (simp add: run_scan_def bindA_def lock create exceptA_def body)
qed

lemma second_run:
  obtains report s where
    "run_scan (sql_scan_repository sample_env) (sample_collect False) 0 0 ''warehouse'' MANUAL first_after = (Inr report, s)"
proof -
  let ?repo = "sql_scan_repository sample_env" and ?c = "sample_column ''id'' ''bigint'' False"
  let ?scan = "\<lparr>sc_id = 14, sc_source = 0, sc_trigger = MANUAL, sc_status = RUNNING, sc_started = 0, sc_finished = None,
    sc_duration = None, sc_error_code = None, sc_error_message = None\<rparr>"
  let ?s = "first_after\<lparr>work := (work first_after)\<lparr>t_scans := t_scans (work first_after) @ [?scan]\<rparr>, id_supply := 15\<rparr>"
  have lock: "op_try_lock ?repo ''warehouse'' first_after = (Inr True, first_after)"
    by (simp add: sql_scan_repository_def sample_env_def try_source_lock_def usable_run first_usable)
  have create: "op_create ?repo ''warehouse'' MANUAL first_after = (Inr 14, ?s)"
    by (simp add: sql_scan_repository_def sample_env_def create_running_scan_def run_defs first_defs expected_row_of_def
        observed_row_of_def sample_observed)
  have u: "usable ?s"
    by (simp add: usable_def first_defs expected_row_of_def observed_row_of_def sample_observed)
  have reads: "op_expected ?repo ''warehouse'' ?s = (Inr [?c], ?s)" "op_dependencies ?repo ''warehouse'' ?s = (Inr [], ?s)"
    using u by (simp_all add: sql_scan_repository_def sample_env_def load_expected_Inr load_dependencies_Inr)
      (simp_all add: first_defs expected_rows_def dependency_rows_def column_of_row_def row_ref_def expected_row_of_def sample_column_def)
  have diff: "diff_columns [?c] [?c] [] = Inr []" by (rule same_columns_consistent) simp_all
  obtain s where "complete_drift_scan [SLACK] 0 14 ''warehouse'' [?c] [] 0 ?s = (Inr (), s)"
    by (simp add: complete_drift_scan_def run_defs first_defs expected_row_of_def observed_row_of_def sample_observed)
  then have "op_drift ?repo 14 ''warehouse'' [?c] [] 0 ?s = (Inr (), s)" by (simp add: sql_scan_repository_def sample_env_def)
  then have "\<exists>report. scan_body ?repo (sample_collect False) 0 ''warehouse'' MANUAL 14 ?s = (Inr report, s)"
    by (simp add: scan_body_def sample_collect_def bindA_def thenA_def reads diff)
  then obtain report where "scan_body ?repo (sample_collect False) 0 ''warehouse'' MANUAL 14 ?s = (Inr report, s)" ..
  then show thesis by (intro that [of report s]) (simp add: run_scan_def bindA_def lock create exceptA_def)
qed

theorem baseline_roundtrip_witness:
  "\<exists>report s. run_scan (sql_scan_repository sample_env) (sample_collect False) 0 0 ''warehouse'' MANUAL first_after = (Inr report, s)
     \<and> report_changes report = []"
proof -
  obtain report s where second:
    "run_scan (sql_scan_repository sample_env) (sample_collect False) 0 0 ''warehouse'' MANUAL first_after = (Inr report, s)"
    by (rule second_run)
  from baseline_roundtrip [OF first_run _ _ second] have "report_changes report = []" by (auto simp: sample_collect_def)
  then show ?thesis using second by blast
qed

end
