(* ===== verification/Unblocking.thy ===== *)
theory Unblocking
  imports Acceptance Validation
begin

text \<open>
  How a blocked pipeline becomes safe again: accepting a change (\<open>change_service.py\<close>) takes exactly that change
  away from what blocks the pipelines (\<open>validation_service.py\<close>).
\<close>

lemma accepted_rows:
  assumes "accept (sql_change_repository now) c v s = (Inr r, s')"
  shows "t_changes (work s') = update_where (\<lambda>r. ch_id r = c) (mark_accepted now) (t_changes (work s))"
    and "t_datasets (work s') = t_datasets (work s)" and "t_pipelines (work s') = t_pipelines (work s)"
    and "stored_edges (work s') = stored_edges (work s)" and "usable s" and "usable s'"
proof -
  obtain chg source where chg: "find_open_change c (work s) = Some chg" and applied: "apply_change now source chg s = (Inr (v + 1), s')"
    by (rule accept_Inr [OF assms])
  have "ch_id chg = c" using chg by (auto simp: find_open_change_def find_Some_iff)
  then show "t_changes (work s') = update_where (\<lambda>r. ch_id r = c) (mark_accepted now) (t_changes (work s))"
    "t_datasets (work s') = t_datasets (work s)" "t_pipelines (work s') = t_pipelines (work s)"
    "stored_edges (work s') = stored_edges (work s)" "usable s" "usable s'"
    by (auto intro: apply_change_Inr [OF applied] simp: stored_edges_def)
qed

lemma still_open:
  "b \<in> set (update_where (\<lambda>r. ch_id r = c) (mark_accepted now) rows) \<and> ch_state b = OPEN \<longleftrightarrow>
     b \<in> set rows \<and> ch_state b = OPEN \<and> ch_id b \<noteq> c"
proof -
  have "set (update_where P f rows) = f ` {r \<in> set rows. P r} \<union> {r \<in> set rows. \<not> P r}" for P f
    by (auto simp: update_where_def)
  moreover have "ch_state (mark_accepted now r) \<noteq> OPEN" for r by (simp add: mark_accepted_def)
  ultimately show ?thesis by auto
qed

lemma accepted_blocks:
  assumes "accept (sql_change_repository now) c v s = (Inr r, s')"
  shows "blocks_pipeline (work s') key b d \<longleftrightarrow> blocks_pipeline (work s) key b d \<and> ch_id b \<noteq> c"
  using still_open [of b c now "t_changes (work s)"] unfolding blocks_pipeline_def accepted_rows [OF assms] by argo

lemma blocking_ids:
  assumes "validate_pipeline sql_validation_repository key s = (Inr v, s')"
  shows "blocking_id ` set (validation_blocking v) = {ch_id c | c d. blocks_pipeline (work s) key c d}"
    and "validation_safe v \<longleftrightarrow> blocking_id ` set (validation_blocking v) = {}"
proof -
  have rows: "set (validation_blocking v) = blocking_of ` {(c, d). blocks_pipeline (work s) key c d}"
    using sql_validation.validation_returns [OF assms] by (simp add: image_Collect case_prod_unfold)
  have "blocking_id ` set (validation_blocking v) = (\<lambda>(c, d). ch_id c) ` {(c, d). blocks_pipeline (work s) key c d}"
    unfolding rows image_image by (intro image_cong refl) (auto simp: blocking_of_def)
  then show "blocking_id ` set (validation_blocking v) = {ch_id c | c d. blocks_pipeline (work s) key c d}"
    by auto
  show "validation_safe v \<longleftrightarrow> blocking_id ` set (validation_blocking v) = {}"
    using sql_validation.validation_returns [OF assms] by simp
qed

text \<open>C7. Accepting a change unblocks: for every pipeline, validation returns before and after the acceptance, and
  the blocking changes afterwards are those from before without the accepted one. So a pipeline becomes safe by
  the acceptance exactly if nothing else blocked it.\<close>

theorem accepted_change_unblocks:
  assumes "accept (sql_change_repository now) c v s = (Inr r, s')" and "p \<in> set (t_pipelines (work s))"
  shows "\<exists>x y. validate_pipeline sql_validation_repository (pl_key p) s = (Inr x, s) \<and>
    validate_pipeline sql_validation_repository (pl_key p) s' = (Inr y, s') \<and>
    blocking_id ` set (validation_blocking y) = blocking_id ` set (validation_blocking x) - {c} \<and>
    (validation_safe y \<longleftrightarrow> blocking_id ` set (validation_blocking x) \<subseteq> {c})"
proof -
  obtain x where x: "validate_pipeline sql_validation_repository (pl_key p) s = (Inr x, s)"
    using validation_total [OF accepted_rows(5) [OF assms(1)] assms(2)] ..
  obtain y where y: "validate_pipeline sql_validation_repository (pl_key p) s' = (Inr y, s')"
    using validation_total [OF accepted_rows(6) [OF assms(1)], of p] assms(2) unfolding accepted_rows(3) [OF assms(1)] by blast
  have ids: "blocking_id ` set (validation_blocking y) = blocking_id ` set (validation_blocking x) - {c}"
    unfolding blocking_ids(1) [OF x] blocking_ids(1) [OF y] accepted_blocks [OF assms(1)] by blast
  have "validation_safe y \<longleftrightarrow> blocking_id ` set (validation_blocking x) \<subseteq> {c}"
    unfolding blocking_ids(2) [OF y] ids by (rule Diff_eq_empty_iff)
  then show ?thesis using x y ids by (intro exI conjI)
qed

section \<open>An example\<close>

text \<open>The sample source after a scan that dropped a column the pipeline reads, and the acceptance of the drop.\<close>

definition blocked_session :: session where
  "blocked_session = fresh_session ((work sample_after)\<lparr>t_pipelines := [sample_pipeline], t_edges := [sample_edge_row]\<rparr>) 30"

lemmas blocked_defs = blocked_session_def sample_after_def sample_defs sample_pipeline_def sample_edge_row_def change_row_of_def

lemmas short_names = at_most_def [of 63] at_most_def [of 100] at_most_def [of 200] at_most_def [of 250] int32_def

lemma blocked_usable: "usable blocked_session"
  by (simp add: usable_def blocked_defs constraint_defs short_names delivery_row_of_def)

lemma blocked_apply: "\<exists>s'. apply_change 0 sample_source sample_row blocked_session = (Inr 2, s')"
proof -
  let ?e = "hd (t_expected sample_tables)"
  have find: "query (find_expected sample_row) blocked_session = (Inr (Some ?e), blocked_session)"
    by (simp add: usable_run(2) [OF blocked_usable]) (simp add: find_expected_def blocked_defs)
  have kind: "ch_kind sample_row = DROP_COLUMN" by (simp add: change_row_of_def sample_drop_def Let_def)
  have id: "ch_id sample_row = 10" by (simp add: change_row_of_def)
  show ?thesis
    unfolding apply_change_def bindA_step(1) [where m = "query (find_expected sample_row)", OF find]
    by (simp add: apply_to_baseline_def kind id thenA_def bindA_def modify_def flush_def update_where_def)
      (simp add: blocked_defs constraint_defs short_names delivery_row_of_def bump_version_def mark_accepted_def)
qed

lemma blocked_accept:
  obtains s' where "accept (sql_change_repository 0) 10 1 blocked_session = (Inr \<lparr>accepted_change = 10, accepted_version = 2\<rparr>, s')"
proof -
  obtain s' where s': "apply_change 0 sample_source sample_row blocked_session = (Inr 2, s')" using blocked_apply by blast
  have f: "find_open_change 10 (work blocked_session) = Some sample_row"
    by (simp add: find_open_change_def blocked_session_def fresh_session_def sample_after_def change_row_of_def)
  have "List.find (\<lambda>r. src_id r = ch_source sample_row) (t_sources (work blocked_session)) = Some sample_source"
    by (simp add: blocked_defs)
  then have "acceptance_transaction 0 10 blocked_session =
      (Inr (Some \<lparr>la_baseline_version = 1, la_apply = apply_change 0 sample_source sample_row\<rparr>), blocked_session)"
    unfolding acceptance_transaction_Inr f by (simp add: blocked_usable) (simp add: sample_source_def)
  then show thesis
    by (intro that [of s']) (simp add: accept_def sql_change_repository_def bindA_def s')
qed

theorem accepted_change_unblocks_witness:
  "\<exists>s' y. validate_pipeline sql_validation_repository ''revenue'' s' = (Inr y, s') \<and> validation_safe y"
proof -
  obtain s' where a: "accept (sql_change_repository 0) 10 1 blocked_session = (Inr \<lparr>accepted_change = 10, accepted_version = 2\<rparr>, s')"
    by (rule blocked_accept)
  have p: "sample_pipeline \<in> set (t_pipelines (work blocked_session))" "pl_key sample_pipeline = ''revenue''"
    by (simp_all add: blocked_session_def fresh_session_def sample_pipeline_def)
  obtain x y where x: "validate_pipeline sql_validation_repository ''revenue'' blocked_session = (Inr x, blocked_session)"
    and y: "validate_pipeline sql_validation_repository ''revenue'' s' = (Inr y, s')"
    and safe: "validation_safe y \<longleftrightarrow> blocking_id ` set (validation_blocking x) \<subseteq> {10}"
    using accepted_change_unblocks [OF a p(1)] unfolding p(2) by (elim exE conjE)
  have "ch_id c = 10" if "c \<in> set (t_changes (work blocked_session))" for c
    using that by (simp add: blocked_session_def fresh_session_def sample_after_def change_row_of_def)
  then have "blocking_id ` set (validation_blocking x) \<subseteq> {10}"
    unfolding blocking_ids(1) [OF x] blocks_pipeline_def by blast
  then show ?thesis using y safe by blast
qed

end
