(* ===== verification/DroppedColumn.thy ===== *)
theory DroppedColumn
  imports Acceptance Validation
begin






section \<open>An example\<close>




definition id_dropped :: schema_change where
  "id_dropped = build_change (ColumnRef (DatasetRef ''public'' ''orders'') ''id'') DROP_COLUMN BREAKING
     (Some (sample_column ''id'' ''bigint'' False)) None"



lemma id_dropped_simps [simp]:
  "change_dataset id_dropped = DatasetRef ''public'' ''orders''" "change_column id_dropped = ''id''"
  "change_severity id_dropped = BREAKING"
  by (simp_all add: id_dropped_def build_change_def)




end
