(* ===== verification/Dispatch.thy ===== *)
theory Dispatch
  imports Delivery
begin

text \<open>
  \<open>NotificationService.dispatch_scan\<close> from end to end: with configured channels and providers that answer or
  refuse, it returns, it sends each waiting message once and in order, and no delivery of the scan is left waiting.
\<close>

section \<open>One delivery\<close>

text \<open>A delivery that \<open>dispatch_scan\<close> finds, and a provider that answers with a receipt that fits its column or
  raises \<open>DeliveryFailure\<close>.\<close>

definition waiting :: "uuid \<Rightarrow> delivery_record \<Rightarrow> bool" where
  "waiting scan d \<longleftrightarrow> dr_scan d = scan \<and> dr_status d = PENDING \<and> delivery_ok d"

definition answers :: "provider \<Rightarrow> bool" where
  "answers answer \<longleftrightarrow> (\<forall>w m. (\<exists>e. answer w m = Inl (DeliveryFailure e)) \<or>
     (\<exists>p. answer w m = Inr p \<and> pred_option (at_most 250) p))"

definition configured :: "(alert_channel \<times> provider) list \<Rightarrow> alert_channel \<Rightarrow> bool" where
  "configured providers channel \<longleftrightarrow> pred_option answers (map_of (rev providers) channel) \<and> map_of (rev providers) channel \<noteq> None"

lemma configuredE:
  assumes "configured providers channel"
  obtains answer where "map_of (rev providers) channel = Some answer" and "answers answer"
  using assms by (auto simp: configured_def)

definition other_tables_same :: "session \<Rightarrow> session \<Rightarrow> bool" where
  "other_tables_same s s' \<longleftrightarrow> (\<exists>rows. work s' = (work s)\<lparr>t_deliveries := rows\<rparr>)"

lemma attempt_waiting:
  assumes "usable s" and "deliveries_in (work s) i = Some d" and "waiting scan d" and "configured providers (dr_channel d)"
    and ctx: "get_scan_context collate scan s = (Inr (Some ctx), s)"
  obtains r s' x where "attempt (sql_alert_repository collate) (notifiers_by_channel providers) base now i (s, w) =
      (Inr r, (s', w @ [(dr_channel d, build_alert_message ctx base, x)]))"
    and "usable s'" and "other_tables_same s s'"
    and "deliveries_in (work s') = (deliveries_in (work s))(i \<mapsto> settled r d)"
proof -
  obtain row where row: "find_delivery i (work s) = Some row" and d: "d = delivery_record_of row"
    using assms(2) by (auto simp: deliveries_in_def)
  have rest: "dr_attempts d = 0" "dr_retry d = None" using assms(3) by (auto simp: waiting_def delivery_ok_def)
  have scan: "dl_scan row = scan" "dl_channel row = dr_channel d" "dl_attempts row = 0"
    using assms(3) rest d by (simp_all add: waiting_def delivery_record_of_def)
  have old: "pred_option (at_most 250) (dl_provider_id row)"
    using assms(1) row by (auto simp: usable_def data_ok_def list_all_iff find_delivery_def find_Some_iff)
  obtain answer where provider: "map_of (rev providers) (dr_channel d) = Some answer" and "answers answer"
    by (rule configuredE [OF assms(4)])
  then obtain e where reply: "answer w (build_alert_message ctx base) = Inl (DeliveryFailure e) \<or>
      (\<exists>p. answer w (build_alert_message ctx base) = Inr p \<and> pred_option (at_most 250) p)"
    unfolding answers_def by blast
  have due: "due now (delivery_record_of row)" using rest d by (simp add: due_def)
  have ctx': "get_scan_context collate (dl_scan row) s = (Inr (Some ctx), s)" using ctx scan by simp
  have provider': "map_of (rev providers) (dl_channel row) = Some answer" using provider scan by simp
  obtain r s' where run: "attempt (sql_alert_repository collate) (notifiers_by_channel providers) base now i (s, w) =
      (Inr r, (s', w @ [(dr_channel d, build_alert_message ctx base, answer w (build_alert_message ctx base))]))"
    and s': "usable s'" "other_tables_same s s'" unfolding other_tables_same_def
    using attempt_made [OF assms(1) row due _ ctx' provider' reply old] unfolding scan(2) by (auto simp: scan(3))
  have view: "delivery_view (s, w) i = Some d" using assms(2) by (simp add: delivery_view_def)
  have nonneg: "0 \<le> dr_attempts e" if "delivery_view (s, w) i = Some e" for e using that view rest by simp
  have "deliveries_in (work s') = (deliveries_in (work s))(i \<mapsto> settled r d)"
    using sql_alerts.attempt_returns [OF run nonneg] view by (auto simp: delivery_view_def)
  then show thesis by (rule that [OF run s'])
qed

section \<open>All of them\<close>

lemma settled_status: "dr_status (settled r d) \<noteq> PENDING"
  by (simp add: settled_def)

lemma dispatch_loop:
  assumes "distinct ids" and "usable s" and "get_scan_context collate scan s = (Inr (Some ctx), s)"
    and "\<forall>i \<in> set ids. \<exists>d. deliveries_in (work s) i = Some d \<and> waiting scan d \<and> configured providers (dr_channel d)"
  shows "\<exists>rs s' sent. forA ids acc (append_attempt (sql_alert_repository collate) (notifiers_by_channel providers) base now) (s, w) =
      (Inr rs, (s', w @ sent)) \<and> usable s' \<and> other_tables_same s s' \<and>
    map (\<lambda>(c, m, x). (c, m)) sent = map (\<lambda>i. (dr_channel (the (deliveries_in (work s) i)), build_alert_message ctx base)) ids \<and>
    (\<forall>j. j \<notin> set ids \<longrightarrow> deliveries_in (work s') j = deliveries_in (work s) j) \<and>
    (\<forall>j \<in> set ids. \<exists>d. deliveries_in (work s') j = Some d \<and> dr_status d \<noteq> PENDING)"
  using assms
proof (induction ids arbitrary: s w acc)
  case Nil
  then show ?case by (intro exI [of _ acc] exI [of _ s] exI [of _ "[]"]) (auto simp: other_tables_same_def intro: exI [of _ "t_deliveries (work s)"])
next
  case (Cons i ids)
  obtain d where d: "deliveries_in (work s) i = Some d" "waiting scan d" "configured providers (dr_channel d)"
    using Cons.prems(4) by auto
  obtain r s1 x where one: "attempt (sql_alert_repository collate) (notifiers_by_channel providers) base now i (s, w) =
      (Inr r, (s1, w @ [(dr_channel d, build_alert_message ctx base, x)]))"
    and s1: "usable s1" "other_tables_same s s1"
    and view: "deliveries_in (work s1) = (deliveries_in (work s))(i \<mapsto> settled r d)"
    by (rule attempt_waiting [OF Cons.prems(2) d Cons.prems(3)])
  have ctx: "get_scan_context collate scan s1 = (Inr (Some ctx), s1)"
    using s1(2) context_elsewhere [OF Cons.prems(3) s1(1)] unfolding other_tables_same_def by blast
  have others: "j \<in> set ids \<Longrightarrow> j \<noteq> i" for j using Cons.prems(1) by auto
  have unique: "distinct ids" using Cons.prems(1) by simp
  have "\<forall>j \<in> set ids. \<exists>d. deliveries_in (work s1) j = Some d \<and> waiting scan d \<and> configured providers (dr_channel d)"
    using Cons.prems(4) others by (auto simp: view)
  note IH = Cons.IH [OF unique s1(1) ctx this, of "acc @ [r]" "w @ [(dr_channel d, build_alert_message ctx base, x)]"]
  obtain rs s' sent where loop: "forA ids (acc @ [r]) (append_attempt (sql_alert_repository collate)
        (notifiers_by_channel providers) base now) (s1, w @ [(dr_channel d, build_alert_message ctx base, x)]) =
      (Inr rs, (s', (w @ [(dr_channel d, build_alert_message ctx base, x)]) @ sent))"
    and s': "usable s'" "other_tables_same s1 s'"
    and sent: "map (\<lambda>(c, m, x). (c, m)) sent =
      map (\<lambda>i. (dr_channel (the (deliveries_in (work s1) i)), build_alert_message ctx base)) ids"
    and kept: "\<forall>j. j \<notin> set ids \<longrightarrow> deliveries_in (work s') j = deliveries_in (work s1) j"
    and done': "\<forall>j \<in> set ids. \<exists>d. deliveries_in (work s') j = Some d \<and> dr_status d \<noteq> PENDING"
    using IH by (elim exE conjE)
  have run: "forA (i # ids) acc (append_attempt (sql_alert_repository collate) (notifiers_by_channel providers) base now) (s, w) =
      (Inr rs, (s', w @ (dr_channel d, build_alert_message ctx base, x) # sent))"
    using loop by (simp add: append_attempt_def bindA_def one)
  have messages: "map (\<lambda>(c, m, x). (c, m)) sent =
      map (\<lambda>i. (dr_channel (the (deliveries_in (work s) i)), build_alert_message ctx base)) ids"
    unfolding sent using others by (intro map_cong refl) (simp add: view)
  have "i \<notin> set ids" using Cons.prems(1) by simp
  then have last: "deliveries_in (work s') i = Some (settled r d)" using kept by (simp add: view)
  show ?case
  proof (intro exI conjI)
    show "\<forall>j. j \<notin> set (i # ids) \<longrightarrow> deliveries_in (work s') j = deliveries_in (work s) j" using kept by (simp add: view)
    show "\<forall>j \<in> set (i # ids). \<exists>d. deliveries_in (work s') j = Some d \<and> dr_status d \<noteq> PENDING"
      using done' last settled_status by auto
    show "other_tables_same s s'" using s1(2) s'(2) by (auto simp: other_tables_same_def)
    show "map (\<lambda>(c, m, x). (c, m)) ((dr_channel d, build_alert_message ctx base, x) # sent) =
        map (\<lambda>i. (dr_channel (the (deliveries_in (work s) i)), build_alert_message ctx base)) (i # ids)"
      using messages d(1) by simp
  qed (use run s'(1) in auto)
qed

lemma find_own_delivery:
  assumes "usable s" and "d \<in> set (t_deliveries (work s))"
  shows "find_delivery (dl_id d) (work s) = Some d"
proof (cases "find_delivery (dl_id d) (work s)")
  case None
  then show ?thesis using assms(2) by (auto simp: find_delivery_def find_None_iff)
next
  case (Some e)
  then have "e \<in> set (t_deliveries (work s))" "dl_id e = dl_id d" by (auto simp: find_delivery_def find_Some_iff)
  moreover have "unique_on dl_id (t_deliveries (work s))"
    using assms(1) by (simp add: usable_def integrity_ok_def delivery_constraints_def)
  ultimately have "e = d" using unique_onD [of dl_id "t_deliveries (work s)" e d] assms(2) by simp
  then show ?thesis using Some by simp
qed

definition waiting_rows :: "uuid \<Rightarrow> tables \<Rightarrow> delivery_row list" where
  "waiting_rows scan t = sort_key (\<lambda>r. (dl_created r, dl_id r)) (filter (\<lambda>r. dl_scan r = scan \<and> dl_status r = PENDING) (t_deliveries t))"

lemma set_waiting_rows: "d \<in> set (waiting_rows scan t) \<longleftrightarrow> d \<in> set (t_deliveries t) \<and> dl_scan d = scan \<and> dl_status d = PENDING"
  by (auto simp: waiting_rows_def)

lemma distinct_waiting_rows:
  assumes "usable s"
  shows "distinct (map dl_id (waiting_rows scan (work s)))"
proof -
  have "distinct (map dl_id (t_deliveries (work s)))"
    using assms by (simp add: usable_def integrity_ok_def delivery_constraints_def unique_on_def)
  then have "distinct (map dl_id (filter (\<lambda>r. dl_scan r = scan \<and> dl_status r = PENDING) (t_deliveries (work s))))"
    by (simp add: distinct_map inj_on_def)
  then show ?thesis by (simp add: waiting_rows_def distinct_map)
qed

lemma dispatch_scan_runs:
  assumes "usable s"
  shows "dispatch_scan (sql_alert_repository collate) (notifiers_by_channel providers) base now scan (s, w) =
    forA (map dl_id (waiting_rows scan (work s))) [] (append_attempt (sql_alert_repository collate) (notifiers_by_channel providers) base now) (s, w)"
  by (simp add: dispatch_scan_def sql_alert_repository_def on_db_def list_dispatchable_for_scan_def bindA_def usable_run(2) [OF assms]
      waiting_rows_def)

text \<open>C25. Dispatching settles every waiting delivery: if the channels of a scan's waiting deliveries are configured
  and their providers answer or refuse, the dispatch returns; it has sent the message of the scan once to each of
  their channels, in the order in which the deliveries were queued; no delivery of the scan is waiting any more, and
  no other delivery has changed.\<close>

theorem dispatch_settles:
  assumes "usable s" and "get_scan_context collate scan s = (Inr (Some ctx), s)"
    and "\<forall>d \<in> set (waiting_rows scan (work s)). delivery_ok (delivery_record_of d) \<and> configured providers (dl_channel d)"
  shows "\<exists>rs s' sent. dispatch_scan (sql_alert_repository collate) (notifiers_by_channel providers) base now scan (s, w) =
      (Inr rs, (s', w @ sent)) \<and>
    map (\<lambda>(c, m, x). (c, m)) sent = map (\<lambda>d. (dl_channel d, build_alert_message ctx base)) (waiting_rows scan (work s)) \<and>
    waiting_rows scan (work s') = [] \<and>
    (\<forall>j. j \<notin> dl_id ` set (waiting_rows scan (work s)) \<longrightarrow> deliveries_in (work s') j = deliveries_in (work s) j)"
proof -
  let ?ids = "map dl_id (waiting_rows scan (work s))"
  have own: "deliveries_in (work s) (dl_id d) = Some (delivery_record_of d)" if "d \<in> set (waiting_rows scan (work s))" for d
    using find_own_delivery [OF assms(1)] that by (simp add: deliveries_in_def set_waiting_rows)
  have "\<forall>i \<in> set ?ids. \<exists>d. deliveries_in (work s) i = Some d \<and> waiting scan d \<and> configured providers (dr_channel d)"
    using own assms(3) by (auto simp: waiting_def set_waiting_rows delivery_record_of_def)
  from dispatch_loop [OF distinct_waiting_rows [OF assms(1)] assms(1,2) this, of "[]" base now w]
  obtain rs s' sent where run: "forA ?ids [] (append_attempt (sql_alert_repository collate) (notifiers_by_channel providers) base now) (s, w)
      = (Inr rs, (s', w @ sent))" and us: "usable s'"
    and sent: "map (\<lambda>(c, m, x). (c, m)) sent = map (\<lambda>i. (dr_channel (the (deliveries_in (work s) i)), build_alert_message ctx base)) ?ids"
    and kept: "\<forall>j. j \<notin> set ?ids \<longrightarrow> deliveries_in (work s') j = deliveries_in (work s) j"
    and over: "\<forall>j \<in> set ?ids. \<exists>d. deliveries_in (work s') j = Some d \<and> dr_status d \<noteq> PENDING"
    by (elim exE conjE)
  have "dl_status d \<noteq> PENDING" if d: "d \<in> set (t_deliveries (work s'))" "dl_scan d = scan" for d
  proof
    assume p: "dl_status d = PENDING"
    have now': "deliveries_in (work s') (dl_id d) = Some (delivery_record_of d)"
      using find_own_delivery [OF us d(1)] by (simp add: deliveries_in_def)
    then have out: "dl_id d \<notin> set ?ids" using over p by (auto simp: delivery_record_of_def)
    then have "deliveries_in (work s) (dl_id d) = Some (delivery_record_of d)" using kept now' by simp
    then obtain e where e: "find_delivery (dl_id d) (work s) = Some e" "delivery_record_of e = delivery_record_of d"
      by (auto simp: deliveries_in_def)
    then have "e \<in> set (waiting_rows scan (work s))" "dl_id e = dl_id d"
      using d(2) p by (auto simp: set_waiting_rows delivery_record_of_def find_delivery_def find_Some_iff)
    then show False using out by (metis image_eqI set_map)
  qed
  then have none: "waiting_rows scan (work s') = []" using set_waiting_rows [of _ scan "work s'"] by (metis list.set_intros(1) neq_Nil_conv)
  have "map (\<lambda>(c, m, x). (c, m)) sent = map (\<lambda>d. (dl_channel d, build_alert_message ctx base)) (waiting_rows scan (work s))"
    unfolding sent map_map by (intro map_cong refl) (simp add: own delivery_record_of_def)
  then show ?thesis
    using run none kept unfolding dispatch_scan_runs [OF assms(1)] set_map by (intro exI conjI)
qed

section \<open>An example\<close>

lemma sample_answers: "answers taken" "answers refused"
  by (simp_all add: answers_def taken_def refused_def at_most_def)

text \<open>Slack refuses and the mail server takes the message; both deliveries are settled.\<close>

theorem dispatch_settles_witness:
  "\<exists>rs s' sent. dispatch_scan (sql_alert_repository id) (notifiers_by_channel [(SLACK, refused), (EMAIL, taken)]) ''http://localhost'' 0 3
      (two_deliveries, []) = (Inr rs, (s', sent)) \<and> map fst sent = [SLACK, EMAIL] \<and> waiting_rows 3 (work s') = []"
proof -
  let ?rows = "waiting_rows 3 (work two_deliveries)"
  have rows: "map dl_channel ?rows = [SLACK, EMAIL]"
    by (simp add: waiting_rows_def two_deliveries_def delivery_row_of_def sample_after_def sample_defs)
  have "\<forall>d \<in> set ?rows. delivery_ok (delivery_record_of d) \<and> configured [(SLACK, refused), (EMAIL, taken)] (dl_channel d)"
    using sample_answers
    by (auto simp: waiting_rows_def two_deliveries_def delivery_row_of_def sample_after_def sample_defs delivery_ok_def
        delivery_record_of_def configured_def)
  moreover have "get_scan_context id 3 two_deliveries = (Inr (Some sample_context), two_deliveries)"
    by (rule two_deliveries_context [OF two_deliveries_usable, of "t_deliveries (work two_deliveries)"]) simp
  ultimately have "\<exists>rs s' sent. dispatch_scan (sql_alert_repository id) (notifiers_by_channel [(SLACK, refused), (EMAIL, taken)])
      ''http://localhost'' 0 3 (two_deliveries, []) = (Inr rs, (s', [] @ sent)) \<and>
    map (\<lambda>(c, m, x). (c, m)) sent = map (\<lambda>d. (dl_channel d, build_alert_message sample_context ''http://localhost'')) ?rows \<and>
    waiting_rows 3 (work s') = []"
    using dispatch_settles [OF two_deliveries_usable] by blast
  then obtain rs s' sent where run: "dispatch_scan (sql_alert_repository id) (notifiers_by_channel [(SLACK, refused), (EMAIL, taken)])
      ''http://localhost'' 0 3 (two_deliveries, []) = (Inr rs, (s', [] @ sent))"
    and sent: "map (\<lambda>(c, m, x). (c, m)) sent = map (\<lambda>d. (dl_channel d, build_alert_message sample_context ''http://localhost'')) ?rows"
    and none: "waiting_rows 3 (work s') = []"
    by (elim exE conjE)
  have "map fst sent = map fst (map (\<lambda>(c, m, x). (c, m)) sent)" by (simp add: case_prod_unfold)
  then have "map fst sent = [SLACK, EMAIL]" unfolding sent using rows by (simp add: comp_def)
  then show ?thesis using run none by auto
qed

end
