(* ===== verification/Spec2Isabelle.thy ===== *)
theory Spec2Isabelle
  imports AcceptRace ServiceInvariant Airflow Migrations Redaction Repositories Baseline Unblocking DroppedColumn Dispatch
begin

text \<open>
  A verification of Schema Sentry, a monitor of schema drift: it reads the columns of a PostgreSQL source,
  compares them with an accepted baseline, keeps the differences as open changes, works out which pipelines
  read what has changed, notifies the owners, and blocks the pipelines that a \<open>BREAKING\<close> change reaches.
  Source paths below are relative to \<open>src/schema_sentry/\<close> where nothing else is said.

  \<^bold>\<open>The parts and how they work together.\<close>
  A scan (\<open>application/scan_service.py\<close>) locks its source, reads the baseline and the lineage through a
  persistence port, collects the columns (\<open>infrastructure/db/postgres_collector.py\<close>), compares them
  (\<open>domain/diff.py\<close>, \<open>domain/type_rules.py\<close>) and hands the changes to the repository
  (\<open>infrastructure/db/repositories/scans.py\<close>), which merges them with the open changes by fingerprint
  (\<open>domain/fingerprint.py\<close>) and queues alert deliveries. An operator accepts a change into the baseline
  (\<open>application/change_service.py\<close>, \<open>repositories/changes.py\<close>). A pipeline asks whether it is safe
  (\<open>application/validation_service.py\<close>), which searches the stored lineage (\<open>domain/lineage.py\<close>) from the
  open \<open>BREAKING\<close> changes. The lineage comes from a catalog file (\<open>application/catalog_service.py\<close>,
  \<open>repositories/catalog.py\<close>, \<open>cli.py\<close>). Deliveries are attempted, counted and retried by
  \<open>application/notification_service.py\<close> over \<open>repositories/alerts.py\<close> and the two notifiers. The web
  application (\<open>api/\<close>) runs each request in one transaction, and the Airflow graphs (\<open>airflow/dags/\<close>) call
  it.

  \<^bold>\<open>Theories and sources.\<close>
  \<^item> \<open>Prelude\<close>: exceptions as the values of \<open>py_error\<close>, results as sums, actions that thread a state and may
    raise (\<open>bindA\<close>, \<open>thenA\<close>, \<open>exceptA\<close>, \<open>forA\<close>), dictionaries as association lists, sorting.
    \<open>PyString\<close>, \<open>PyFloat\<close>, \<open>Json\<close>, \<open>Sha256\<close>: what the code uses of Python's strings, floats, \<open>json.dumps\<close>
    and \<open>hashlib\<close>.
  \<^item> \<open>Models\<close>, \<open>TypeRules\<close>, \<open>Diff\<close>, \<open>Fingerprint\<close>, \<open>Lineage\<close>: the files of \<open>domain/\<close>, one definition per function
    or method. The loop of the impact search is the recursive function \<open>search\<close> on a measure, and one round of
    it is \<open>search_round\<close>.
  \<^item> \<open>Store\<close>: one record per mapped class of \<open>infrastructure/db/models/\<close>, the tables, the declared
    constraints, and the session: working tables, committed tables, whether a failed flush has poisoned the
    transaction, and the supply of fresh identifiers; \<open>flush\<close>, \<open>commit\<close>, \<open>rollback\<close>, \<open>session_scope\<close>.
    \<open>DatabaseSchema\<close> and \<open>Migrations\<close>: \<open>alembic/versions/*.py\<close> as lists of schema operations with their meaning,
    and the schema the mapped classes declare.
  \<^item> \<open>ScanRepo\<close>, \<open>ScanService\<close>, with \<open>DriftMerge\<close>, \<open>ScanRuns\<close>, \<open>ScanErrors\<close>, \<open>Baseline\<close> on what runs do:
    \<open>repositories/scans.py\<close>, \<open>application/ports.py\<close>, \<open>application/scan_service.py\<close>.
  \<^item> \<open>ChangeService\<close>, \<open>ChangeRepo\<close>, with \<open>Acceptance\<close> and \<open>AcceptRace\<close>; \<open>Validation\<close>; \<open>Query\<close>: the change, validation
    and query services with their repositories. \<open>DroppedColumn\<close>: from a column that a scan no longer finds to
    the verdict on the pipelines that read it. \<open>Unblocking\<close>: what an acceptance does to validation.
  \<^item> \<open>Notification\<close>, \<open>AlertRepo\<close>, \<open>Delivery\<close>, \<open>Dispatch\<close>, \<open>Notifiers\<close>: the notification service, its repository and
    \<open>infrastructure/notifications/\<close>.
  \<^item> \<open>CatalogService\<close>, \<open>CatalogRepo\<close>, \<open>Catalog\<close>: the catalog. \<open>Repositories\<close>: the repository operations that no
    service calls, and the contract that all \<open>add\<close> methods share.
  \<^item> \<open>Settings\<close> (\<open>config.py\<close>, \<open>api/security.py\<close>), \<open>Collector\<close>, \<open>Requests\<close> (\<open>api/dependencies.py\<close>), \<open>Responses\<close>
    (\<open>api/schemas/\<close>), \<open>Endpoints\<close> (\<open>api/routers/\<close>), \<open>Dashboard\<close> (\<open>api/routers/dashboard.py\<close>), \<open>App\<close>
    (\<open>api/app.py\<close>), \<open>Cli\<close>, with \<open>ScanRequests\<close>, \<open>DashboardRuns\<close>, \<open>Access\<close>, \<open>History\<close> and \<open>ServiceInvariant\<close> on what
    requests do.
  \<^item> \<open>Redaction\<close>: \<open>logging.py\<close>. \<open>Airflow\<close>: the client, the guard, the periodic scan and both graphs.

  \<^bold>\<open>Interfaces.\<close>
  Each port of \<open>application/\<close> is a record of operations. \<open>scan_protocol\<close>, \<open>acceptance_protocol\<close>,
  \<open>validation_protocol\<close>, \<open>delivery_protocol\<close> and \<open>catalog_protocol\<close> are the locales of what a service relies on;
  the theorems about the services are proved in them, and each is interpreted on the SQLAlchemy repository
  (\<open>sql_scans\<close>, \<open>sql_changes\<close>, \<open>sql_validation\<close>, \<open>sql_alerts\<close>, \<open>sql_catalog\<close>). \<open>row_store\<close> and \<open>keyed_store\<close> are
  the contracts of a table with \<open>add\<close> and with a lookup by a unique key.

  \<^bold>\<open>What the lemmas show.\<close>
  \<^item> Domain: \<open>diff_columns\<close> reports exactly the due changes in order; the type policy is right about which values
    still fit; the parser inverts rendering; the impact search finds exactly the reachable pipelines, by shortest
    paths, and ends on cyclic graphs; what a fingerprint can and cannot tell apart.
  \<^item> Tables: the baseline that the first scan stores is read back as collected, so that the next scan of the same
    schema finds nothing; after a drift scan the open changes are exactly the reported differences; accepting implements an
    abstract transition on open changes and versions, at most once, also under concurrency (a step relation over
    requests that wait for a row lock); a pipeline is blocked exactly by the changes that reach it, among them the
    loss of a column it reads, and an acceptance takes exactly its change away from them; a synchronised catalog is stored as declared; attempts follow a small
    state machine, and a dispatch settles every waiting delivery of its scan.
  \<^item> Schema: upgrading and downgrading are inverse, the head is what the mapped classes declare, and the
    constraints of \<open>Store\<close> are exactly those of the migrated schema.
  \<^item> Requests: the outcome of a scan request decides what is committed; notifications cannot undo a scan; the
    dashboard does what the API does; effects need credentials and, on the dashboard, the same origin; and over
    every history of requests and synchronisations the committed metadata stays sound.
  \<^item> Airflow: the revenue is aggregated only after a try of the guard that found no blocking change.
  \<^item> Logs: no value under a sensitive key is rendered, nor the password of an address in the text of an error.
  Some theorems record behaviour that looks unintended (a change resolved by a scan is still accepted, a message
  is sent again after a rollback, equal table names of two sources are confused, dotted names share a
  fingerprint); \<open>secret_after_scheme\<close> and \<open>secret_without_user\<close> show what text redaction lets through.

  \<^bold>\<open>Strings, numbers, time.\<close>
  A \<open>str\<close> is a list of characters read as code points below 256, so \<open>len\<close> is \<open>length\<close>; texts for people
  (messages, addresses of mail) are lists of code points. Python integers are \<open>int\<close>; the words of the hash have
  32 bits; \<open>Integer\<close> columns have the range of \<open>int32\<close>, checked by \<open>flush\<close>. Times are integers of microseconds and
  arguments of the operations, as are the collation of the database and the identifiers it compares.

  \<^bold>\<open>Bounds and loops.\<close>
  There is no fuel: loops over collections are folds (\<open>forA\<close>), the impact search terminates by a measure on the
  pairs not yet visited, and matching of patterns is structural. The only numeric bounds are the code's own: three
  attempts of a delivery, two retries of a task, a limit of 50 recent scans, and column lengths.

  \<^bold>\<open>Code outside the repository.\<close>
  The source database (\<open>driver\<close>), the HTTP and SMTP clients (\<open>outside\<close>), the network and \<open>json.loads\<close> of the
  Airflow client, the reading of YAML (\<open>loader\<close>), the reading of the environment and the check of bracketed hosts
  are arguments. What is assumed of them is named: \<open>driver_like\<close> (the driver raises only its own errors),
  \<open>clients_ok\<close> (so do the clients), \<open>answers_validation\<close> and \<open>answers_scan\<close> (a request that reaches the service is
  answered by the modelled endpoint), \<open>loads_renders\<close> (\<open>json.loads\<close> inverts the rendering of responses),
  \<open>scheduled\<close> and \<open>guarded_by\<close> (Airflow tries a task only after those before it have succeeded, as often as its
  retries allow, and its result is that of its function). FastAPI runs an endpoint on the session of the request,
  its background tasks after it, and the end of the session last; requests follow one another, except in
  \<open>AcceptRace\<close>. SQLAlchemy flushes before each query, and a failed flush leaves a session that only a rollback
  revives.

  \<^bold>\<open>Not modelled.\<close>
  \<open>alembic/env.py\<close>, engine and session factories, \<open>check_connection\<close>, the injection of FastAPI and the bundle of
  repositories only put library objects together. Templates and static files are HTML, style sheets and
  scripts: the model stops at the values the templates are given and at the two filters they use; the local time
  zone is an argument of the date filter. Of \<open>logging.py\<close> the set-up of structlog and the stream wrapper are I/O. Log lines and
  \<open>__init__\<close> files without logic are left out.
\<close>

end
